theory Spec2Isabelle
  imports Main "HOL-Library.Word"
begin

section \<open>Data model of \<open>gdb/symtab.c\<close>\<close>

text \<open>
  \<open>CORE_ADDR\<close> is an unsigned machine integer; it is taken at 64 bits, so that
  \<open>pc - 1\<close> wraps as in C. Source line numbers are C \<open>int\<close>s that are only ever compared,
  never computed with, and are modelled as \<open>int\<close>.
\<close>

type_synonym CORE_ADDR = "64 word"

datatype language =
  language_unknown | language_auto | language_c | language_cplus | language_java
  | language_objc | language_ada | language_asm | language_minimal

text \<open>
  \<open>domain_enum\<close> of \<open>symtab.h\<close>: the four search kinds come after the four name spaces,
  which is what \<open>kind < VARIABLES_DOMAIN\<close> in \<open>search_symbols\<close> tests.
\<close>

datatype domain_enum =
  UNDEF_DOMAIN | VAR_DOMAIN | STRUCT_DOMAIN | LABEL_DOMAIN
  | VARIABLES_DOMAIN | FUNCTIONS_DOMAIN | TYPES_DOMAIN | METHODS_DOMAIN

datatype address_class =
  LOC_UNDEF | LOC_CONST | LOC_STATIC | LOC_REGISTER | LOC_ARG | LOC_REF_ARG
  | LOC_REGPARM_ADDR | LOC_LOCAL | LOC_TYPEDEF | LOC_LABEL | LOC_BLOCK
  | LOC_CONST_BYTES | LOC_UNRESOLVED | LOC_OPTIMIZED_OUT | LOC_COMPUTED

datatype type_code =
  TYPE_CODE_PTR | TYPE_CODE_REF | TYPE_CODE_STRUCT | TYPE_CODE_UNION
  | TYPE_CODE_TYPEDEF | TYPE_CODE_OTHER

text \<open>
  \<open>struct type\<close>: a pointer or a reference to a target type, a typedef, a struct or a
  union with its name and the names of its fields, or any other type. What
  \<open>check_typedef\<close>, \<open>check_field\<close> and \<open>TYPE_IS_OPAQUE\<close> make of a type is decided outside
  \<open>symtab.c\<close>; they are fields of the record \<open>ext\<close> below.
\<close>

datatype gdb_type =
  Type_Ptr gdb_type
  | Type_Ref gdb_type
  | Type_Typedef string gdb_type
  | Type_Struct string "string list"
  | Type_Union string "string list"
  | Type_Other string

fun TYPE_CODE :: "gdb_type \<Rightarrow> type_code" where
  "TYPE_CODE (Type_Ptr t) = TYPE_CODE_PTR"
| "TYPE_CODE (Type_Ref t) = TYPE_CODE_REF"
| "TYPE_CODE (Type_Typedef n t) = TYPE_CODE_TYPEDEF"
| "TYPE_CODE (Type_Struct n fs) = TYPE_CODE_STRUCT"
| "TYPE_CODE (Type_Union n fs) = TYPE_CODE_UNION"
| "TYPE_CODE (Type_Other n) = TYPE_CODE_OTHER"

text \<open>
  \<open>struct obj_section\<close>, as far as \<open>matching_obj_sections\<close> reads it: the BFD section
  behind it, with its owner (a BFD, by number), size, address and name.
\<close>

record asection =
  as_id :: nat
  as_owner :: "nat option"
  as_size :: nat
  as_vma :: CORE_ADDR
  as_name :: "string option"

record obj_section =
  the_bfd_section :: "asection option"

text \<open>
  \<open>struct general_symbol_info\<close> with the fields of \<open>struct symbol\<close> that \<open>symtab.c\<close> reads.
  \<open>sym_name\<close> is \<open>ginfo.name\<close> (the linkage name), \<open>sym_demangled\<close> is
  \<open>language_specific.cplus_specific.demangled_name\<close>, \<open>sym_file\<close> is
  \<open>SYMBOL_SYMTAB (sym)->filename\<close>. A partial symbol has the same shape
  (\<open>struct partial_symbol\<close> is a \<open>general_symbol_info\<close> with a domain and a class).
  The section of a symbol is a cache that \<open>fixup_symbol_section\<close> and
  \<open>fixup_psymbol_section\<close> fill in from the minimal symbols on first use; it is not a
  field here but the function \<open>SYMBOL_OBJ_SECTION\<close> of the record \<open>ext\<close>, which gives the
  section once filled in. Both functions return the symbol they are given.
\<close>

record symbol =
  sym_name :: string
  sym_demangled :: "string option"
  sym_language :: language
  sym_domain :: domain_enum
  sym_class :: address_class
  sym_is_argument :: bool
  sym_type :: gdb_type
  sym_address :: CORE_ADDR
  sym_file :: string

text \<open>
  \<open>struct block\<close>. \<open>BLOCK_ID\<close> stands for the address of the block: two pointers to
  blocks are equal when the blocks have the same \<open>BLOCK_ID\<close>. \<open>BLOCK_SUPERBLOCK\<close> is a
  pointer to the enclosing block; the chain of enclosing blocks is finite and ends at the
  global block, so a block carries its enclosing block. Two blocks on one chain have
  different depths, hence comparing them as values is comparing the pointers.
  \<open>BLOCK_DICT\<close> is the block's dictionary in the order in which its iterator yields the
  symbols.
\<close>

datatype block =
  Block (BLOCK_ID: nat) (BLOCK_START: CORE_ADDR) (BLOCK_END: CORE_ADDR)
    (BLOCK_FUNCTION: "symbol option") (BLOCK_DICT: "symbol list")
    (BLOCK_SUPERBLOCK: "block option")

record linetable_entry =
  le_line :: int
  le_pc :: CORE_ADDR

text \<open>
  \<open>struct blockvector\<close>: \<open>bv_id\<close> stands for its address (two symtabs share a blockvector
  when they point to the same one), \<open>bv_global\<close> and \<open>bv_static\<close> are
  \<open>BLOCKVECTOR_BLOCK (bv, GLOBAL_BLOCK)\<close> and \<open>BLOCKVECTOR_BLOCK (bv, STATIC_BLOCK)\<close>.
\<close>

record blockvector =
  bv_id :: nat
  bv_global :: block
  bv_static :: block

record symtab =
  st_filename :: string
  LINETABLE :: "linetable_entry list option"
  BLOCKVECTOR :: blockvector
  st_primary :: bool

text \<open>
  \<open>struct partial_symtab\<close>. \<open>pst_globals\<close> and \<open>pst_statics\<close> are its slices of the
  objfile's \<open>global_psymbols\<close> and \<open>static_psymbols\<close> lists (\<open>n_global_syms\<close> and
  \<open>n_static_syms\<close> are their lengths).
\<close>

record partial_symtab =
  pst_filename :: string
  textlow :: CORE_ADDR
  texthigh :: CORE_ADDR
  pst_globals :: "symbol list"
  pst_statics :: "symbol list"
  readin :: bool
  pst_symtab :: "symtab option"

datatype minimal_symbol_type =
  mst_unknown | mst_text | mst_data | mst_bss | mst_abs | mst_solib_trampoline
  | mst_file_text | mst_file_data | mst_file_bss

text \<open>
  \<open>struct minimal_symbol\<close>: \<open>msym_name\<close> is its linkage name, \<open>msym_natural_name\<close> what
  \<open>SYMBOL_NATURAL_NAME\<close> gives for it.
\<close>

record minimal_symbol =
  msym_name :: string
  msym_natural_name :: string
  msym_address :: CORE_ADDR
  msym_type :: minimal_symbol_type

text \<open>
  \<open>struct objfile\<close>: its BFD (by number), its partial symtabs and symtabs in list order
  (\<open>->next\<close>), its minimal symbols, the \<open>OBJF_REORDERED\<close> flag, \<open>psymtabs_addrmap\<close>,
  which maps an address to a partial symtab of this objfile (given by its position in
  \<open>psymtabs\<close>), and the BFDs of \<open>separate_debug_objfile\<close> and
  \<open>separate_debug_objfile_backlink\<close>, when it has them.
\<close>

record objfile =
  obfd :: nat
  psymtabs :: "partial_symtab list"
  symtabs :: "symtab list"
  msymbols :: "minimal_symbol list"
  OBJF_REORDERED :: bool
  psymtabs_addrmap :: "(CORE_ADDR \<Rightarrow> nat option) option"
  separate_debug_objfile :: "nat option"
  separate_debug_objfile_backlink :: "nat option"

datatype block_index = GLOBAL_BLOCK | STATIC_BLOCK

text \<open>
  \<open>object_files\<close>, the list of all objfiles. A partial symtab is named by the position
  of its objfile in this list and its own position in the objfile's \<open>psymtabs\<close>.
\<close>

type_synonym catalog = "objfile list"

text \<open>The values of \<open>case_sensitivity\<close>.\<close>

datatype case_sensitivity_kind = case_sensitive_on | case_sensitive_off

text \<open>
  The calls of \<open>error\<close> and \<open>internal_error\<close> in the functions modelled here:
  \<open>Not_An_Aggregate this\<close> is "Internal error: `this' is not an aggregate";
  \<open>Psymtab_Not_In_Symtab i name file\<close> is "Internal: global (or static) symbol `name'
  found in file psymtab but not in symtab"; \<open>Failed_Consistency_Check\<close> is the
  \<open>internal_error\<close> of \<open>lookup_partial_symbol\<close>; \<open>Assertion_Failed\<close> is a failed
  \<open>gdb_assert\<close>; \<open>Must_Search_Specific_Domain\<close> and \<open>Invalid_Regexp\<close> are the errors of
  \<open>search_symbols\<close>, and \<open>Bad_Operator\<close> stands for the six errors of \<open>operator_chars\<close>.
\<close>

datatype error =
  Not_An_Aggregate string
  | Psymtab_Not_In_Symtab block_index string string
  | Failed_Consistency_Check
  | Assertion_Failed
  | Must_Search_Specific_Domain
  | Invalid_Regexp
  | Bad_Operator

text \<open>
  What \<open>symtab.c\<close> calls in other files. \<open>strcmp_iw a b\<close> holds when the C function
  returns 0; \<open>strcmp_iw_ordered\<close> returns the C function's integer.
  \<open>solib_global_lookup\<close> is given the position of the objfile. \<open>cplus_demangle m j\<close> is \<open>cplus_demangle (m, DMGL_PARAMS | DMGL_ANSI)\<close>, with
  \<open>DMGL_JAVA\<close> added when \<open>j\<close> holds. \<open>read_symtab\<close> is the debug-format reader called to
  expand a partial symtab. \<open>re_comp r\<close> holds when the regular expression compiles, and
  \<open>re_exec r s\<close> when \<open>re_exec (s)\<close> is not 0 after \<open>re_comp (r)\<close>.
  \<open>SYMBOL_PRINT_NAME\<close> is the macro of \<open>symtab.h\<close>; \<open>case_sensitivity\<close> and
  \<open>current_language\<close> (its \<open>la_language\<close>) are the global variables of \<open>language.c\<close>.
\<close>

record ext =
  strcmp_iw :: "string \<Rightarrow> string \<Rightarrow> bool"
  strcmp_iw_ordered :: "string \<Rightarrow> string \<Rightarrow> int"
  SYMBOL_OBJ_SECTION :: "symbol \<Rightarrow> obj_section option"
  solib_global_lookup :: "nat \<Rightarrow> string \<Rightarrow> string option \<Rightarrow> domain_enum \<Rightarrow> symbol option"
  ada_decode_symbol :: "symbol \<Rightarrow> string"
  la_name_of_this :: "language \<Rightarrow> string option"
  check_typedef :: "gdb_type \<Rightarrow> gdb_type"
  check_field :: "gdb_type \<Rightarrow> string \<Rightarrow> bool"
  TYPE_IS_OPAQUE :: "gdb_type \<Rightarrow> bool"
  objc_demangle :: "string \<Rightarrow> string option"
  cplus_demangle :: "string \<Rightarrow> bool \<Rightarrow> string option"
  read_symtab :: "partial_symtab \<Rightarrow> symtab"
  lookup_minimal_symbol_by_pc_section :: "CORE_ADDR \<Rightarrow> obj_section option \<Rightarrow> minimal_symbol option"
  lookup_minimal_symbol_by_pc :: "CORE_ADDR \<Rightarrow> minimal_symbol option"
  lookup_minimal_symbol_text :: "string \<Rightarrow> minimal_symbol option"
  overlay_debugging :: bool
  bfd_get_start_address :: "nat \<Rightarrow> CORE_ADDR"
  find_pc_overlay :: "CORE_ADDR \<Rightarrow> obj_section option"
  pc_in_unmapped_range :: "CORE_ADDR \<Rightarrow> obj_section option \<Rightarrow> bool"
  overlay_mapped_address :: "CORE_ADDR \<Rightarrow> obj_section option \<Rightarrow> CORE_ADDR"
  find_pc_mapped_section :: "CORE_ADDR \<Rightarrow> obj_section option"
  re_comp :: "string \<Rightarrow> bool"
  re_exec :: "string \<Rightarrow> string \<Rightarrow> bool"
  lbasename :: "string \<Rightarrow> string"
  SYMBOL_PRINT_NAME :: "symbol \<Rightarrow> string"
  case_sensitivity :: case_sensitivity_kind
  current_language :: language

section \<open>Names of a symbol\<close>

text \<open>\<open>symbol_natural_name\<close>, \<open>symbol_search_name\<close> and \<open>SYMBOL_LINKAGE_NAME\<close>.\<close>

definition symbol_natural_name :: "ext \<Rightarrow> symbol \<Rightarrow> string" where
  "symbol_natural_name E g =
     (if sym_language g \<in> {language_cplus, language_java, language_objc} then
        (case sym_demangled g of Some d \<Rightarrow> d | None \<Rightarrow> sym_name g)
      else if sym_language g = language_ada then
        (case sym_demangled g of Some d \<Rightarrow> d | None \<Rightarrow> ada_decode_symbol E g)
      else sym_name g)"

definition symbol_search_name :: "ext \<Rightarrow> symbol \<Rightarrow> string" where
  "symbol_search_name E g =
     (if sym_language g = language_ada then sym_name g else symbol_natural_name E g)"

definition SYMBOL_MATCHES_SEARCH_NAME :: "ext \<Rightarrow> symbol \<Rightarrow> string \<Rightarrow> bool" where
  "SYMBOL_MATCHES_SEARCH_NAME E s name = strcmp_iw E (symbol_search_name E s) name"

definition symbol_matches_domain :: "language \<Rightarrow> domain_enum \<Rightarrow> domain_enum \<Rightarrow> bool" where
  "symbol_matches_domain symbol_language symbol_domain domain =
     (if (symbol_language = language_cplus \<or> symbol_language = language_java
          \<or> symbol_language = language_ada)
         \<and> (domain = VAR_DOMAIN \<or> domain = STRUCT_DOMAIN) \<and> symbol_domain = STRUCT_DOMAIN
      then True
      else symbol_domain = domain)"

section \<open>Looking a name up in one block\<close>

text \<open>
  \<open>dict_iter_name_first\<close> and \<open>dict_iter_name_next\<close> yield, in the dictionary's order,
  the symbols whose search name matches the name.
\<close>

definition dict_iter_name :: "ext \<Rightarrow> symbol list \<Rightarrow> string \<Rightarrow> symbol list" where
  "dict_iter_name E dict name = filter (\<lambda>s. SYMBOL_MATCHES_SEARCH_NAME E s name) dict"

text \<open>The test both loops of \<open>lookup_block_symbol\<close> apply to each symbol the iterator yields.\<close>

definition block_symbol_ok :: "string option \<Rightarrow> domain_enum \<Rightarrow> symbol \<Rightarrow> bool" where
  "block_symbol_ok linkage_name domain s =
     (symbol_matches_domain (sym_language s) (sym_domain s) domain
      \<and> (case linkage_name of Some l \<Rightarrow> sym_name s = l | None \<Rightarrow> True))"

text \<open>The loop for a block that is not a function's: the first symbol that passes.\<close>

fun scan_plain_block :: "string option \<Rightarrow> domain_enum \<Rightarrow> symbol list \<Rightarrow> symbol option" where
  "scan_plain_block l d [] = None"
| "scan_plain_block l d (s # ss) =
     (if block_symbol_ok l d s then Some s else scan_plain_block l d ss)"

text \<open>
  The loop for a function's block: \<open>sym_found\<close> is overwritten by every symbol that
  passes, and the loop breaks at the first one that is not an argument.
\<close>

fun scan_function_block ::
  "string option \<Rightarrow> domain_enum \<Rightarrow> symbol option \<Rightarrow> symbol list \<Rightarrow> symbol option" where
  "scan_function_block l d sym_found [] = sym_found"
| "scan_function_block l d sym_found (s # ss) =
     (if block_symbol_ok l d s then
        (if \<not> sym_is_argument s then Some s else scan_function_block l d (Some s) ss)
      else scan_function_block l d sym_found ss)"

definition lookup_block_symbol ::
  "ext \<Rightarrow> block \<Rightarrow> string \<Rightarrow> string option \<Rightarrow> domain_enum \<Rightarrow> symbol option" where
  "lookup_block_symbol E b name linkage_name domain =
     (if BLOCK_FUNCTION b = None
      then scan_plain_block linkage_name domain (dict_iter_name E (BLOCK_DICT b) name)
      else scan_function_block linkage_name domain None (dict_iter_name E (BLOCK_DICT b) name))"

text \<open>
  The symbols of a block that match a name and a domain (and a linkage name, when one is
  asked for), in the order in which the block's dictionary yields them.
\<close>

definition block_matches ::
  "ext \<Rightarrow> block \<Rightarrow> string \<Rightarrow> string option \<Rightarrow> domain_enum \<Rightarrow> symbol list" where
  "block_matches E b name linkage_name domain =
     filter (block_symbol_ok linkage_name domain) (dict_iter_name E (BLOCK_DICT b) name)"

section \<open>The local pass of name lookup\<close>

text \<open>
  Modelled from the spec: \<open>block_static_block\<close> and \<open>block_global_block\<close> are functions of
  \<open>block.c\<close>. The block tree has a global block with no enclosing block, a static block
  right beneath it, and the function and lexical blocks beneath that; the static block of
  a block is the block on its chain whose enclosing block is the global block, and there
  is none for no block and for the global block.
\<close>

fun block_static_block :: "block option \<Rightarrow> block option" where
  "block_static_block None = None"
| "block_static_block (Some (Block n s e f dct None)) = None"
| "block_static_block (Some (Block n s e f dct (Some p))) =
     (if BLOCK_SUPERBLOCK p = None then Some (Block n s e f dct (Some p))
      else block_static_block (Some p))"

fun block_global_block :: "block \<Rightarrow> block" where
  "block_global_block (Block n s e f dct None) = Block n s e f dct None"
| "block_global_block (Block n s e f dct (Some p)) = block_global_block p"

text \<open>
  \<open>lookup_symbol_aux_block\<close>: \<open>lookup_block_symbol\<close>, then \<open>fixup_symbol_section\<close>, which
  returns the symbol. The assignment to the global \<open>block_found\<close> is left out: nothing
  modelled here reads it.
\<close>

definition lookup_symbol_aux_block ::
  "ext \<Rightarrow> string \<Rightarrow> string option \<Rightarrow> block \<Rightarrow> domain_enum \<Rightarrow> symbol option" where
  "lookup_symbol_aux_block E name linkage_name b domain =
     lookup_block_symbol E b name linkage_name domain"

text \<open>
  The loop of \<open>lookup_symbol_aux_local\<close>: \<open>while (block != static_block)\<close>. The static
  block is on the chain of the block, so the loop stops there; the branch for a block
  with no enclosing block is not reached.
\<close>

fun local_loop ::
  "ext \<Rightarrow> string \<Rightarrow> string option \<Rightarrow> domain_enum \<Rightarrow> block \<Rightarrow> block \<Rightarrow> symbol option" where
  "local_loop E name linkage_name domain static_block (Block n s e f dct super) =
     (if Block n s e f dct super = static_block then None
      else (case lookup_symbol_aux_block E name linkage_name (Block n s e f dct super) domain of
              Some found \<Rightarrow> Some found
            | None \<Rightarrow>
                (case super of
                   None \<Rightarrow> None
                 | Some p \<Rightarrow> local_loop E name linkage_name domain static_block p)))"

definition lookup_symbol_aux_local ::
  "ext \<Rightarrow> string \<Rightarrow> string option \<Rightarrow> block option \<Rightarrow> domain_enum \<Rightarrow> symbol option" where
  "lookup_symbol_aux_local E name linkage_name block domain =
     (case block_static_block block of
        None \<Rightarrow> None
      | Some static_block \<Rightarrow>
          (case block of
             None \<Rightarrow> None
           | Some b \<Rightarrow> local_loop E name linkage_name domain static_block b))"

text \<open>
  The blocks the local pass visits, innermost first: the chain of enclosing blocks of the
  context block without its last two, the static block and the global block.
\<close>

fun block_chain :: "block \<Rightarrow> block list" where
  "block_chain (Block n s e f dct None) = [Block n s e f dct None]"
| "block_chain (Block n s e f dct (Some p)) = Block n s e f dct (Some p) # block_chain p"

definition local_blocks :: "block option \<Rightarrow> block list" where
  "local_blocks block =
     (case block of None \<Rightarrow> [] | Some b \<Rightarrow> butlast (butlast (block_chain b)))"

section \<open>Partial symtabs\<close>

text \<open>
  The binary search of \<open>lookup_partial_symbol\<close> over the global partial symbols, between
  the positions \<open>bottom_i\<close> and \<open>top_i\<close>. It returns the position where it stops and whether a
  Java symbol it met asks for a linear search as well.
\<close>

function psym_binary_search ::
  "ext \<Rightarrow> symbol list \<Rightarrow> string \<Rightarrow> nat \<Rightarrow> nat \<Rightarrow> bool \<Rightarrow> error + (nat \<times> bool)" where
  "psym_binary_search E ps name bottom_i top_i do_linear_search =
     (if top_i > bottom_i then
        (let center = bottom_i + (top_i - bottom_i) div 2 in
         if \<not> center < top_i then Inl Failed_Consistency_Check
         else
           (let dls = (do_linear_search \<or> sym_language (ps ! center) = language_java) in
            if strcmp_iw_ordered E (symbol_search_name E (ps ! center)) name \<ge> 0
            then psym_binary_search E ps name bottom_i center dls
            else psym_binary_search E ps name (center + 1) top_i dls))
      else if top_i \<noteq> bottom_i then Inl Failed_Consistency_Check
      else Inr (top_i, do_linear_search))"
  by pat_completeness auto
termination
  by (relation "measure (\<lambda>(E, ps, name, bottom_i, top_i, dls). top_i - bottom_i)") auto

text \<open>The test of a partial symbol's name: its linkage name when one is asked for.\<close>

definition psym_name_ok :: "ext \<Rightarrow> string \<Rightarrow> string option \<Rightarrow> symbol \<Rightarrow> bool" where
  "psym_name_ok E name linkage_name p =
     (case linkage_name of
        Some l \<Rightarrow> sym_name p = l
      | None \<Rightarrow> SYMBOL_MATCHES_SEARCH_NAME E p name)"

text \<open>The loop after the binary search: the run of symbols with the right name.\<close>

fun psym_name_run ::
  "ext \<Rightarrow> string \<Rightarrow> string option \<Rightarrow> domain_enum \<Rightarrow> symbol list \<Rightarrow> symbol option" where
  "psym_name_run E name linkage_name domain [] = None"
| "psym_name_run E name linkage_name domain (p # ps) =
     (if psym_name_ok E name linkage_name p then
        (if symbol_matches_domain (sym_language p) (sym_domain p) domain then Some p
         else psym_name_run E name linkage_name domain ps)
      else None)"

fun psym_linear_search ::
  "ext \<Rightarrow> string \<Rightarrow> string option \<Rightarrow> domain_enum \<Rightarrow> symbol list \<Rightarrow> symbol option" where
  "psym_linear_search E name linkage_name domain [] = None"
| "psym_linear_search E name linkage_name domain (p # ps) =
     (if symbol_matches_domain (sym_language p) (sym_domain p) domain
         \<and> psym_name_ok E name linkage_name p
      then Some p
      else psym_linear_search E name linkage_name domain ps)"

definition lookup_partial_symbol ::
  "ext \<Rightarrow> partial_symtab \<Rightarrow> string \<Rightarrow> string option \<Rightarrow> bool \<Rightarrow> domain_enum
   \<Rightarrow> error + symbol option" where
  "lookup_partial_symbol E pst name linkage_name global domain =
     (let start = (if global then pst_globals pst else pst_statics pst) in
      if length start = 0 then Inr None
      else if global then
        (case psym_binary_search E start name 0 (length start - 1) False of
           Inl e \<Rightarrow> Inl e
         | Inr (top_i, do_linear_search) \<Rightarrow>
             (case psym_name_run E name linkage_name domain (drop top_i start) of
                Some p \<Rightarrow> Inr (Some p)
              | None \<Rightarrow>
                  if do_linear_search
                  then Inr (psym_linear_search E name linkage_name domain start)
                  else Inr None))
      else Inr (psym_linear_search E name linkage_name domain start))"

text \<open>
  Modelled from the spec: \<open>PSYMTAB_TO_SYMTAB\<close> is a macro of \<open>symtab.h\<close> over
  \<open>psymtab_to_symtab\<close> of \<open>symfile.c\<close>. It converts a Compact Index into a Full Table by
  calling the debug-format reader; called on an index that is already expanded it returns
  the existing Full Table and does not parse again. The expansion is one step from
  unexpanded to expanded: the partial symtab is marked read in and keeps its symtab, which
  joins the symtabs of its objfile.
\<close>

definition PSYMTAB_TO_SYMTAB :: "ext \<Rightarrow> catalog \<Rightarrow> nat \<Rightarrow> nat \<Rightarrow> symtab \<times> catalog" where
  "PSYMTAB_TO_SYMTAB E cat i j =
     (let obj = cat ! i; pst = psymtabs obj ! j in
      case pst_symtab pst of
        Some s \<Rightarrow> (s, cat)
      | None \<Rightarrow>
          (let s = read_symtab E pst in
           (s, cat[i := obj\<lparr>psymtabs := (psymtabs obj)[j := pst\<lparr>readin := True, pst_symtab := Some s\<rparr>],
                            symtabs := s # symtabs obj\<rparr>])))"

definition BLOCKVECTOR_BLOCK :: "blockvector \<Rightarrow> block_index \<Rightarrow> block" where
  "BLOCKVECTOR_BLOCK bv i = (case i of GLOBAL_BLOCK \<Rightarrow> bv_global bv | STATIC_BLOCK \<Rightarrow> bv_static bv)"

text \<open>The iteration macros of \<open>objfiles.h\<close>, as the lists they run through.\<close>

definition ALL_SYMTABS :: "catalog \<Rightarrow> symtab list" where
  "ALL_SYMTABS cat = concat (map symtabs cat)"

definition ALL_PRIMARY_SYMTABS :: "catalog \<Rightarrow> symtab list" where
  "ALL_PRIMARY_SYMTABS cat = filter st_primary (ALL_SYMTABS cat)"

definition ALL_OBJFILE_PSYMTABS :: "catalog \<Rightarrow> nat \<Rightarrow> (nat \<times> nat) list" where
  "ALL_OBJFILE_PSYMTABS cat i = map (\<lambda>j. (i, j)) [0..<length (psymtabs (cat ! i))]"

definition ALL_PSYMTABS :: "catalog \<Rightarrow> (nat \<times> nat) list" where
  "ALL_PSYMTABS cat = concat (map (ALL_OBJFILE_PSYMTABS cat) [0..<length cat])"

definition psymtab_at :: "catalog \<Rightarrow> nat \<times> nat \<Rightarrow> partial_symtab" where
  "psymtab_at cat ij = psymtabs (cat ! fst ij) ! snd ij"

section \<open>The non-local passes of name lookup\<close>

fun symtabs_loop ::
  "ext \<Rightarrow> block_index \<Rightarrow> string \<Rightarrow> string option \<Rightarrow> domain_enum \<Rightarrow> symtab list
   \<Rightarrow> symbol option" where
  "symtabs_loop E block_index name linkage_name domain [] = None"
| "symtabs_loop E block_index name linkage_name domain (s # ss) =
     (case lookup_block_symbol E (BLOCKVECTOR_BLOCK (BLOCKVECTOR s) block_index)
             name linkage_name domain of
        Some found \<Rightarrow> Some found
      | None \<Rightarrow> symtabs_loop E block_index name linkage_name domain ss)"

definition lookup_symbol_aux_symtabs ::
  "ext \<Rightarrow> catalog \<Rightarrow> block_index \<Rightarrow> string \<Rightarrow> string option \<Rightarrow> domain_enum
   \<Rightarrow> symbol option" where
  "lookup_symbol_aux_symtabs E cat block_index name linkage_name domain =
     symtabs_loop E block_index name linkage_name domain (ALL_PRIMARY_SYMTABS cat)"

text \<open>
  What \<open>lookup_symbol_aux_psymtabs\<close> does with a partial symtab that is not read in and
  holds the name: it expands it, looks the name up in the block it asked for, then in the
  other one, and reports an error when the symbol is in neither.
\<close>

definition other_block :: "block_index \<Rightarrow> block_index" where
  "other_block block_index = (if block_index = GLOBAL_BLOCK then STATIC_BLOCK else GLOBAL_BLOCK)"

definition psymtab_found ::
  "ext \<Rightarrow> catalog \<Rightarrow> block_index \<Rightarrow> string \<Rightarrow> string option \<Rightarrow> domain_enum \<Rightarrow> nat \<times> nat
   \<Rightarrow> (error + symbol option) \<times> catalog" where
  "psymtab_found E cat block_index name linkage_name domain ij =
     (let (s, cat') = PSYMTAB_TO_SYMTAB E cat (fst ij) (snd ij);
          bv = BLOCKVECTOR s in
      case lookup_block_symbol E (BLOCKVECTOR_BLOCK bv block_index) name linkage_name domain of
        Some found \<Rightarrow> (Inr (Some found), cat')
      | None \<Rightarrow>
          (case lookup_block_symbol E (BLOCKVECTOR_BLOCK bv (other_block block_index))
                  name linkage_name domain of
             Some found \<Rightarrow> (Inr (Some found), cat')
           | None \<Rightarrow>
               (Inl (Psymtab_Not_In_Symtab block_index name (pst_filename (psymtab_at cat ij))),
                cat')))"

fun psymtabs_loop ::
  "ext \<Rightarrow> catalog \<Rightarrow> block_index \<Rightarrow> string \<Rightarrow> string option \<Rightarrow> domain_enum
   \<Rightarrow> (nat \<times> nat) list \<Rightarrow> (error + symbol option) \<times> catalog" where
  "psymtabs_loop E cat block_index name linkage_name domain [] = (Inr None, cat)"
| "psymtabs_loop E cat block_index name linkage_name domain (ij # rest) =
     (if readin (psymtab_at cat ij)
      then psymtabs_loop E cat block_index name linkage_name domain rest
      else
        (case lookup_partial_symbol E (psymtab_at cat ij) name linkage_name
                (block_index = GLOBAL_BLOCK) domain of
           Inl e \<Rightarrow> (Inl e, cat)
         | Inr None \<Rightarrow> psymtabs_loop E cat block_index name linkage_name domain rest
         | Inr (Some p) \<Rightarrow> psymtab_found E cat block_index name linkage_name domain ij))"

definition lookup_symbol_aux_psymtabs ::
  "ext \<Rightarrow> catalog \<Rightarrow> block_index \<Rightarrow> string \<Rightarrow> string option \<Rightarrow> domain_enum
   \<Rightarrow> (error + symbol option) \<times> catalog" where
  "lookup_symbol_aux_psymtabs E cat block_index name linkage_name domain =
     psymtabs_loop E cat block_index name linkage_name domain (ALL_PSYMTABS cat)"

text \<open>\<open>lookup_symbol_static\<close>: the static block of the context block, when there is one.\<close>

definition lookup_symbol_static ::
  "ext \<Rightarrow> string \<Rightarrow> string option \<Rightarrow> block option \<Rightarrow> domain_enum \<Rightarrow> symbol option" where
  "lookup_symbol_static E name linkage_name block domain =
     (case block_static_block block of
        Some static_block \<Rightarrow> lookup_symbol_aux_block E name linkage_name static_block domain
      | None \<Rightarrow> None)"

text \<open>
  \<open>lookup_objfile_from_block\<close>: the first objfile with a symtab whose global block is the
  global block of the context block. The two pointers to blocks are compared, that is the
  \<open>BLOCK_ID\<close> of the blocks. The result is the position of the objfile.
\<close>

fun objfile_with_global_block :: "block \<Rightarrow> nat \<Rightarrow> objfile list \<Rightarrow> nat option" where
  "objfile_with_global_block g i [] = None"
| "objfile_with_global_block g i (obj # objs) =
     (if \<exists>s \<in> set (symtabs obj).
           BLOCK_ID g = BLOCK_ID (BLOCKVECTOR_BLOCK (BLOCKVECTOR s) GLOBAL_BLOCK)
      then Some i
      else objfile_with_global_block g (Suc i) objs)"

definition lookup_objfile_from_block :: "catalog \<Rightarrow> block option \<Rightarrow> nat option" where
  "lookup_objfile_from_block cat block =
     (case block of
        None \<Rightarrow> None
      | Some b \<Rightarrow> objfile_with_global_block (block_global_block b) 0 cat)"

definition lookup_symbol_global ::
  "ext \<Rightarrow> catalog \<Rightarrow> string \<Rightarrow> string option \<Rightarrow> block option \<Rightarrow> domain_enum
   \<Rightarrow> (error + symbol option) \<times> catalog" where
  "lookup_symbol_global E cat name linkage_name block domain =
     (case (case lookup_objfile_from_block cat block of
              Some objfile \<Rightarrow> solib_global_lookup E objfile name linkage_name domain
            | None \<Rightarrow> None) of
        Some found \<Rightarrow> (Inr (Some found), cat)
      | None \<Rightarrow>
          (case lookup_symbol_aux_symtabs E cat GLOBAL_BLOCK name linkage_name domain of
             Some found \<Rightarrow> (Inr (Some found), cat)
           | None \<Rightarrow> lookup_symbol_aux_psymtabs E cat GLOBAL_BLOCK name linkage_name domain))"

definition basic_lookup_symbol_nonlocal ::
  "ext \<Rightarrow> catalog \<Rightarrow> string \<Rightarrow> string option \<Rightarrow> block option \<Rightarrow> domain_enum
   \<Rightarrow> (error + symbol option) \<times> catalog" where
  "basic_lookup_symbol_nonlocal E cat name linkage_name block domain =
     (case lookup_symbol_static E name linkage_name block domain of
        Some found \<Rightarrow> (Inr (Some found), cat)
      | None \<Rightarrow> lookup_symbol_global E cat name linkage_name block domain)"

text \<open>
  The loop of \<open>lookup_symbol_aux\<close> that finds the enclosing function's block:
  \<open>for (; block && !BLOCK_FUNCTION (block); block = BLOCK_SUPERBLOCK (block));\<close>
\<close>

fun function_block_loop :: "block option \<Rightarrow> block option" where
  "function_block_loop None = None"
| "function_block_loop (Some (Block n s e f dct super)) =
     (if f \<noteq> None then Some (Block n s e f dct super) else function_block_loop super)"

text \<open>
  The type in which \<open>lookup_symbol_aux\<close> looks for a field: the type of \<open>this\<close> after
  \<open>CHECK_TYPEDEF\<close>, and its target when that is a pointer or a reference.
\<close>

definition receiver_type :: "ext \<Rightarrow> symbol \<Rightarrow> gdb_type" where
  "receiver_type E this_sym =
     (case check_typedef E (sym_type this_sym) of
        Type_Ptr t \<Rightarrow> t
      | Type_Ref t \<Rightarrow> t
      | t \<Rightarrow> t)"

text \<open>
  The body of \<open>if (langdef->la_name_of_this != NULL && ...)\<close>, given the name of \<open>this\<close> and
  the enclosing function's block: whether the name is a field of \<open>this\<close>.
\<close>

definition field_of_this_check ::
  "ext \<Rightarrow> string \<Rightarrow> block option \<Rightarrow> string \<Rightarrow> error + bool" where
  "field_of_this_check E name_of_this block name =
     (case (case block of
              Some b \<Rightarrow>
                if BLOCK_DICT b \<noteq> [] then lookup_block_symbol E b name_of_this None VAR_DOMAIN
                else None
            | None \<Rightarrow> None) of
        None \<Rightarrow> Inr False
      | Some this_sym \<Rightarrow>
          (let t = receiver_type E this_sym in
           if TYPE_CODE t \<noteq> TYPE_CODE_STRUCT \<and> TYPE_CODE t \<noteq> TYPE_CODE_UNION
           then Inl (Not_An_Aggregate name_of_this)
           else Inr (check_field E t name)))"

text \<open>
  \<open>lookup_symbol_aux\<close>. \<open>is_a_field_of_this\<close> is \<open>None\<close> for a null pointer and \<open>Some v\<close> for a
  pointer to an \<open>int\<close> that holds \<open>v\<close>; the result gives the outcome (an error, or the
  symbol or null), what the \<open>int\<close> holds afterwards, and the catalog. \<open>nonlocal\<close> is
  \<open>la_lookup_symbol_nonlocal\<close> of the language; it is called with the block as the search
  for \<open>this\<close> left it.
\<close>

definition lookup_symbol_aux ::
  "ext
   \<Rightarrow> (language \<Rightarrow> catalog \<Rightarrow> string \<Rightarrow> string option \<Rightarrow> block option \<Rightarrow> domain_enum
       \<Rightarrow> (error + symbol option) \<times> catalog)
   \<Rightarrow> catalog \<Rightarrow> string \<Rightarrow> string option \<Rightarrow> block option \<Rightarrow> domain_enum \<Rightarrow> language
   \<Rightarrow> int option \<Rightarrow> (error + symbol option) \<times> int option \<times> catalog" where
  "lookup_symbol_aux E nonlocal cat name linkage_name block domain lang is_a_field_of_this =
     (let flag0 = (case is_a_field_of_this of None \<Rightarrow> None | Some v \<Rightarrow> Some 0) in
      case lookup_symbol_aux_local E name linkage_name block domain of
        Some found \<Rightarrow> (Inr (Some found), flag0, cat)
      | None \<Rightarrow>
          (let look_for_this =
                 (la_name_of_this E lang \<noteq> None \<and> is_a_field_of_this \<noteq> None \<and> block \<noteq> None);
               block' = (if look_for_this then function_block_loop block else block)
           in
           case (case la_name_of_this E lang of
                   Some name_of_this \<Rightarrow>
                     if look_for_this then field_of_this_check E name_of_this block' name
                     else Inr False
                 | None \<Rightarrow> Inr False) of
             Inl e \<Rightarrow> (Inl e, flag0, cat)
           | Inr True \<Rightarrow> (Inr None, Some 1, cat)
           | Inr False \<Rightarrow>
               (case nonlocal lang cat name linkage_name block' domain of
                  (Inl e, cat1) \<Rightarrow> (Inl e, flag0, cat1)
                | (Inr (Some found), cat1) \<Rightarrow> (Inr (Some found), flag0, cat1)
                | (Inr None, cat1) \<Rightarrow>
                    (case lookup_symbol_aux_symtabs E cat1 STATIC_BLOCK name linkage_name domain of
                       Some found \<Rightarrow> (Inr (Some found), flag0, cat1)
                     | None \<Rightarrow>
                         (case lookup_symbol_aux_psymtabs E cat1 STATIC_BLOCK name linkage_name
                                 domain of
                            (r, cat2) \<Rightarrow> (r, flag0, cat2))))))"

text \<open>The first result that a function gives along a list.\<close>

fun first_some :: "('a \<Rightarrow> 'b option) \<Rightarrow> 'a list \<Rightarrow> 'b option" where
  "first_some f [] = None"
| "first_some f (x # xs) = (case f x of Some y \<Rightarrow> Some y | None \<Rightarrow> first_some f xs)"

section \<open>What a lookup can see\<close>

text \<open>
  The Full Table of a partial symtab: the one it has, or the one the reader makes of it.
  The tables of a catalog are its symtabs and the Full Tables of its partial symtabs, and
  its file-level blocks are the global and static blocks of these tables.
\<close>

definition full_table_of :: "ext \<Rightarrow> partial_symtab \<Rightarrow> symtab" where
  "full_table_of E pst = (case pst_symtab pst of Some s \<Rightarrow> s | None \<Rightarrow> read_symtab E pst)"

definition catalog_tables :: "ext \<Rightarrow> catalog \<Rightarrow> symtab list" where
  "catalog_tables E cat =
     ALL_SYMTABS cat @ map (\<lambda>ij. full_table_of E (psymtab_at cat ij)) (ALL_PSYMTABS cat)"

definition file_level_blocks :: "ext \<Rightarrow> catalog \<Rightarrow> block list" where
  "file_level_blocks E cat =
     concat (map (\<lambda>t. [bv_global (BLOCKVECTOR t), bv_static (BLOCKVECTOR t)]) (catalog_tables E cat))"

text \<open>The chain of enclosing blocks of a context block, and a block with no symbol of a name.\<close>

definition chain_of :: "block option \<Rightarrow> block list" where
  "chain_of block = (case block of None \<Rightarrow> [] | Some b \<Rightarrow> block_chain b)"

definition name_absent :: "ext \<Rightarrow> string \<Rightarrow> block \<Rightarrow> bool" where
  "name_absent E name b = (dict_iter_name E (BLOCK_DICT b) name = [])"

section \<open>Transparent types\<close>

text \<open>
  The loops of \<open>basic_lookup_transparent_type\<close> over the symtabs: the type of the first
  symbol of the name in the struct domain whose type is not opaque.
\<close>

fun transparent_symtabs_loop ::
  "ext \<Rightarrow> block_index \<Rightarrow> string \<Rightarrow> symtab list \<Rightarrow> gdb_type option" where
  "transparent_symtabs_loop E block_index name [] = None"
| "transparent_symtabs_loop E block_index name (s # ss) =
     (case lookup_block_symbol E (BLOCKVECTOR_BLOCK (BLOCKVECTOR s) block_index) name None
             STRUCT_DOMAIN of
        Some found \<Rightarrow>
          if \<not> TYPE_IS_OPAQUE E (sym_type found) then Some (sym_type found)
          else transparent_symtabs_loop E block_index name ss
      | None \<Rightarrow> transparent_symtabs_loop E block_index name ss)"

text \<open>
  Its loops over the partial symtabs. A partial symtab that is not read in and holds the
  name is expanded; the symbol is looked up in the block asked for, then in the other one,
  and it is an error when it is in neither. A symbol with an opaque type is passed over,
  and the loop goes on with the catalog as the expansion left it.
\<close>

fun transparent_psymtabs_loop ::
  "ext \<Rightarrow> catalog \<Rightarrow> block_index \<Rightarrow> string \<Rightarrow> (nat \<times> nat) list
   \<Rightarrow> (error + gdb_type option) \<times> catalog" where
  "transparent_psymtabs_loop E cat block_index name [] = (Inr None, cat)"
| "transparent_psymtabs_loop E cat block_index name (ij # rest) =
     (if readin (psymtab_at cat ij) then transparent_psymtabs_loop E cat block_index name rest
      else
        (case lookup_partial_symbol E (psymtab_at cat ij) name None (block_index = GLOBAL_BLOCK)
                STRUCT_DOMAIN of
           Inl e \<Rightarrow> (Inl e, cat)
         | Inr None \<Rightarrow> transparent_psymtabs_loop E cat block_index name rest
         | Inr (Some p) \<Rightarrow>
             (case PSYMTAB_TO_SYMTAB E cat (fst ij) (snd ij) of
                (s, cat') \<Rightarrow>
                  (case (case lookup_block_symbol E (BLOCKVECTOR_BLOCK (BLOCKVECTOR s) block_index)
                                 name None STRUCT_DOMAIN of
                           Some found \<Rightarrow> Some found
                         | None \<Rightarrow>
                             lookup_block_symbol E
                               (BLOCKVECTOR_BLOCK (BLOCKVECTOR s) (other_block block_index))
                               name None STRUCT_DOMAIN) of
                     None \<Rightarrow>
                       (Inl (Psymtab_Not_In_Symtab block_index name
                               (pst_filename (psymtab_at cat ij))), cat')
                   | Some found \<Rightarrow>
                       if \<not> TYPE_IS_OPAQUE E (sym_type found)
                       then (Inr (Some (sym_type found)), cat')
                       else transparent_psymtabs_loop E cat' block_index name rest))))"

definition basic_lookup_transparent_type ::
  "ext \<Rightarrow> catalog \<Rightarrow> string \<Rightarrow> (error + gdb_type option) \<times> catalog" where
  "basic_lookup_transparent_type E cat name =
     (case transparent_symtabs_loop E GLOBAL_BLOCK name (ALL_PRIMARY_SYMTABS cat) of
        Some t \<Rightarrow> (Inr (Some t), cat)
      | None \<Rightarrow>
          (case transparent_psymtabs_loop E cat GLOBAL_BLOCK name (ALL_PSYMTABS cat) of
             (Inl e, cat1) \<Rightarrow> (Inl e, cat1)
           | (Inr (Some t), cat1) \<Rightarrow> (Inr (Some t), cat1)
           | (Inr None, cat1) \<Rightarrow>
               (case transparent_symtabs_loop E STATIC_BLOCK name (ALL_PRIMARY_SYMTABS cat1) of
                  Some t \<Rightarrow> (Inr (Some t), cat1)
                | None \<Rightarrow>
                    transparent_psymtabs_loop E cat1 STATIC_BLOCK name (ALL_PSYMTABS cat1))))"

section \<open>The names of a symbol and the demangled-names table\<close>

text \<open>
  \<open>symbol_find_demangled_name\<close>: the demangled name, if any, and the symbol with the
  language the function leaves in it.
\<close>

definition symbol_find_demangled_name :: "ext \<Rightarrow> symbol \<Rightarrow> string \<Rightarrow> string option \<times> symbol" where
  "symbol_find_demangled_name E gsymbol mangled =
     (let g = (if sym_language gsymbol = language_unknown
               then gsymbol\<lparr>sym_language := language_auto\<rparr> else gsymbol)
      in
      case (if sym_language g = language_objc \<or> sym_language g = language_auto
            then objc_demangle E mangled else None) of
        Some demangled \<Rightarrow> (Some demangled, g\<lparr>sym_language := language_objc\<rparr>)
      | None \<Rightarrow>
          (case (if sym_language g = language_cplus \<or> sym_language g = language_auto
                 then cplus_demangle E mangled False else None) of
             Some demangled \<Rightarrow> (Some demangled, g\<lparr>sym_language := language_cplus\<rparr>)
           | None \<Rightarrow>
               (case (if sym_language g = language_java
                      then cplus_demangle E mangled True else None) of
                  Some demangled \<Rightarrow> (Some demangled, g\<lparr>sym_language := language_java\<rparr>)
                | None \<Rightarrow> (None, g))))"

definition JAVA_PREFIX :: string where
  "JAVA_PREFIX = ''##JAVA$$''"

text \<open>
  \<open>symbol_set_names\<close>. \<open>linkage_name\<close> is the \<open>len\<close> characters of the name. The table
  \<open>objfile->demangled_names_hash\<close> maps a lookup name to the demangled name stored after it
  in the entry, which is empty when there is none; the table is \<open>None\<close> before it is
  created. The result is the symbol and the table.
\<close>

definition symbol_set_names ::
  "ext \<Rightarrow> (string \<rightharpoonup> string) option \<Rightarrow> symbol \<Rightarrow> string
   \<Rightarrow> symbol \<times> (string \<rightharpoonup> string) option" where
  "symbol_set_names E demangled_names_hash gsymbol linkage_name =
     (let h = (case demangled_names_hash of None \<Rightarrow> Map.empty | Some h \<Rightarrow> h) in
      if sym_language gsymbol = language_ada
      then (gsymbol\<lparr>sym_name := linkage_name, sym_demangled := None\<rparr>, Some h)
      else
        (let lookup_name = (if sym_language gsymbol = language_java
                            then JAVA_PREFIX @ linkage_name else linkage_name)
         in
         case h lookup_name of
           None \<Rightarrow>
             (let (demangled_name, g) = symbol_find_demangled_name E gsymbol linkage_name;
                  entry = (case demangled_name of Some d \<Rightarrow> d | None \<Rightarrow> [])
              in (g\<lparr>sym_name := linkage_name,
                    sym_demangled := (if entry \<noteq> [] then Some entry else None)\<rparr>,
                  Some (h(lookup_name \<mapsto> entry))))
         | Some entry \<Rightarrow>
             (gsymbol\<lparr>sym_name := linkage_name,
                      sym_demangled := (if entry \<noteq> [] then Some entry else None)\<rparr>,
              Some h)))"

section \<open>From a source line to an address\<close>




text \<open>
  The first loop of \<open>find_line_symtab\<close>: every partial symtab of the file name is expanded,
  in the order of \<open>ALL_PSYMTABS\<close>.
\<close>

fun expand_file_psymtabs :: "ext \<Rightarrow> string \<Rightarrow> catalog \<Rightarrow> (nat \<times> nat) list \<Rightarrow> catalog" where
  "expand_file_psymtabs E filename cat [] = cat"
| "expand_file_psymtabs E filename cat (ij # rest) =
     (if pst_filename (psymtab_at cat ij) \<noteq> filename
      then expand_file_psymtabs E filename cat rest
      else expand_file_psymtabs E filename (snd (PSYMTAB_TO_SYMTAB E cat (fst ij) (snd ij))) rest)"









section \<open>Expanded partial symtabs\<close>

text \<open>
  A position that names a partial symtab of the catalog, and a partial symtab that has
  its Full Table.
\<close>

definition valid_psymtab :: "catalog \<Rightarrow> nat \<times> nat \<Rightarrow> bool" where
  "valid_psymtab cat k = (fst k < length cat \<and> snd k < length (psymtabs (cat ! fst k)))"

definition expanded :: "catalog \<Rightarrow> nat \<times> nat \<Rightarrow> bool" where
  "expanded cat k = (pst_symtab (psymtab_at cat k) \<noteq> None)"

section \<open>From an address to a partial symtab\<close>

text \<open>
  \<open>matching_obj_sections\<close>. Two sections are compared as pointers to their BFD sections,
  here as the values with their numbers; the \<open>gdb_assert\<close> that an objfile owns the first
  section is an error when it fails.
\<close>

definition matching_obj_sections ::
  "ext \<Rightarrow> catalog \<Rightarrow> obj_section option \<Rightarrow> obj_section option \<Rightarrow> error + bool" where
  "matching_obj_sections E cat obj_first obj_second =
     (let first = (case obj_first of Some s \<Rightarrow> the_bfd_section s | None \<Rightarrow> None);
          second = (case obj_second of Some s \<Rightarrow> the_bfd_section s | None \<Rightarrow> None)
      in
      if first = second then Inr True
      else
        (case (first, second) of
           (Some f, Some s) \<Rightarrow>
             (case (as_owner f, as_owner s) of
                (Some f_owner, Some s_owner) \<Rightarrow>
                  if f_owner = s_owner then Inr False
                  else if as_size f \<noteq> as_size s then Inr False
                  else if as_vma f - bfd_get_start_address E f_owner
                          \<noteq> as_vma s - bfd_get_start_address E s_owner then Inr False
                  else if as_name f = None \<or> as_name s = None \<or> as_name f \<noteq> as_name s
                  then Inr False
                  else
                    (case find (\<lambda>obj. obfd obj = f_owner) cat of
                       None \<Rightarrow> Inl Assertion_Failed
                     | Some obj \<Rightarrow>
                         if separate_debug_objfile obj = Some s_owner then Inr True
                         else if separate_debug_objfile_backlink obj = Some s_owner then Inr True
                         else Inr False)
              | _ \<Rightarrow> Inr False)
         | _ \<Rightarrow> Inr False))"

text \<open>
  One loop of \<open>find_pc_sect_psymbol\<close> over partial symbols, with \<open>best\<close> and \<open>best_pc\<close>.
\<close>

fun psymbol_loop ::
  "ext \<Rightarrow> catalog \<Rightarrow> partial_symtab \<Rightarrow> CORE_ADDR \<Rightarrow> obj_section option \<Rightarrow> symbol list
   \<Rightarrow> symbol option \<times> CORE_ADDR \<Rightarrow> error + (symbol option \<times> CORE_ADDR)" where
  "psymbol_loop E cat psymtab pc section [] st = Inr st"
| "psymbol_loop E cat psymtab pc section (p # ps) st =
     (if sym_domain p = VAR_DOMAIN \<and> sym_class p = LOC_BLOCK \<and> pc \<ge> sym_address p
         \<and> (sym_address p > snd st
             \<or> (textlow psymtab = 0 \<and> snd st = 0 \<and> sym_address p = 0))
      then
        (if section \<noteq> None then
           (case matching_obj_sections E cat (SYMBOL_OBJ_SECTION E p) section of
              Inl e \<Rightarrow> Inl e
            | Inr False \<Rightarrow> psymbol_loop E cat psymtab pc section ps st
            | Inr True \<Rightarrow> psymbol_loop E cat psymtab pc section ps (Some p, sym_address p))
         else psymbol_loop E cat psymtab pc section ps (Some p, sym_address p))
      else psymbol_loop E cat psymtab pc section ps st)"

text \<open>
  \<open>find_pc_sect_psymbol\<close> for a partial symtab that is given: the global partial symbols,
  then the static ones.
\<close>

definition find_pc_sect_psymbol_in ::
  "ext \<Rightarrow> catalog \<Rightarrow> partial_symtab \<Rightarrow> CORE_ADDR \<Rightarrow> obj_section option
   \<Rightarrow> error + symbol option" where
  "find_pc_sect_psymbol_in E cat psymtab pc section =
     (let best_pc = (if textlow psymtab \<noteq> 0 then textlow psymtab - 1 else 0) in
      case psymbol_loop E cat psymtab pc section (pst_globals psymtab) (None, best_pc) of
        Inl e \<Rightarrow> Inl e
      | Inr st \<Rightarrow>
          (case psymbol_loop E cat psymtab pc section (pst_statics psymtab) st of
             Inl e \<Rightarrow> Inl e
           | Inr (found, best_pc') \<Rightarrow> Inr found))"

text \<open>
  The loop of \<open>find_pc_sect_psymtab_closer\<close> over the partial symtabs of the objfile \<open>i\<close>
  from \<open>pst\<close> on (their positions are \<open>ts\<close>), with \<open>best_pst\<close> and \<open>best_addr\<close>.
\<close>

fun closer_loop ::
  "ext \<Rightarrow> catalog \<Rightarrow> CORE_ADDR \<Rightarrow> obj_section option \<Rightarrow> minimal_symbol \<Rightarrow> nat \<Rightarrow> nat list
   \<Rightarrow> nat \<Rightarrow> CORE_ADDR \<Rightarrow> error + nat" where
  "closer_loop E cat pc section msymbol i [] best_pst best_addr = Inr best_pst"
| "closer_loop E cat pc section msymbol i (t # ts) best_pst best_addr =
     (let tpst = psymtab_at cat (i, t) in
      if pc \<ge> textlow tpst \<and> pc < texthigh tpst then
        (case find_pc_sect_psymbol_in E cat tpst pc section of
           Inl e \<Rightarrow> Inl e
         | Inr p \<Rightarrow>
             if (case p of Some q \<Rightarrow> sym_address q = msym_address msymbol | None \<Rightarrow> False)
             then Inr t
             else
               (let this_addr = (case p of Some q \<Rightarrow> sym_address q | None \<Rightarrow> textlow tpst) in
                if this_addr > best_addr
                then closer_loop E cat pc section msymbol i ts t this_addr
                else closer_loop E cat pc section msymbol i ts best_pst best_addr))
      else closer_loop E cat pc section msymbol i ts best_pst best_addr)"

text \<open>
  \<open>find_pc_sect_psymtab_closer\<close> for the partial symtab at the position \<open>j\<close> of the objfile
  \<open>i\<close>; the result is a position in the same objfile.
\<close>

definition find_pc_sect_psymtab_closer ::
  "ext \<Rightarrow> catalog \<Rightarrow> CORE_ADDR \<Rightarrow> obj_section option \<Rightarrow> nat \<times> nat \<Rightarrow> minimal_symbol option
   \<Rightarrow> error + nat" where
  "find_pc_sect_psymtab_closer E cat pc section pst msymbol =
     (if \<not> OBJF_REORDERED (cat ! fst pst) \<and> section = None then Inr (snd pst)
      else
        (case msymbol of
           None \<Rightarrow> Inr (snd pst)
         | Some m \<Rightarrow>
             closer_loop E cat pc section m (fst pst)
               [snd pst..<length (psymtabs (cat ! fst pst))]
               (snd pst) (textlow (psymtab_at cat pst))))"

definition msymbol_is_data :: "minimal_symbol option \<Rightarrow> bool" where
  "msymbol_is_data msymbol =
     (case msymbol of
        Some m \<Rightarrow> msym_type m \<in> {mst_data, mst_bss, mst_abs, mst_file_data, mst_file_bss}
      | None \<Rightarrow> False)"

text \<open>The first loop of \<open>find_pc_sect_psymtab\<close>, over the objfiles with an addrmap.\<close>

fun addrmap_loop ::
  "ext \<Rightarrow> catalog \<Rightarrow> CORE_ADDR \<Rightarrow> obj_section option \<Rightarrow> minimal_symbol option \<Rightarrow> nat list
   \<Rightarrow> error + (nat \<times> nat) option" where
  "addrmap_loop E cat pc section msymbol [] = Inr None"
| "addrmap_loop E cat pc section msymbol (i # rest) =
     (case psymtabs_addrmap (cat ! i) of
        None \<Rightarrow> addrmap_loop E cat pc section msymbol rest
      | Some addrmap \<Rightarrow>
          (case addrmap pc of
             None \<Rightarrow> addrmap_loop E cat pc section msymbol rest
           | Some j \<Rightarrow>
               (case (if overlay_debugging E \<and> section \<noteq> None then msymbol else None) of
                  Some m \<Rightarrow>
                    (case find_pc_sect_psymbol_in E cat (psymtab_at cat (i, j)) pc section of
                       Inl e \<Rightarrow> Inl e
                     | Inr None \<Rightarrow> addrmap_loop E cat pc section msymbol rest
                     | Inr (Some p) \<Rightarrow>
                         if sym_address p \<noteq> msym_address m
                         then addrmap_loop E cat pc section msymbol rest
                         else Inr (Some (i, j)))
                | None \<Rightarrow> Inr (Some (i, j)))))"

text \<open>
  Its second loop, over all partial symtabs: the first whose range holds the address is
  handed to \<open>find_pc_sect_psymtab_closer\<close>, which never returns null.
\<close>

fun range_loop ::
  "ext \<Rightarrow> catalog \<Rightarrow> CORE_ADDR \<Rightarrow> obj_section option \<Rightarrow> minimal_symbol option
   \<Rightarrow> (nat \<times> nat) list \<Rightarrow> error + (nat \<times> nat) option" where
  "range_loop E cat pc section msymbol [] = Inr None"
| "range_loop E cat pc section msymbol (pst # rest) =
     (if pc \<ge> textlow (psymtab_at cat pst) \<and> pc < texthigh (psymtab_at cat pst) then
        (case find_pc_sect_psymtab_closer E cat pc section pst msymbol of
           Inl e \<Rightarrow> Inl e
         | Inr best_pst \<Rightarrow> Inr (Some (fst pst, best_pst)))
      else range_loop E cat pc section msymbol rest)"

definition find_pc_sect_psymtab ::
  "ext \<Rightarrow> catalog \<Rightarrow> CORE_ADDR \<Rightarrow> obj_section option \<Rightarrow> error + (nat \<times> nat) option" where
  "find_pc_sect_psymtab E cat pc section =
     (let msymbol = lookup_minimal_symbol_by_pc_section E pc section in
      if msymbol_is_data msymbol then Inr None
      else
        (case addrmap_loop E cat pc section msymbol [0..<length cat] of
           Inl e \<Rightarrow> Inl e
         | Inr (Some pst) \<Rightarrow> Inr (Some pst)
         | Inr None \<Rightarrow> range_loop E cat pc section msymbol (ALL_PSYMTABS cat)))"

text \<open>\<open>find_pc_sect_psymbol\<close>, which looks for the partial symtab when it is given none.\<close>

definition find_pc_sect_psymbol ::
  "ext \<Rightarrow> catalog \<Rightarrow> (nat \<times> nat) option \<Rightarrow> CORE_ADDR \<Rightarrow> obj_section option
   \<Rightarrow> error + symbol option" where
  "find_pc_sect_psymbol E cat psymtab pc section =
     (case (case psymtab of
              Some pst \<Rightarrow> Inr (Some pst)
            | None \<Rightarrow> find_pc_sect_psymtab E cat pc section) of
        Inl e \<Rightarrow> Inl e
      | Inr None \<Rightarrow> Inr None
      | Inr (Some pst) \<Rightarrow> find_pc_sect_psymbol_in E cat (psymtab_at cat pst) pc section)"

text \<open>
  Whether the range of a partial symtab holds an address, and the address that
  \<open>find_pc_sect_psymtab_closer\<close> takes for a partial symtab when no section is given: that
  of the partial symbol \<open>find_pc_sect_psymbol\<close> finds, or \<open>textlow\<close>.
\<close>

definition contains_pc :: "catalog \<Rightarrow> CORE_ADDR \<Rightarrow> nat \<times> nat \<Rightarrow> bool" where
  "contains_pc cat pc pst = (textlow (psymtab_at cat pst) \<le> pc \<and> pc < texthigh (psymtab_at cat pst))"

definition this_addr :: "ext \<Rightarrow> catalog \<Rightarrow> CORE_ADDR \<Rightarrow> nat \<times> nat \<Rightarrow> CORE_ADDR" where
  "this_addr E cat pc pst =
     (case find_pc_sect_psymbol_in E cat (psymtab_at cat pst) pc None of
        Inr (Some q) \<Rightarrow> sym_address q
      | _ \<Rightarrow> textlow (psymtab_at cat pst))"

definition psymbol_at_msymbol ::
  "ext \<Rightarrow> catalog \<Rightarrow> CORE_ADDR \<Rightarrow> minimal_symbol \<Rightarrow> nat \<times> nat \<Rightarrow> bool" where
  "psymbol_at_msymbol E cat pc m pst =
     (case find_pc_sect_psymbol_in E cat (psymtab_at cat pst) pc None of
        Inr (Some q) \<Rightarrow> sym_address q = msym_address m
      | _ \<Rightarrow> False)"

text \<open>The function partial symbols of a partial symtab.\<close>

definition function_psymbols :: "partial_symtab \<Rightarrow> symbol list" where
  "function_psymbols pst =
     filter (\<lambda>p. sym_domain p = VAR_DOMAIN \<and> sym_class p = LOC_BLOCK) (pst_globals pst @ pst_statics pst)"

text \<open>
  What holds of \<open>best\<close> and \<open>best_pc\<close> in \<open>find_pc_sect_psymbol\<close> (with no section) once the
  partial symbols \<open>seen\<close> have been gone through: either nothing is recorded and no
  function among them lies between \<open>textlow\<close> and the address, or the symbol recorded is
  one of them and no function among them at or below the address lies above it.
\<close>

definition psymbol_fn :: "symbol \<Rightarrow> bool" where
  "psymbol_fn p = (sym_domain p = VAR_DOMAIN \<and> sym_class p = LOC_BLOCK)"

definition psymbol_inv ::
  "partial_symtab \<Rightarrow> CORE_ADDR \<Rightarrow> symbol list \<Rightarrow> symbol option \<times> CORE_ADDR \<Rightarrow> bool" where
  "psymbol_inv pst pc seen st =
     (case fst st of
        None \<Rightarrow>
          snd st = (if textlow pst \<noteq> 0 then textlow pst - 1 else 0)
          \<and> (\<forall>q \<in> set seen. psymbol_fn q \<longrightarrow> \<not> (textlow pst \<le> sym_address q \<and> sym_address q \<le> pc))
      | Some p \<Rightarrow>
          p \<in> set seen \<and> psymbol_fn p \<and> snd st = sym_address p
          \<and> textlow pst \<le> sym_address p \<and> sym_address p \<le> pc
          \<and> (\<forall>q \<in> set seen. psymbol_fn q \<and> sym_address q \<le> pc \<longrightarrow> sym_address q \<le> sym_address p))"

section \<open>From an address to a symtab and a line\<close>

text \<open>
  A pointer to a symtab is kept with what \<open>->next\<close> reaches from it: the symtab followed by
  the symtabs after it in the list of its objfile. \<open>primary_positions\<close> are the positions
  (objfile, place in its list) that \<open>ALL_PRIMARY_SYMTABS\<close> runs through.
\<close>

definition symtab_at :: "catalog \<Rightarrow> nat \<times> nat \<Rightarrow> symtab" where
  "symtab_at cat ik = symtabs (cat ! fst ik) ! snd ik"

definition primary_positions :: "catalog \<Rightarrow> (nat \<times> nat) list" where
  "primary_positions cat =
     concat (map (\<lambda>i. map (\<lambda>k. (i, k))
                        (filter (\<lambda>k. st_primary (symtabs (cat ! i) ! k))
                           [0..<length (symtabs (cat ! i))]))
               [0..<length cat])"

definition symtab_chain :: "catalog \<Rightarrow> nat \<Rightarrow> symtab \<Rightarrow> symtab list" where
  "symtab_chain cat i s =
     (case dropWhile (\<lambda>t. t \<noteq> s) (symtabs (cat ! i)) of [] \<Rightarrow> [s] | c # cs \<Rightarrow> c # cs)"

text \<open>
  The loop of \<open>find_pc_sect_symtab\<close> over a block's symbols that looks for one in the
  section: whether there is one.
\<close>

fun section_symbol_loop ::
  "ext \<Rightarrow> catalog \<Rightarrow> obj_section option \<Rightarrow> symbol list \<Rightarrow> error + bool" where
  "section_symbol_loop E cat section [] = Inr False"
| "section_symbol_loop E cat section (s # ss) =
     (case matching_obj_sections E cat (SYMBOL_OBJ_SECTION E s) section of
        Inl e \<Rightarrow> Inl e
      | Inr True \<Rightarrow> Inr True
      | Inr False \<Rightarrow> section_symbol_loop E cat section ss)"

text \<open>
  The loop of \<open>find_pc_sect_symtab\<close> over the primary symtabs, with \<open>distance\<close> and \<open>best_s\<close>.
  It ends with an error, with the partial symtab that \<open>find_pc_sect_psymtab\<close> found for a
  reordered objfile (\<open>Inl\<close>), or with \<open>best_s\<close> (\<open>Inr\<close>).
\<close>

fun symtab_range_loop ::
  "ext \<Rightarrow> catalog \<Rightarrow> CORE_ADDR \<Rightarrow> obj_section option \<Rightarrow> (nat \<times> nat) list \<Rightarrow> CORE_ADDR
   \<Rightarrow> (nat \<times> nat) option \<Rightarrow> error + ((nat \<times> nat) + (nat \<times> nat) option)" where
  "symtab_range_loop E cat pc section [] distance best_s = Inr (Inr best_s)"
| "symtab_range_loop E cat pc section (ik # rest) distance best_s =
     (let b = BLOCKVECTOR_BLOCK (BLOCKVECTOR (symtab_at cat ik)) GLOBAL_BLOCK in
      if BLOCK_START b \<le> pc \<and> BLOCK_END b > pc
         \<and> (distance = 0 \<or> BLOCK_END b - BLOCK_START b < distance)
      then
        (case (if OBJF_REORDERED (cat ! fst ik) \<and> psymtabs (cat ! fst ik) \<noteq> []
               then find_pc_sect_psymtab E cat pc section else Inr None) of
           Inl e \<Rightarrow> Inl e
         | Inr (Some ps) \<Rightarrow> Inr (Inl ps)
         | Inr None \<Rightarrow>
             (case (if section \<noteq> None then section_symbol_loop E cat section (BLOCK_DICT b)
                    else Inr True) of
                Inl e \<Rightarrow> Inl e
              | Inr False \<Rightarrow> symtab_range_loop E cat pc section rest distance best_s
              | Inr True \<Rightarrow>
                  symtab_range_loop E cat pc section rest (BLOCK_END b - BLOCK_START b) (Some ik)))
      else symtab_range_loop E cat pc section rest distance best_s)"

text \<open>
  \<open>find_pc_sect_symtab\<close>: an error, or the symtab found (with the symtabs after it) or
  null, and the catalog. The warning for a partial symtab that is read in is not modelled.
\<close>

definition find_pc_sect_symtab ::
  "ext \<Rightarrow> catalog \<Rightarrow> CORE_ADDR \<Rightarrow> obj_section option
   \<Rightarrow> (error + symtab list option) \<times> catalog" where
  "find_pc_sect_symtab E cat pc section =
     (if msymbol_is_data (lookup_minimal_symbol_by_pc_section E pc section) then (Inr None, cat)
      else
        (case symtab_range_loop E cat pc section (primary_positions cat) 0 None of
           Inl e \<Rightarrow> (Inl e, cat)
         | Inr (Inl ps) \<Rightarrow>
             (case PSYMTAB_TO_SYMTAB E cat (fst ps) (snd ps) of
                (s, cat') \<Rightarrow> (Inr (Some (symtab_chain cat' (fst ps) s)), cat'))
         | Inr (Inr (Some ik)) \<Rightarrow> (Inr (Some (drop (snd ik) (symtabs (cat ! fst ik)))), cat)
         | Inr (Inr None) \<Rightarrow>
             (case find_pc_sect_psymtab E cat pc section of
                Inl e \<Rightarrow> (Inl e, cat)
              | Inr None \<Rightarrow> (Inr None, cat)
              | Inr (Some ps) \<Rightarrow>
                  (case PSYMTAB_TO_SYMTAB E cat (fst ps) (snd ps) of
                     (s, cat') \<Rightarrow> (Inr (Some (symtab_chain cat' (fst ps) s)), cat')))))"

definition find_pc_symtab ::
  "ext \<Rightarrow> catalog \<Rightarrow> CORE_ADDR \<Rightarrow> (error + symtab list option) \<times> catalog" where
  "find_pc_symtab E cat pc = find_pc_sect_symtab E cat pc (find_pc_mapped_section E pc)"

text \<open>\<open>struct symtab_and_line\<close>, without \<open>explicit_pc\<close> and \<open>explicit_line\<close>, which stay 0.\<close>

record symtab_and_line =
  sal_symtab :: "symtab option"
  sal_section :: "obj_section option"
  sal_line :: int
  sal_pc :: CORE_ADDR
  sal_end :: CORE_ADDR

definition init_sal :: symtab_and_line where
  "init_sal = \<lparr>sal_symtab = None, sal_section = None, sal_line = 0, sal_pc = 0, sal_end = 0\<rparr>"

text \<open>
  The inner loop of \<open>find_pc_sect_line\<close> over one line table: \<open>prev\<close>, the last entry before
  the first entry above the address, and that entry (\<open>item\<close> when \<open>i < len\<close>).
\<close>

fun prev_loop ::
  "CORE_ADDR \<Rightarrow> linetable_entry list \<Rightarrow> linetable_entry option
   \<Rightarrow> linetable_entry option \<times> linetable_entry option" where
  "prev_loop pc [] prev = (prev, None)"
| "prev_loop pc (item # items) prev =
     (if le_pc item > pc then (prev, Some item) else prev_loop pc items (Some item))"

text \<open>
  The variables of \<open>find_pc_sect_line\<close> that its loop over the symtabs updates: \<open>best\<close>,
  \<open>best_end\<close>, \<open>best_symtab\<close>, \<open>alt\<close> and \<open>alt_symtab\<close>.
\<close>

record line_scan =
  ls_best :: "linetable_entry option"
  ls_best_end :: CORE_ADDR
  ls_best_symtab :: "symtab option"
  ls_alt :: "linetable_entry option"
  ls_alt_symtab :: "symtab option"

text \<open>One round of that loop, for a symtab with a line table that is not empty.\<close>

definition line_scan_step ::
  "CORE_ADDR \<Rightarrow> symtab \<Rightarrow> linetable_entry list \<Rightarrow> line_scan \<Rightarrow> line_scan" where
  "line_scan_step pc s items st =
     (let first_item = hd items;
          st1 = (if le_pc first_item > pc
                    \<and> (case ls_alt st of None \<Rightarrow> True | Some a \<Rightarrow> le_pc first_item < le_pc a)
                 then st\<lparr>ls_alt := Some first_item, ls_alt_symtab := Some s\<rparr> else st);
          (prev, item) = prev_loop pc items None;
          st2 = (case prev of
                   Some p \<Rightarrow>
                     if le_line p \<noteq> 0
                        \<and> (case ls_best st1 of None \<Rightarrow> True | Some b \<Rightarrow> le_pc p > le_pc b)
                     then st1\<lparr>ls_best := Some p, ls_best_symtab := Some s,
                              ls_best_end := (if ls_best_end st1 \<le> le_pc p then 0
                                              else ls_best_end st1)\<rparr>
                     else st1
                 | None \<Rightarrow> st1)
      in
      case (ls_best st2, item) of
        (Some b, Some it) \<Rightarrow>
          if le_pc it > le_pc b \<and> (ls_best_end st2 = 0 \<or> ls_best_end st2 > le_pc it)
          then st2\<lparr>ls_best_end := le_pc it\<rparr> else st2
      | _ \<Rightarrow> st2)"

fun line_scan_loop :: "CORE_ADDR \<Rightarrow> symtab list \<Rightarrow> line_scan \<Rightarrow> line_scan" where
  "line_scan_loop pc [] st = st"
| "line_scan_loop pc (s # ss) st =
     (case LINETABLE s of
        None \<Rightarrow> line_scan_loop pc ss st
      | Some items \<Rightarrow>
          if length items \<le> 0 then line_scan_loop pc ss st
          else line_scan_loop pc ss (line_scan_step pc s items st))"

text \<open>
  What \<open>find_pc_sect_line\<close> returns once the symtab is found: the symtabs scanned are those
  from the one found on that share its blockvector.
\<close>

definition line_of_symtab ::
  "CORE_ADDR \<Rightarrow> obj_section option \<Rightarrow> symtab list \<Rightarrow> symtab_and_line" where
  "line_of_symtab pc section chain =
     (let bv = BLOCKVECTOR (hd chain);
          st = line_scan_loop pc (takeWhile (\<lambda>s. BLOCKVECTOR s = bv) chain)
                 \<lparr>ls_best = None, ls_best_end = 0, ls_best_symtab = None, ls_alt = None,
                  ls_alt_symtab = None\<rparr>
      in
      (case (ls_best_symtab st, ls_best st) of
         (Some bs, Some b) \<Rightarrow>
           if le_line b = 0 then init_sal\<lparr>sal_pc := pc\<rparr>
           else init_sal
                  \<lparr>sal_symtab := Some bs, sal_line := le_line b, sal_pc := le_pc b,
                   sal_end :=
                     (if ls_best_end st \<noteq> 0
                         \<and> (case ls_alt st of None \<Rightarrow> True | Some a \<Rightarrow> ls_best_end st < le_pc a)
                      then ls_best_end st
                      else (case ls_alt st of
                              Some a \<Rightarrow> le_pc a
                            | None \<Rightarrow> BLOCK_END (BLOCKVECTOR_BLOCK bv GLOBAL_BLOCK)))\<rparr>
       | _ \<Rightarrow> init_sal\<lparr>sal_pc := pc\<rparr>)
      \<lparr>sal_section := section\<rparr>)"

text \<open>
  The address of the real function when the address is in a trampoline to a function in a
  shared library whose text symbol is known and lies elsewhere.
\<close>

definition trampoline_target :: "ext \<Rightarrow> CORE_ADDR \<Rightarrow> CORE_ADDR option" where
  "trampoline_target E pc =
     (case lookup_minimal_symbol_by_pc E pc of
        None \<Rightarrow> None
      | Some msymbol \<Rightarrow>
          if msym_type msymbol = mst_solib_trampoline then
            (case lookup_minimal_symbol_text E (msym_name msymbol) of
               None \<Rightarrow> None
             | Some mfunsym \<Rightarrow>
                 if msym_address mfunsym = msym_address msymbol then None
                 else Some (msym_address mfunsym))
          else None)"

text \<open>
  \<open>find_pc_sect_line\<close>. From a trampoline it calls \<open>find_pc_line\<close>, which calls it again for
  the address of the real function; nothing in \<open>symtab.c\<close> bounds the number of these
  calls, so the function takes the number of calls it may make and returns \<open>None\<close> when
  they do not suffice.
\<close>

fun find_pc_sect_line ::
  "nat \<Rightarrow> ext \<Rightarrow> catalog \<Rightarrow> CORE_ADDR \<Rightarrow> obj_section option \<Rightarrow> bool
   \<Rightarrow> ((error + symtab_and_line) \<times> catalog) option" where
  "find_pc_sect_line 0 E cat pc section notcurrent = None"
| "find_pc_sect_line (Suc fuel) E cat pc section notcurrent =
     (let pc1 = (if notcurrent then pc - 1 else pc) in
      case trampoline_target E pc1 of
        Some addr \<Rightarrow>
          (let section' = find_pc_overlay E addr;
               pc' = (if pc_in_unmapped_range E addr section'
                      then overlay_mapped_address E addr section' else addr)
           in find_pc_sect_line fuel E cat pc' section' False)
      | None \<Rightarrow>
          (case find_pc_sect_symtab E cat pc1 section of
             (Inl e, cat') \<Rightarrow> Some (Inl e, cat')
           | (Inr None, cat') \<Rightarrow>
               Some (Inr (init_sal\<lparr>sal_pc := (if notcurrent then pc1 + 1 else pc1)\<rparr>), cat')
           | (Inr (Some chain), cat') \<Rightarrow> Some (Inr (line_of_symtab pc1 section chain), cat')))"

definition find_pc_line ::
  "nat \<Rightarrow> ext \<Rightarrow> catalog \<Rightarrow> CORE_ADDR \<Rightarrow> bool \<Rightarrow> ((error + symtab_and_line) \<times> catalog) option" where
  "find_pc_line fuel E cat pc notcurrent =
     (let section = find_pc_overlay E pc;
          pc' = (if pc_in_unmapped_range E pc section then overlay_mapped_address E pc section
                 else pc)
      in find_pc_sect_line fuel E cat pc' section notcurrent)"







section \<open>Searching the symbol tables\<close>

text \<open>
  \<open>tolower\<close>, \<open>isalpha\<close> and \<open>isalnum\<close> of the C locale, and \<open>strcmp\<close>, which compares two
  strings by their first different characters. A string holds no NUL character;
  \<open>char_at p i\<close> is \<open>p[i]\<close>, which is the terminating NUL at the end of the string.
\<close>

definition tolower :: "char \<Rightarrow> char" where
  "tolower c =
     (if 65 \<le> (of_char c :: nat) \<and> (of_char c :: nat) \<le> 90 then char_of (of_char c + 32 :: nat)
      else c)"

definition isalpha :: "char \<Rightarrow> bool" where
  "isalpha c =
     ((65 \<le> (of_char c :: nat) \<and> (of_char c :: nat) \<le> 90)
      \<or> (97 \<le> (of_char c :: nat) \<and> (of_char c :: nat) \<le> 122))"

definition isalnum :: "char \<Rightarrow> bool" where
  "isalnum c = (isalpha c \<or> (48 \<le> (of_char c :: nat) \<and> (of_char c :: nat) \<le> 57))"

fun strcmp :: "string \<Rightarrow> string \<Rightarrow> int" where
  "strcmp [] [] = 0"
| "strcmp [] (b # bs) = - int (of_char b)"
| "strcmp (a # as) [] = int (of_char a)"
| "strcmp (a # as) (b # bs) =
     (if a = b then strcmp as bs else int (of_char a) - int (of_char b))"

definition char_at :: "string \<Rightarrow> nat \<Rightarrow> char" where
  "char_at p i = (if i < length p then p ! i else CHR 0x00)"

text \<open>
  \<open>lookup_symbol_in_language\<close> and \<open>lookup_symbol\<close>. With \<open>case_sensitive_off\<close> the name
  looked up is the lower-case copy of \<open>name\<close>, also when \<open>name\<close> was demangled.
\<close>

definition lookup_symbol_in_language ::
  "ext
   \<Rightarrow> (language \<Rightarrow> catalog \<Rightarrow> string \<Rightarrow> string option \<Rightarrow> block option \<Rightarrow> domain_enum
       \<Rightarrow> (error + symbol option) \<times> catalog)
   \<Rightarrow> catalog \<Rightarrow> string \<Rightarrow> block option \<Rightarrow> domain_enum \<Rightarrow> language
   \<Rightarrow> int option \<Rightarrow> (error + symbol option) \<times> int option \<times> catalog" where
  "lookup_symbol_in_language E nonlocal cat name block domain lang is_a_field_of_this =
     (let demangled_name =
            (if lang = language_cplus then cplus_demangle E name False
             else if lang = language_java then cplus_demangle E name True
             else None);
          mangled_name = (case demangled_name of Some d \<Rightarrow> Some name | None \<Rightarrow> None);
          modified_name =
            (if case_sensitivity E = case_sensitive_off then map tolower name
             else case demangled_name of Some d \<Rightarrow> d | None \<Rightarrow> name)
      in lookup_symbol_aux E nonlocal cat modified_name mangled_name block domain lang
           is_a_field_of_this)"

definition lookup_symbol ::
  "ext
   \<Rightarrow> (language \<Rightarrow> catalog \<Rightarrow> string \<Rightarrow> string option \<Rightarrow> block option \<Rightarrow> domain_enum
       \<Rightarrow> (error + symbol option) \<times> catalog)
   \<Rightarrow> catalog \<Rightarrow> string \<Rightarrow> block option \<Rightarrow> domain_enum
   \<Rightarrow> int option \<Rightarrow> (error + symbol option) \<times> int option \<times> catalog" where
  "lookup_symbol E nonlocal cat name block domain is_a_field_of_this =
     lookup_symbol_in_language E nonlocal cat name block domain (current_language E)
       is_a_field_of_this"

text \<open>
  \<open>operator_chars\<close>: an error, or the operator text found in \<open>p\<close>, given by the positions
  in \<open>p\<close> of its beginning (the pointer returned) and of \<open>*end\<close>, or \<open>None\<close> when the
  empty string is returned. \<open>operator_switch\<close> is the final \<open>while\<close> loop, at the position
  \<open>i\<close> of \<open>p\<close> with the rest of the string from there.
\<close>

definition is_ident_start :: "char \<Rightarrow> bool" where
  "is_ident_start c = (isalpha c \<or> c = CHR ''_'' \<or> c = CHR ''$'')"

fun operator_switch :: "nat \<Rightarrow> string \<Rightarrow> error + (nat \<times> nat) option" where
  "operator_switch i [] = Inr None"
| "operator_switch i (c # cs) =
     (if c = CHR 0x5C then
        (if char_at cs 0 = CHR ''*'' then
           Inr (Some (i, if char_at cs 1 = CHR ''='' then i + 3 else i + 2))
         else if char_at cs 0 = CHR ''['' then
           (if char_at cs 1 = CHR '']'' then Inl Bad_Operator
            else if char_at cs 1 = CHR 0x5C \<and> char_at cs 2 = CHR '']'' then Inr (Some (i, i + 4))
            else Inl Bad_Operator)
         else operator_switch (i + 1) cs)
      else if c \<in> set ''!=*/%^'' then
        Inr (Some (i, if char_at cs 0 = CHR ''='' then i + 2 else i + 1))
      else if c \<in> set ''<>+-&|'' then
        (if c = CHR ''-'' \<and> char_at cs 0 = CHR ''>'' then
           Inr (Some (i, if char_at cs 1 = CHR ''*'' then i + 3
                         else if char_at cs 1 = CHR 0x5C then i + 4
                         else i + 2))
         else Inr (Some (i, if char_at cs 0 = CHR ''='' \<or> char_at cs 0 = c then i + 2 else i + 1)))
      else if c = CHR ''~'' \<or> c = CHR '','' then Inr (Some (i, i + 1))
      else if c = CHR ''('' then
        (if char_at cs 0 \<noteq> CHR '')'' then Inl Bad_Operator else Inr (Some (i, i + 2)))
      else if c = CHR ''?'' then
        (if char_at cs 0 \<noteq> CHR '':'' then Inl Bad_Operator else Inr (Some (i, i + 2)))
      else if c = CHR ''['' then
        (if char_at cs 0 \<noteq> CHR '']'' then Inl Bad_Operator else Inr (Some (i, i + 2)))
      else Inl Bad_Operator)"

definition operator_chars :: "string \<Rightarrow> error + (nat \<times> nat) option" where
  "operator_chars p =
     (if take 8 p \<noteq> ''operator'' then Inr None
      else if is_ident_start (char_at p 8) \<or> char_at p 8 = CHR 0x00 then Inr None
      else
        (let i = 8 + length (takeWhile (\<lambda>c. c = CHR '' '' \<or> c = CHR 0x09) (drop 8 p)) in
         if is_ident_start (char_at p i) then
           Inr (Some (i, i + 1 + length (takeWhile (\<lambda>c. isalnum c \<or> c = CHR ''_'' \<or> c = CHR ''$'')
                                           (drop (i + 1) p))))
         else operator_switch i (drop i p)))"

text \<open>
  The beginning of \<open>search_symbols\<close>: the spacing after \<open>operator\<close> in the regular
  expression is put right (\<open>fix\<close> is \<open>None\<close> for -1), and the expression is compiled. The
  result is the expression that \<open>re_exec\<close> will match against, if there is one.
\<close>

definition fix_operator_spacing :: "string \<Rightarrow> nat \<Rightarrow> string" where
  "fix_operator_spacing regexp i =
     (let opname = drop i regexp;
          fix = (if is_ident_start (char_at regexp i) then
                   (if char_at regexp (i - 1) \<noteq> CHR '' '' \<or> char_at regexp (i - 2) = CHR '' ''
                    then Some (1 :: nat) else None)
                 else (if char_at regexp (i - 1) = CHR '' '' then Some 0 else None))
      in case fix of None \<Rightarrow> regexp | Some n \<Rightarrow> ''operator'' @ take n '' '' @ opname)"

definition search_regexp :: "ext \<Rightarrow> string option \<Rightarrow> error + string option" where
  "search_regexp E regexp =
     (case regexp of
        None \<Rightarrow> Inr None
      | Some r \<Rightarrow>
          (case operator_chars r of
             Inl e \<Rightarrow> Inl e
           | Inr oc \<Rightarrow>
               (let r' = (case oc of None \<Rightarrow> r | Some (opname, opend) \<Rightarrow> fix_operator_spacing r opname)
                in if re_comp E r' then Inr (Some r') else Inl Invalid_Regexp)))"

text \<open>\<open>file_matches\<close>; \<open>file\<close> is \<open>None\<close> for a null pointer and \<open>nfiles\<close> is the length of \<open>files\<close>.\<close>

definition file_matches :: "ext \<Rightarrow> string option \<Rightarrow> string list \<Rightarrow> bool" where
  "file_matches E file files =
     (case file of
        Some f \<Rightarrow>
          if files \<noteq> [] then list_ex (\<lambda>g. strcmp g (lbasename E f) = 0) files else True
      | None \<Rightarrow> files = [])"

text \<open>
  The tests that \<open>search_symbols\<close> repeats in its loops: the name against the regular
  expression, the class of a partial symbol and of a symbol against the kind searched, and
  the type of a minimal symbol against \<open>ourtype\<close> to \<open>ourtype4\<close>.
\<close>

definition search_name_ok :: "ext \<Rightarrow> string option \<Rightarrow> string \<Rightarrow> bool" where
  "search_name_ok E regexp n = (case regexp of None \<Rightarrow> True | Some r \<Rightarrow> re_exec E r n)"

definition psymbol_kind_ok :: "domain_enum \<Rightarrow> address_class \<Rightarrow> bool" where
  "psymbol_kind_ok kind c =
     ((kind = VARIABLES_DOMAIN \<and> c \<noteq> LOC_TYPEDEF \<and> c \<noteq> LOC_BLOCK)
      \<or> (kind = FUNCTIONS_DOMAIN \<and> c = LOC_BLOCK)
      \<or> (kind = TYPES_DOMAIN \<and> c = LOC_TYPEDEF)
      \<or> (kind = METHODS_DOMAIN \<and> c = LOC_BLOCK))"

definition symbol_kind_ok :: "domain_enum \<Rightarrow> address_class \<Rightarrow> bool" where
  "symbol_kind_ok kind c =
     ((kind = VARIABLES_DOMAIN \<and> c \<noteq> LOC_TYPEDEF \<and> c \<noteq> LOC_BLOCK \<and> c \<noteq> LOC_CONST)
      \<or> (kind = FUNCTIONS_DOMAIN \<and> c = LOC_BLOCK)
      \<or> (kind = TYPES_DOMAIN \<and> c = LOC_TYPEDEF)
      \<or> (kind = METHODS_DOMAIN \<and> c = LOC_BLOCK))"

definition ourtypes :: "domain_enum \<Rightarrow> minimal_symbol_type list" where
  "ourtypes kind =
     (if kind = VARIABLES_DOMAIN then [mst_data, mst_bss, mst_file_data, mst_file_bss]
      else if kind = FUNCTIONS_DOMAIN then [mst_text, mst_file_text, mst_solib_trampoline, mst_text]
      else if kind = TYPES_DOMAIN then [mst_abs, mst_abs, mst_abs, mst_abs]
      else if kind = METHODS_DOMAIN then [mst_unknown, mst_unknown, mst_unknown, mst_unknown]
      else [])"

definition ALL_MSYMBOLS :: "catalog \<Rightarrow> minimal_symbol list" where
  "ALL_MSYMBOLS cat = concat (map msymbols cat)"

text \<open>
  \<open>struct symbol_search\<close>, without \<open>next\<close>: the result of a search is the list of them.
  \<open>ss_symtab\<close> is the file name of the symtab.
\<close>

record symbol_search =
  ss_block :: nat
  ss_symtab :: "string option"
  ss_symbol :: "symbol option"
  ss_msymbol :: "minimal_symbol option"

text \<open>
  The first loop of \<open>search_symbols\<close>: a partial symtab that is not read in and has a
  partial symbol that would match, among its global ones and then its static ones, is
  expanded.
\<close>

fun search_psymtabs_loop ::
  "ext \<Rightarrow> string option \<Rightarrow> domain_enum \<Rightarrow> string list \<Rightarrow> catalog \<Rightarrow> (nat \<times> nat) list
   \<Rightarrow> catalog" where
  "search_psymtabs_loop E regexp kind files cat [] = cat"
| "search_psymtabs_loop E regexp kind files cat (ij # rest) =
     (let ps = psymtab_at cat ij in
      if readin ps then search_psymtabs_loop E regexp kind files cat rest
      else if list_ex (\<lambda>psym. file_matches E (Some (pst_filename ps)) files
                              \<and> search_name_ok E regexp (symbol_natural_name E psym)
                              \<and> psymbol_kind_ok kind (sym_class psym))
                (pst_globals ps @ pst_statics ps)
      then search_psymtabs_loop E regexp kind files
             (snd (PSYMTAB_TO_SYMTAB E cat (fst ij) (snd ij))) rest
      else search_psymtabs_loop E regexp kind files cat rest)"

text \<open>
  Whether \<open>lookup_symbol\<close> finds no symbol for the linkage name of a minimal symbol, as both
  loops over the minimal symbols ask.
\<close>

definition msymbol_without_symbol ::
  "ext
   \<Rightarrow> (language \<Rightarrow> catalog \<Rightarrow> string \<Rightarrow> string option \<Rightarrow> block option \<Rightarrow> domain_enum
       \<Rightarrow> (error + symbol option) \<times> catalog)
   \<Rightarrow> catalog \<Rightarrow> minimal_symbol \<Rightarrow> (error + bool) \<times> catalog" where
  "msymbol_without_symbol E nonlocal cat msymbol =
     (case lookup_symbol E nonlocal cat (msym_name msymbol) None VAR_DOMAIN None of
        (Inl e, flag, cat') \<Rightarrow> (Inl e, cat')
      | (Inr found, flag, cat') \<Rightarrow> (Inr (found = None), cat'))"

text \<open>
  The first loop over the minimal symbols, which forces the symbols of the matching ones to
  be read; it gives \<open>found_misc\<close>.
\<close>

fun search_msymbols_prepass ::
  "ext
   \<Rightarrow> (language \<Rightarrow> catalog \<Rightarrow> string \<Rightarrow> string option \<Rightarrow> block option \<Rightarrow> domain_enum
       \<Rightarrow> (error + symbol option) \<times> catalog)
   \<Rightarrow> string option \<Rightarrow> domain_enum \<Rightarrow> minimal_symbol list \<Rightarrow> bool \<Rightarrow> catalog
   \<Rightarrow> (error + bool) \<times> catalog" where
  "search_msymbols_prepass E nonlocal regexp kind [] found_misc cat = (Inr found_misc, cat)"
| "search_msymbols_prepass E nonlocal regexp kind (msymbol # rest) found_misc cat =
     (if msym_type msymbol \<in> set (ourtypes kind)
         \<and> search_name_ok E regexp (msym_natural_name msymbol)
      then
        (case find_pc_symtab E cat (msym_address msymbol) of
           (Inl e, cat1) \<Rightarrow> (Inl e, cat1)
         | (Inr (Some s), cat1) \<Rightarrow> search_msymbols_prepass E nonlocal regexp kind rest found_misc cat1
         | (Inr None, cat1) \<Rightarrow>
             if kind = FUNCTIONS_DOMAIN
             then search_msymbols_prepass E nonlocal regexp kind rest True cat1
             else
               (case msymbol_without_symbol E nonlocal cat1 msymbol of
                  (Inl e, cat2) \<Rightarrow> (Inl e, cat2)
                | (Inr w, cat2) \<Rightarrow>
                    search_msymbols_prepass E nonlocal regexp kind rest (w \<or> found_misc) cat2))
      else search_msymbols_prepass E nonlocal regexp kind rest found_misc cat)"

text \<open>
  \<open>compare_search_syms\<close> and \<open>sort_search_symbols\<close>, on the entries found in one block.
  \<open>qsort\<close> is the one of the C library; the order that it leaves among entries that compare
  equal is not specified, and the one of an insertion sort is taken.
  \<open>compare_search_syms\<close> is only called on entries for symbols.
\<close>

definition compare_search_syms :: "ext \<Rightarrow> symbol_search \<Rightarrow> symbol_search \<Rightarrow> int" where
  "compare_search_syms E sym_a sym_b =
     (case (ss_symbol sym_a, ss_symbol sym_b) of
        (Some a, Some b) \<Rightarrow> strcmp (SYMBOL_PRINT_NAME E a) (SYMBOL_PRINT_NAME E b)
      | _ \<Rightarrow> 0)"

fun qsort_insert :: "('a \<Rightarrow> 'a \<Rightarrow> int) \<Rightarrow> 'a \<Rightarrow> 'a list \<Rightarrow> 'a list" where
  "qsort_insert compar x [] = [x]"
| "qsort_insert compar x (y # ys) =
     (if compar x y \<le> 0 then x # y # ys else y # qsort_insert compar x ys)"

definition qsort :: "('a \<Rightarrow> 'a \<Rightarrow> int) \<Rightarrow> 'a list \<Rightarrow> 'a list" where
  "qsort compar xs = foldr (qsort_insert compar) xs []"

definition sort_search_symbols :: "ext \<Rightarrow> symbol_search list \<Rightarrow> symbol_search list" where
  "sort_search_symbols E found = qsort (compare_search_syms E) found"

text \<open>
  The loop of \<open>search_symbols\<close> over the primary symtabs: the entries for the matching
  symbols of one block, sorted, and those of the global and the static block of every
  primary symtab.
\<close>

definition block_number :: "block_index \<Rightarrow> nat" where
  "block_number i = (case i of GLOBAL_BLOCK \<Rightarrow> 0 | STATIC_BLOCK \<Rightarrow> 1)"

definition search_block ::
  "ext \<Rightarrow> string option \<Rightarrow> domain_enum \<Rightarrow> string list \<Rightarrow> symtab \<Rightarrow> block_index
   \<Rightarrow> symbol_search list" where
  "search_block E regexp kind files s i =
     sort_search_symbols E
       (map (\<lambda>found. \<lparr>ss_block = block_number i, ss_symtab = Some (sym_file found),
                      ss_symbol = Some found, ss_msymbol = None\<rparr>)
          (filter (\<lambda>found. file_matches E (Some (sym_file found)) files
                           \<and> search_name_ok E regexp (symbol_natural_name E found)
                           \<and> symbol_kind_ok kind (sym_class found))
             (BLOCK_DICT (BLOCKVECTOR_BLOCK (BLOCKVECTOR s) i))))"

definition search_symtabs ::
  "ext \<Rightarrow> string option \<Rightarrow> domain_enum \<Rightarrow> string list \<Rightarrow> catalog \<Rightarrow> symbol_search list" where
  "search_symtabs E regexp kind files cat =
     concat (map (\<lambda>s. search_block E regexp kind files s GLOBAL_BLOCK
                      @ search_block E regexp kind files s STATIC_BLOCK)
               (ALL_PRIMARY_SYMTABS cat))"

text \<open>
  The last loop of \<open>search_symbols\<close>, over the minimal symbols: the entries for those
  without a symbol. \<open>i\<close> is what the variable \<open>i\<close> holds after the loop over the symtabs.
\<close>

fun search_msymbols_pass ::
  "ext
   \<Rightarrow> (language \<Rightarrow> catalog \<Rightarrow> string \<Rightarrow> string option \<Rightarrow> block option \<Rightarrow> domain_enum
       \<Rightarrow> (error + symbol option) \<times> catalog)
   \<Rightarrow> string option \<Rightarrow> domain_enum \<Rightarrow> nat \<Rightarrow> minimal_symbol list \<Rightarrow> catalog
   \<Rightarrow> (error + symbol_search list) \<times> catalog" where
  "search_msymbols_pass E nonlocal regexp kind i [] cat = (Inr [], cat)"
| "search_msymbols_pass E nonlocal regexp kind i (msymbol # rest) cat =
     (if msym_type msymbol \<in> set (ourtypes kind)
         \<and> search_name_ok E regexp (msym_natural_name msymbol)
      then
        (case (if kind \<noteq> FUNCTIONS_DOMAIN then (Inr True, cat)
               else (case find_pc_symtab E cat (msym_address msymbol) of
                       (Inl e, cat1) \<Rightarrow> (Inl e, cat1)
                     | (Inr s, cat1) \<Rightarrow> (Inr (s = None), cat1))) of
           (Inl e, cat1) \<Rightarrow> (Inl e, cat1)
         | (Inr False, cat1) \<Rightarrow> search_msymbols_pass E nonlocal regexp kind i rest cat1
         | (Inr True, cat1) \<Rightarrow>
             (case msymbol_without_symbol E nonlocal cat1 msymbol of
                (Inl e, cat2) \<Rightarrow> (Inl e, cat2)
              | (Inr False, cat2) \<Rightarrow> search_msymbols_pass E nonlocal regexp kind i rest cat2
              | (Inr True, cat2) \<Rightarrow>
                  (case search_msymbols_pass E nonlocal regexp kind i rest cat2 of
                     (Inl e, cat3) \<Rightarrow> (Inl e, cat3)
                   | (Inr found, cat3) \<Rightarrow>
                       (Inr (\<lparr>ss_block = i, ss_symtab = None, ss_symbol = None,
                              ss_msymbol = Some msymbol\<rparr> # found), cat3))))
      else search_msymbols_pass E nonlocal regexp kind i rest cat)"

text \<open>
  \<open>search_symbols\<close>: an error, or the list \<open>*matches\<close>, and the catalog. \<open>regexp\<close> is \<open>None\<close>
  for a null pointer. \<open>QUIT\<close> is not modelled.
\<close>

definition search_symbols ::
  "ext
   \<Rightarrow> (language \<Rightarrow> catalog \<Rightarrow> string \<Rightarrow> string option \<Rightarrow> block option \<Rightarrow> domain_enum
       \<Rightarrow> (error + symbol option) \<times> catalog)
   \<Rightarrow> catalog \<Rightarrow> string option \<Rightarrow> domain_enum \<Rightarrow> string list
   \<Rightarrow> (error + symbol_search list) \<times> catalog" where
  "search_symbols E nonlocal cat regexp kind files =
     (if kind \<in> {UNDEF_DOMAIN, VAR_DOMAIN, STRUCT_DOMAIN, LABEL_DOMAIN}
      then (Inl Must_Search_Specific_Domain, cat)
      else
        (case search_regexp E regexp of
           Inl e \<Rightarrow> (Inl e, cat)
         | Inr re \<Rightarrow>
             (let cat1 = search_psymtabs_loop E re kind files cat (ALL_PSYMTABS cat) in
              case (if files = [] \<and> (kind = VARIABLES_DOMAIN \<or> kind = FUNCTIONS_DOMAIN)
                    then search_msymbols_prepass E nonlocal re kind (ALL_MSYMBOLS cat1) False cat1
                    else (Inr False, cat1)) of
                (Inl e, cat2) \<Rightarrow> (Inl e, cat2)
              | (Inr found_misc, cat2) \<Rightarrow>
                  (let sr = search_symtabs E re kind files cat2;
                       i = (if ALL_PRIMARY_SYMTABS cat2 = [] then 0 else 2)
                   in
                   if found_misc \<or> kind \<noteq> FUNCTIONS_DOMAIN then
                     (case search_msymbols_pass E nonlocal re kind i (ALL_MSYMBOLS cat2) cat2 of
                        (Inl e, cat3) \<Rightarrow> (Inl e, cat3)
                      | (Inr found, cat3) \<Rightarrow> (Inr (sr @ found), cat3))
                   else (Inr sr, cat2)))))"

section \<open>Example data\<close>

text \<open>
  A small program for the closed instances below: a file \<open>a.c\<close> with a global \<open>x\<close>, a
  static \<open>st\<close>, a function \<open>f\<close> with an argument \<open>x\<close>, locals \<open>y\<close> and \<open>x\<close> and a receiver
  \<open>this\<close> of a struct with the field \<open>m\<close>, and a function \<open>h\<close> with two arguments \<open>z\<close>.
  The example collaborators compare names as they are, know \<open>this\<close> for C++ and Java,
  read a partial symtab into a table that holds its partial symbols, know no minimal
  symbol and no overlay, and take a regular expression to match the name equal to it.
  The blocks of \<open>a.c\<close> have the \<open>BLOCK_ID\<close> 1 to 4, and the example readers give 10
  and 11 to the global and the static block they make.
\<close>

fun ex_strcmp :: "string \<Rightarrow> string \<Rightarrow> int" where
  "ex_strcmp [] [] = 0"
| "ex_strcmp [] (y # ys) = - 1"
| "ex_strcmp (x # xs) [] = 1"
| "ex_strcmp (x # xs) (y # ys) =
     (if (of_char x :: nat) < of_char y then - 1
      else if (of_char y :: nat) < of_char x then 1
      else ex_strcmp xs ys)"

fun ex_check_typedef :: "gdb_type \<Rightarrow> gdb_type" where
  "ex_check_typedef (Type_Typedef n t) = ex_check_typedef t"
| "ex_check_typedef t = t"

fun ex_check_field :: "gdb_type \<Rightarrow> string \<Rightarrow> bool" where
  "ex_check_field (Type_Struct n fs) name = (name \<in> set fs)"
| "ex_check_field (Type_Union n fs) name = (name \<in> set fs)"
| "ex_check_field t name = False"

fun ex_is_opaque :: "gdb_type \<Rightarrow> bool" where
  "ex_is_opaque (Type_Struct n fs) = (fs = [])"
| "ex_is_opaque (Type_Union n fs) = (fs = [])"
| "ex_is_opaque t = False"

definition ex_block :: "symbol list \<Rightarrow> block" where
  "ex_block dict = Block 0 0 0x100 None dict None"

definition ex_read_symtab :: "partial_symtab \<Rightarrow> symtab" where
  "ex_read_symtab pst =
     \<lparr>st_filename = pst_filename pst, LINETABLE = None,
      BLOCKVECTOR = \<lparr>bv_id = 0,
                     bv_global = Block 10 (textlow pst) (texthigh pst) None (pst_globals pst) None,
                     bv_static = Block 11 (textlow pst) (texthigh pst) None (pst_statics pst)
                                   (Some (Block 10 (textlow pst) (texthigh pst) None (pst_globals pst) None))\<rparr>,
      st_primary = True\<rparr>"

definition ex_ext :: ext where
  "ex_ext =
     \<lparr>strcmp_iw = (=),
      strcmp_iw_ordered = ex_strcmp,
      SYMBOL_OBJ_SECTION = (\<lambda>s. None),
      solib_global_lookup = (\<lambda>i n l d. None),
      ada_decode_symbol = sym_name,
      la_name_of_this = (\<lambda>l. if l = language_cplus \<or> l = language_java then Some ''this'' else None),
      check_typedef = ex_check_typedef,
      check_field = ex_check_field,
      TYPE_IS_OPAQUE = ex_is_opaque,
      objc_demangle = (\<lambda>m. None),
      cplus_demangle = (\<lambda>m j. if m = ''_Z1fv'' then Some ''f()'' else None),
      read_symtab = ex_read_symtab,
      lookup_minimal_symbol_by_pc_section = (\<lambda>pc section. None),
      lookup_minimal_symbol_by_pc = (\<lambda>pc. None),
      lookup_minimal_symbol_text = (\<lambda>n. None),
      overlay_debugging = False,
      bfd_get_start_address = (\<lambda>b. 0),
      find_pc_overlay = (\<lambda>pc. None),
      pc_in_unmapped_range = (\<lambda>pc section. False),
      overlay_mapped_address = (\<lambda>pc section. pc),
      find_pc_mapped_section = (\<lambda>pc. None),
      re_comp = (\<lambda>r. True),
      re_exec = (\<lambda>r n. r = n),
      lbasename = (\<lambda>f. f),
      SYMBOL_PRINT_NAME = sym_name,
      case_sensitivity = case_sensitive_on,
      current_language = language_c\<rparr>"

definition ex_sym :: "string \<Rightarrow> address_class \<Rightarrow> gdb_type \<Rightarrow> CORE_ADDR \<Rightarrow> symbol" where
  "ex_sym n c t a =
     \<lparr>sym_name = n, sym_demangled = None, sym_language = language_c, sym_domain = VAR_DOMAIN,
      sym_class = c, sym_is_argument = (c = LOC_ARG), sym_type = t, sym_address = a,
      sym_file = ''a.c''\<rparr>"

definition ex_global :: block where
  "ex_global =
     Block 1 0 0x100 None
       [ex_sym ''x'' LOC_STATIC (Type_Other ''int'') 0x1000,
        ex_sym ''f'' LOC_BLOCK (Type_Other ''void ()'') 0x10,
        ex_sym ''h'' LOC_BLOCK (Type_Other ''void ()'') 0x60]
       None"

definition ex_static :: block where
  "ex_static = Block 2 0 0x100 None [ex_sym ''st'' LOC_STATIC (Type_Other ''int'') 0x1008] (Some ex_global)"

definition ex_F :: block where
  "ex_F =
     Block 3 0x10 0x50 (Some (ex_sym ''f'' LOC_BLOCK (Type_Other ''void ()'') 0x10))
       [ex_sym ''x'' LOC_ARG (Type_Other ''int'') 0,
        ex_sym ''y'' LOC_LOCAL (Type_Other ''int'') 0,
        ex_sym ''x'' LOC_LOCAL (Type_Other ''char'') 0,
        ex_sym ''this'' LOC_ARG (Type_Ptr (Type_Struct ''C'' [''m''])) 0]
       (Some ex_static)"

definition ex_H :: block where
  "ex_H =
     Block 4 0x60 0x90 (Some (ex_sym ''h'' LOC_BLOCK (Type_Other ''void ()'') 0x60))
       [ex_sym ''z'' LOC_ARG (Type_Other ''int'') 0,
        ex_sym ''z'' LOC_ARG (Type_Other ''char'') 0]
       (Some ex_static)"

definition ex_symtab :: symtab where
  "ex_symtab =
     \<lparr>st_filename = ''a.c'',
      LINETABLE = Some [\<lparr>le_line = 10, le_pc = 0x10\<rparr>, \<lparr>le_line = 12, le_pc = 0x20\<rparr>,
                        \<lparr>le_line = 0, le_pc = 0x50\<rparr>, \<lparr>le_line = 20, le_pc = 0x60\<rparr>],
      BLOCKVECTOR = \<lparr>bv_id = 1, bv_global = ex_global, bv_static = ex_static\<rparr>,
      st_primary = True\<rparr>"

definition ex_cat :: catalog where
  "ex_cat = [\<lparr>obfd = 1, psymtabs = [], symtabs = [ex_symtab], msymbols = [],
             OBJF_REORDERED = False, psymtabs_addrmap = None, separate_debug_objfile = None,
             separate_debug_objfile_backlink = None\<rparr>]"

text \<open>
  A catalog with one partial symtab for \<open>b.c\<close>, not read in, that lists the structs \<open>T\<close> (without
  fields, so opaque) and \<open>U\<close> and a variable \<open>g\<close> as global, and a reader that stores what the index calls global in the
  static block of the table.
\<close>

definition ex_struct_sym :: "string \<Rightarrow> gdb_type \<Rightarrow> symbol" where
  "ex_struct_sym n t =
     \<lparr>sym_name = n, sym_demangled = None, sym_language = language_c, sym_domain = STRUCT_DOMAIN,
      sym_class = LOC_TYPEDEF, sym_is_argument = False, sym_type = t, sym_address = 0,
      sym_file = ''b.c''\<rparr>"

definition ex_pst :: partial_symtab where
  "ex_pst =
     \<lparr>pst_filename = ''b.c'', textlow = 0x200, texthigh = 0x300,
      pst_globals = [ex_struct_sym ''T'' (Type_Struct ''T'' []),
                     ex_struct_sym ''U'' (Type_Struct ''U'' [''a'']),
                     ex_sym ''g'' LOC_STATIC (Type_Other ''int'') 0x2000],
      pst_statics = [], readin = False, pst_symtab = None\<rparr>"

definition ex_pcat :: catalog where
  "ex_pcat = [\<lparr>obfd = 2, psymtabs = [ex_pst], symtabs = [], msymbols = [],
              OBJF_REORDERED = False, psymtabs_addrmap = None, separate_debug_objfile = None,
              separate_debug_objfile_backlink = None\<rparr>]"

definition ex_swap_read_symtab :: "partial_symtab \<Rightarrow> symtab" where
  "ex_swap_read_symtab pst =
     \<lparr>st_filename = pst_filename pst, LINETABLE = None,
      BLOCKVECTOR = \<lparr>bv_id = 0,
                     bv_global = Block 10 (textlow pst) (texthigh pst) None (pst_statics pst) None,
                     bv_static = Block 11 (textlow pst) (texthigh pst) None (pst_globals pst)
                                   (Some (Block 10 (textlow pst) (texthigh pst) None (pst_statics pst) None))\<rparr>,
      st_primary = True\<rparr>"

definition ex_swap_ext :: ext where
  "ex_swap_ext = ex_ext\<lparr>read_symtab := ex_swap_read_symtab\<rparr>"

text \<open>A reader that loses the global symbols of the index.\<close>

definition ex_drop_ext :: ext where
  "ex_drop_ext = ex_ext\<lparr>read_symtab := (\<lambda>pst. ex_read_symtab (pst\<lparr>pst_globals := []\<rparr>))\<rparr>"

text \<open>
  A symbol of unknown language, and demanglers of which only the C++ one with the Java
  option knows its name.
\<close>

definition ex_unknown_sym :: symbol where
  "ex_unknown_sym =
     \<lparr>sym_name = [], sym_demangled = None, sym_language = language_unknown,
      sym_domain = VAR_DOMAIN, sym_class = LOC_BLOCK, sym_is_argument = False,
      sym_type = Type_Other ''void ()'', sym_address = 0x10, sym_file = ''a.c''\<rparr>"

definition ex_java_ext :: ext where
  "ex_java_ext =
     ex_ext\<lparr>cplus_demangle := (\<lambda>m j. if j \<and> m = ''_ZN3Foo3barEv'' then Some ''Foo.bar()'' else None)\<rparr>"





text \<open>
  Two partial symtabs with the overlapping ranges [0, 100) and [50, 150), holding functions
  at the addresses 10 and 60, in an objfile that is flagged \<open>OBJF_REORDERED\<close> or not, and
  minimal symbols at the same two addresses.
\<close>

definition ex_unit :: "string \<Rightarrow> CORE_ADDR \<Rightarrow> CORE_ADDR \<Rightarrow> symbol list \<Rightarrow> partial_symtab" where
  "ex_unit f lo hi syms =
     \<lparr>pst_filename = f, textlow = lo, texthigh = hi, pst_globals = syms, pst_statics = [],
      readin = False, pst_symtab = None\<rparr>"

definition ex_overlap_cat :: "bool \<Rightarrow> catalog" where
  "ex_overlap_cat reordered =
     [\<lparr>obfd = 4,
       psymtabs = [ex_unit ''u1.c'' 0 100 [ex_sym ''f10'' LOC_BLOCK (Type_Other ''void ()'') 10],
                   ex_unit ''u2.c'' 50 150 [ex_sym ''f60'' LOC_BLOCK (Type_Other ''void ()'') 60]],
       symtabs = [], msymbols = [], OBJF_REORDERED = reordered, psymtabs_addrmap = None,
       separate_debug_objfile = None, separate_debug_objfile_backlink = None\<rparr>]"

definition ex_msymbol :: "string \<Rightarrow> CORE_ADDR \<Rightarrow> minimal_symbol_type \<Rightarrow> minimal_symbol" where
  "ex_msymbol n a t = \<lparr>msym_name = n, msym_natural_name = n, msym_address = a, msym_type = t\<rparr>"

definition ex_msym_ext :: ext where
  "ex_msym_ext =
     ex_ext\<lparr>lookup_minimal_symbol_by_pc_section :=
              (\<lambda>pc section. if 60 \<le> pc then Some (ex_msymbol ''f60'' 60 mst_text)
                             else if 10 \<le> pc then Some (ex_msymbol ''f10'' 10 mst_text)
                             else None)\<rparr>"

text \<open>
  Collaborators whose minimal symbols know every address as data, of a variable \<open>d\<close> at
  0x20.
\<close>

definition ex_data_ext :: ext where
  "ex_data_ext =
     ex_ext\<lparr>lookup_minimal_symbol_by_pc_section :=
              (\<lambda>pc section. Some (ex_msymbol ''d'' 0x20 mst_data))\<rparr>"

text \<open>
  The catalog for the searches: the objfile of \<open>a.c\<close> with the partial symtab of \<open>b.c\<close>, not
  read in, and minimal symbols for the function \<open>f\<close> and for a function \<open>q\<close> that has no
  symbols. \<open>ex_fn\<close> is the symbol of \<open>f\<close> in the global block of \<open>a.c\<close>. The example
  collaborators print a symbol by its linkage name and the current language is C, case
  sensitive; every language looks a name up with \<open>basic_lookup_symbol_nonlocal\<close>.
\<close>

definition ex_search_cat :: catalog where
  "ex_search_cat =
     [\<lparr>obfd = 1, psymtabs = [ex_pst], symtabs = [ex_symtab],
       msymbols = [ex_msymbol ''f'' 0x10 mst_text, ex_msymbol ''q'' 0x400 mst_text],
       OBJF_REORDERED = False, psymtabs_addrmap = None, separate_debug_objfile = None,
       separate_debug_objfile_backlink = None\<rparr>]"

definition ex_fn :: symbol where
  "ex_fn = ex_sym ''f'' LOC_BLOCK (Type_Other ''void ()'') 0x10"

definition ex_nonlocal ::
  "language \<Rightarrow> catalog \<Rightarrow> string \<Rightarrow> string option \<Rightarrow> block option \<Rightarrow> domain_enum
   \<Rightarrow> (error + symbol option) \<times> catalog" where
  "ex_nonlocal lang = basic_lookup_symbol_nonlocal ex_ext"

section \<open>Properties of block-level lookup\<close>

lemma find_filter_conj: "find P (filter Q xs) = find (\<lambda>x. Q x \<and> P x) xs"
  by (induction xs) auto

lemma scan_function_block_eq:
  "scan_function_block l d found ss =
     (case find (\<lambda>s. block_symbol_ok l d s \<and> \<not> sym_is_argument s) ss of
        Some s \<Rightarrow> Some s
      | None \<Rightarrow> (if filter (block_symbol_ok l d) ss = [] then found
                 else Some (last (filter (block_symbol_ok l d) ss))))"
  by (induction ss arbitrary: found) (auto split: option.splits)

text \<open>
  Claim C8. In a function's block, \<open>lookup_block_symbol\<close> returns the first match for the
  name and domain that is not a parameter; when every match is a parameter it returns the
  last of them, and nothing when there is no match.
\<close>

theorem lookup_block_symbol_function_block:
  assumes "BLOCK_FUNCTION b \<noteq> None"
  shows "lookup_block_symbol E b name l d =
     (case find (\<lambda>s. \<not> sym_is_argument s) (block_matches E b name l d) of
        Some s \<Rightarrow> Some s
      | None \<Rightarrow> (if block_matches E b name l d = [] then None
                 else Some (last (block_matches E b name l d))))"
proof -
  from assms have nf: "(BLOCK_FUNCTION b = None) = False" by simp
  show ?thesis
    unfolding lookup_block_symbol_def block_matches_def nf
    by (simp add: scan_function_block_eq find_filter_conj)
qed


theorem lookup_block_symbol_function_block_witness:
  "BLOCK_FUNCTION ex_F \<noteq> None
   \<and> lookup_block_symbol ex_ext ex_F ''x'' None VAR_DOMAIN
       = Some (ex_sym ''x'' LOC_LOCAL (Type_Other ''char'') 0)
   \<and> block_matches ex_ext ex_F ''x'' None VAR_DOMAIN
       = [ex_sym ''x'' LOC_ARG (Type_Other ''int'') 0, ex_sym ''x'' LOC_LOCAL (Type_Other ''char'') 0]
   \<and> lookup_block_symbol ex_ext ex_H ''z'' None VAR_DOMAIN
       = Some (ex_sym ''z'' LOC_ARG (Type_Other ''char'') 0)"
proof -
  have f: "BLOCK_FUNCTION ex_F \<noteq> None" and h: "BLOCK_FUNCTION ex_H \<noteq> None"
    by (simp_all add: ex_F_def ex_H_def)
  have mf: "block_matches ex_ext ex_F ''x'' None VAR_DOMAIN
       = [ex_sym ''x'' LOC_ARG (Type_Other ''int'') 0, ex_sym ''x'' LOC_LOCAL (Type_Other ''char'') 0]"
    by code_simp
  have mh: "block_matches ex_ext ex_H ''z'' None VAR_DOMAIN
       = [ex_sym ''z'' LOC_ARG (Type_Other ''int'') 0, ex_sym ''z'' LOC_ARG (Type_Other ''char'') 0]"
    by code_simp
  have a: "sym_is_argument (ex_sym n LOC_ARG t v)" "\<not> sym_is_argument (ex_sym n LOC_LOCAL t v)"
    for n t v by (simp_all add: ex_sym_def)
  show ?thesis
    using lookup_block_symbol_function_block [OF f, of ex_ext "''x''" None VAR_DOMAIN]
      lookup_block_symbol_function_block [OF h, of ex_ext "''z''" None VAR_DOMAIN]
    by (simp add: f mf mh a)
qed

section \<open>Properties of name lookup\<close>

lemma block_chain_size: "x \<in> set (block_chain b) \<Longrightarrow> size x \<le> size b"
  by (induction b rule: block_chain.induct) auto

lemma block_chain_self: "b \<in> set (block_chain b)"
  by (cases b rule: block_chain.cases) auto

lemma block_static_block_in_chain:
  "block_static_block (Some b) = Some sb \<Longrightarrow> sb \<in> set (block_chain b)"
  by (induction b rule: block_chain.induct) (auto split: if_splits)

lemma block_chain_length: "length (block_chain b) \<ge> 1"
  by (cases b rule: block_chain.cases) auto

lemma block_static_block_some:
  "BLOCK_SUPERBLOCK b \<noteq> None \<Longrightarrow> \<exists>sb. block_static_block (Some b) = Some sb"
  by (induction b rule: block_chain.induct) auto

lemma local_pass_first_match:
  "lookup_symbol_aux_local E n l (Some b) d =
     first_some (\<lambda>b. lookup_block_symbol E b n l d) (butlast (butlast (block_chain b)))"
proof (induction b rule: block_chain.induct)
  case (1 i s e f dct)
  then show ?case by (simp add: lookup_symbol_aux_local_def)
next
  case (2 i s e f dct p)
  show ?case
  proof (cases "BLOCK_SUPERBLOCK p")
    case None
    then have "block_chain p = [p]" by (cases p) auto
    with None show ?thesis by (simp add: lookup_symbol_aux_local_def)
  next
    case (Some q)
    then obtain n' s' e' f' d' where p: "p = Block n' s' e' f' d' (Some q)" by (cases p) auto
    have len: "length (block_chain p) \<ge> 2" using p block_chain_length[of q] by simp
    obtain sb where sb: "block_static_block (Some p) = Some sb"
      using block_static_block_some[of p] Some by auto
    have "sb \<in> set (block_chain p)" using sb by (rule block_static_block_in_chain)
    then have "size sb \<le> size p" by (rule block_chain_size)
    then have ne: "Block i s e f dct (Some p) \<noteq> sb" by auto
    have bl: "butlast (butlast (Block i s e f dct (Some p) # block_chain p))
               = Block i s e f dct (Some p) # butlast (butlast (block_chain p))"
      using len by (cases "block_chain p"; cases "tl (block_chain p)") auto
    have st: "block_static_block (Some (Block i s e f dct (Some p))) = Some sb"
      using sb Some by simp
    have ih: "local_loop E n l d sb p
              = first_some (\<lambda>b. lookup_block_symbol E b n l d) (butlast (butlast (block_chain p)))"
      using "2.IH" sb by (simp add: lookup_symbol_aux_local_def)
    show ?thesis
      unfolding lookup_symbol_aux_local_def st
      using ne ih bl
      by (simp add: lookup_symbol_aux_block_def split: option.splits)
  qed
qed

lemma local_pass_eq:
  "lookup_symbol_aux_local E n l block d =
     first_some (\<lambda>b. lookup_block_symbol E b n l d) (local_blocks block)"
proof (cases block)
  case None
  then show ?thesis by (simp add: lookup_symbol_aux_local_def local_blocks_def)
next
  case (Some b)
  then show ?thesis by (simp add: local_pass_first_match local_blocks_def)
qed

lemma scan_plain_block_mem:
  "scan_plain_block l d ss = Some s \<Longrightarrow> s \<in> set ss"
  by (induction ss) (auto split: if_splits)

lemma scan_function_block_mem:
  "scan_function_block l d found ss = Some s \<Longrightarrow> s \<in> set ss \<or> found = Some s"
  by (induction ss arbitrary: found) (fastforce split: if_splits)+

lemma lookup_block_symbol_mem:
  "lookup_block_symbol E b n l d = Some s \<Longrightarrow> s \<in> set (dict_iter_name E (BLOCK_DICT b) n)"
  unfolding lookup_block_symbol_def
  by (auto split: if_splits dest: scan_plain_block_mem scan_function_block_mem)

lemma lookup_block_symbol_none:
  "dict_iter_name E (BLOCK_DICT b) n = [] \<Longrightarrow> lookup_block_symbol E b n l d = None"
  unfolding lookup_block_symbol_def by simp

lemma first_some_none: "(\<And>x. x \<in> set xs \<Longrightarrow> f x = None) \<Longrightarrow> first_some f xs = None"
  by (induction xs) auto

lemma symtabs_loop_none:
  "(\<And>t. t \<in> set ts \<Longrightarrow> name_absent E n (BLOCKVECTOR_BLOCK (BLOCKVECTOR t) bi))
   \<Longrightarrow> symtabs_loop E bi n l d ts = None"
  by (induction ts) (auto simp: name_absent_def lookup_block_symbol_none)

lemma psymtab_found_not_some:
  assumes "name_absent E n (bv_global (BLOCKVECTOR (full_table_of E (psymtab_at cat ij))))"
      and "name_absent E n (bv_static (BLOCKVECTOR (full_table_of E (psymtab_at cat ij))))"
  shows "fst (psymtab_found E cat bi n l d ij) \<noteq> Inr (Some s)"
proof -
  have "fst (PSYMTAB_TO_SYMTAB E cat (fst ij) (snd ij)) = full_table_of E (psymtab_at cat ij)"
    by (simp add: PSYMTAB_TO_SYMTAB_def full_table_of_def psymtab_at_def Let_def split: option.splits)
  then show ?thesis
    using assms
    unfolding psymtab_found_def
    by (cases bi)
       (auto simp: Let_def split_beta name_absent_def lookup_block_symbol_none BLOCKVECTOR_BLOCK_def
          other_block_def)
qed

lemma psymtabs_loop_none_cat:
  "psymtabs_loop E cat bi n l d ijs = (Inr None, c) \<Longrightarrow> c = cat"
proof (induction ijs)
  case Nil
  then show ?case by simp
next
  case (Cons ij rest)
  then show ?case
    by (auto simp: psymtab_found_def Let_def split_beta
        split: if_splits sum.splits option.splits)
qed

lemma psymtabs_loop_not_some:
  assumes "\<And>ij. ij \<in> set ijs \<Longrightarrow>
             name_absent E n (bv_global (BLOCKVECTOR (full_table_of E (psymtab_at cat ij))))
           \<and> name_absent E n (bv_static (BLOCKVECTOR (full_table_of E (psymtab_at cat ij))))"
  shows "fst (psymtabs_loop E cat bi n l d ijs) \<noteq> Inr (Some s)"
  using assms
proof (induction ijs)
  case Nil
  then show ?case by simp
next
  case (Cons ij rest)
  then show ?case
    by (auto simp: psymtab_found_not_some split: sum.splits option.splits)
qed


lemma block_chain_trans:
  "x \<in> set (block_chain b) \<Longrightarrow> set (block_chain x) \<subseteq> set (block_chain b)"
  by (induction b rule: block_chain.induct) auto

lemma function_block_loop_in_chain:
  "function_block_loop block = Some b \<Longrightarrow> b \<in> set (chain_of block)"
proof (induction block rule: function_block_loop.induct)
  case 1
  then show ?case by simp
next
  case (2 i s e f dct super)
  then show ?case
    by (cases super) (auto simp: chain_of_def split: if_splits)
qed

lemma lookup_symbol_static_none:
  assumes "\<And>b. b \<in> set (chain_of block) \<Longrightarrow> name_absent E n b"
  shows "lookup_symbol_static E n l block d = None"
proof (cases "block_static_block block")
  case None
  then show ?thesis by (simp add: lookup_symbol_static_def)
next
  case (Some sb)
  then obtain b where b: "block = Some b" by (cases block) auto
  with Some have "sb \<in> set (block_chain b)" by (simp add: block_static_block_in_chain)
  then have "name_absent E n sb" using assms b by (simp add: chain_of_def)
  then show ?thesis using Some
    by (simp add: lookup_symbol_static_def lookup_symbol_aux_block_def name_absent_def
        lookup_block_symbol_none)
qed

lemma in_file_level_blocks:
  "t \<in> set (catalog_tables E cat)
   \<Longrightarrow> BLOCKVECTOR_BLOCK (BLOCKVECTOR t) bi \<in> set (file_level_blocks E cat)"
  by (cases bi) (auto simp: file_level_blocks_def BLOCKVECTOR_BLOCK_def)

lemma lookup_symbol_aux_symtabs_none:
  assumes "\<And>b. b \<in> set (file_level_blocks E cat) \<Longrightarrow> name_absent E n b"
  shows "lookup_symbol_aux_symtabs E cat bi n l d = None"
  unfolding lookup_symbol_aux_symtabs_def
proof (rule symtabs_loop_none)
  fix t assume "t \<in> set (ALL_PRIMARY_SYMTABS cat)"
  then have "t \<in> set (catalog_tables E cat)"
    by (simp add: ALL_PRIMARY_SYMTABS_def catalog_tables_def)
  then show "name_absent E n (BLOCKVECTOR_BLOCK (BLOCKVECTOR t) bi)"
    using assms in_file_level_blocks by blast
qed

lemma lookup_symbol_aux_psymtabs_not_some:
  assumes "\<And>b. b \<in> set (file_level_blocks E cat) \<Longrightarrow> name_absent E n b"
  shows "fst (lookup_symbol_aux_psymtabs E cat bi n l d) \<noteq> Inr (Some s)"
  unfolding lookup_symbol_aux_psymtabs_def
proof (rule psymtabs_loop_not_some)
  fix ij assume "ij \<in> set (ALL_PSYMTABS cat)"
  then have "full_table_of E (psymtab_at cat ij) \<in> set (catalog_tables E cat)"
    by (simp add: catalog_tables_def)
  then have "bv_global (BLOCKVECTOR (full_table_of E (psymtab_at cat ij))) \<in> set (file_level_blocks E cat)"
    and "bv_static (BLOCKVECTOR (full_table_of E (psymtab_at cat ij))) \<in> set (file_level_blocks E cat)"
    by (auto simp: file_level_blocks_def)
  then show "name_absent E n (bv_global (BLOCKVECTOR (full_table_of E (psymtab_at cat ij))))
           \<and> name_absent E n (bv_static (BLOCKVECTOR (full_table_of E (psymtab_at cat ij))))"
    using assms by blast
qed

lemma lookup_symbol_aux_psymtabs_none_cat:
  "lookup_symbol_aux_psymtabs E cat bi n l d = (Inr None, c) \<Longrightarrow> c = cat"
  unfolding lookup_symbol_aux_psymtabs_def by (rule psymtabs_loop_none_cat)

lemma basic_nonlocal_not_some:
  assumes "\<And>b. b \<in> set (chain_of block) \<Longrightarrow> name_absent E n b"
      and "\<And>b. b \<in> set (file_level_blocks E cat) \<Longrightarrow> name_absent E n b"
      and "\<And>i. solib_global_lookup E i n l d = None"
  shows "fst (basic_lookup_symbol_nonlocal E cat n l block d) \<noteq> Inr (Some s)"
    and "basic_lookup_symbol_nonlocal E cat n l block d = (Inr None, c) \<Longrightarrow> c = cat"
  using lookup_symbol_static_none[of block E n l d, OF assms(1)]
    lookup_symbol_aux_symtabs_none[of E cat n GLOBAL_BLOCK l d, OF assms(2)]
    lookup_symbol_aux_psymtabs_not_some[of E cat n GLOBAL_BLOCK l d s, OF assms(2)]
    lookup_symbol_aux_psymtabs_none_cat[of E cat GLOBAL_BLOCK n l d c]
    assms(3)
  by (auto simp: basic_lookup_symbol_nonlocal_def lookup_symbol_global_def split: option.splits)

lemma local_blocks_subset: "set (local_blocks block) \<subseteq> set (chain_of block)"
  by (auto simp: local_blocks_def chain_of_def split: option.splits dest: in_set_butlastD)

lemma not_found_outside:
  assumes ch: "\<And>b. b \<in> set (chain_of block) \<Longrightarrow> name_absent E n b"
      and fl: "\<And>b. b \<in> set (file_level_blocks E cat) \<Longrightarrow> name_absent E n b"
      and so: "\<And>i. solib_global_lookup E i n l d = None"
  shows "fst (lookup_symbol_aux E (\<lambda>lang. basic_lookup_symbol_nonlocal E) cat n l block d lang flag)
          \<noteq> Inr (Some s)"
proof -
  have loc: "lookup_symbol_aux_local E n l block d = None"
    unfolding local_pass_eq
  proof (rule first_some_none)
    fix x assume "x \<in> set (local_blocks block)"
    then have "x \<in> set (chain_of block)" using local_blocks_subset by blast
    then have "name_absent E n x" by (rule ch)
    then show "lookup_block_symbol E x n l d = None"
      by (simp add: name_absent_def lookup_block_symbol_none)
  qed
  define block' where "block' =
     (if la_name_of_this E lang \<noteq> None \<and> flag \<noteq> None \<and> block \<noteq> None
      then function_block_loop block else block)"
  have sub: "set (chain_of block') \<subseteq> set (chain_of block)"
  proof (cases "block' = block")
    case True
    then show ?thesis by simp
  next
    case False
    then have fb: "block' = function_block_loop block" by (simp add: block'_def split: if_splits)
    show ?thesis
    proof (cases block')
      case None
      then show ?thesis by (simp add: chain_of_def)
    next
      case (Some b')
      with fb have "b' \<in> set (chain_of block)" by (simp add: function_block_loop_in_chain)
      then show ?thesis using Some
        by (cases block) (auto simp: chain_of_def dest: block_chain_trans)
    qed
  qed
  have ch': "\<And>b. b \<in> set (chain_of block') \<Longrightarrow> name_absent E n b" using ch sub by blast
  note nl = basic_nonlocal_not_some[of block' E n cat l d, OF ch' fl so]
  obtain r1 c1 where r1: "basic_lookup_symbol_nonlocal E cat n l block' d = (r1, c1)"
    by (cases "basic_lookup_symbol_nonlocal E cat n l block' d")
  have r1ns: "r1 \<noteq> Inr (Some s)" for s using nl(1)[of s] r1 by simp
  have c1: "r1 = Inr None \<Longrightarrow> c1 = cat" using nl(2) r1 by simp
  have st: "lookup_symbol_aux_symtabs E cat STATIC_BLOCK n l d = None"
    by (rule lookup_symbol_aux_symtabs_none[OF fl])
  have ps: "fst (lookup_symbol_aux_psymtabs E cat STATIC_BLOCK n l d) \<noteq> Inr (Some s)"
    by (rule lookup_symbol_aux_psymtabs_not_some[OF fl])
  show ?thesis
    unfolding lookup_symbol_aux_def Let_def loc block'_def[symmetric]
    using r1 r1ns c1 st ps
    by (auto split: option.splits sum.splits bool.splits prod.splits if_splits)
qed

text \<open>
  \<open>lookup_objfile_from_block\<close> tells two objfiles apart whose global blocks hold the same
  symbols over the same range: the block at the address 5 belongs to the second objfile.
\<close>

lemma lookup_objfile_from_block_address:
  "lookup_objfile_from_block
     (ex_cat @ [\<lparr>obfd = 9, psymtabs = [],
                 symtabs = [ex_symtab\<lparr>BLOCKVECTOR :=
                              \<lparr>bv_id = 5,
                               bv_global = Block 5 0 0x100 None (BLOCK_DICT ex_global) None,
                               bv_static = ex_static\<rparr>\<rparr>],
                 msymbols = [], OBJF_REORDERED = False, psymtabs_addrmap = None,
                 separate_debug_objfile = None, separate_debug_objfile_backlink = None\<rparr>])
     (Some (Block 5 0 0x100 None (BLOCK_DICT ex_global) None)) = Some 1
   \<and> lookup_objfile_from_block ex_cat (Some ex_F) = Some 0"
  by code_simp

text \<open>
  Claim C1. The local pass of name lookup walks from the context block outward and
  returns the first match among the blocks before the static and the global block; a
  match of the local pass is what \<open>lookup_symbol_aux\<close> returns, whatever the catalog holds
  (a symbol of the function's block shadows a global of the same name); and with the
  default non-local pass, a name that no block on the chain of the context block and no
  file-level block of the catalog declares (a name declared only in another function's
  block) is not found.
\<close>

theorem lookup_symbol_scoping:
  "lookup_symbol_aux_local E name l block d =
     first_some (\<lambda>b. lookup_block_symbol E b name l d) (local_blocks block)
   \<and> (first_some (\<lambda>b. lookup_block_symbol E b name l d) (local_blocks block) = Some s \<longrightarrow>
        fst (lookup_symbol_aux E nonlocal cat name l block d lang flag) = Inr (Some s))
   \<and> ((\<forall>b \<in> set (chain_of block) \<union> set (file_level_blocks E cat). name_absent E name b)
        \<and> (\<forall>i. solib_global_lookup E i name l d = None) \<longrightarrow>
        (\<forall>s'. fst (lookup_symbol_aux E (\<lambda>lang. basic_lookup_symbol_nonlocal E) cat name l block d
                     lang flag) \<noteq> Inr (Some s')))"
proof (intro conjI impI allI)
  show "lookup_symbol_aux_local E name l block d =
     first_some (\<lambda>b. lookup_block_symbol E b name l d) (local_blocks block)"
    by (rule local_pass_eq)
next
  assume "first_some (\<lambda>b. lookup_block_symbol E b name l d) (local_blocks block) = Some s"
  then have "lookup_symbol_aux_local E name l block d = Some s" by (simp add: local_pass_eq)
  then show "fst (lookup_symbol_aux E nonlocal cat name l block d lang flag) = Inr (Some s)"
    by (simp add: lookup_symbol_aux_def)
next
  fix s'
  assume a: "(\<forall>b \<in> set (chain_of block) \<union> set (file_level_blocks E cat). name_absent E name b)
        \<and> (\<forall>i. solib_global_lookup E i name l d = None)"
  show "fst (lookup_symbol_aux E (\<lambda>lang. basic_lookup_symbol_nonlocal E) cat name l block d
                     lang flag) \<noteq> Inr (Some s')"
    by (rule not_found_outside) (use a in auto)
qed

theorem lookup_symbol_scoping_witness:
  "lookup_symbol_aux_local ex_ext ''x'' None (Some ex_F) VAR_DOMAIN
     = Some (ex_sym ''x'' LOC_LOCAL (Type_Other ''char'') 0)
   \<and> fst (lookup_symbol_aux ex_ext (\<lambda>lang. basic_lookup_symbol_nonlocal ex_ext) ex_cat ''x'' None
            (Some ex_F) VAR_DOMAIN language_c None)
       = Inr (Some (ex_sym ''x'' LOC_LOCAL (Type_Other ''char'') 0))
   \<and> fst (lookup_symbol_aux ex_ext (\<lambda>lang. basic_lookup_symbol_nonlocal ex_ext) ex_cat ''x'' None
            (Some ex_static) VAR_DOMAIN language_c None)
       = Inr (Some (ex_sym ''x'' LOC_STATIC (Type_Other ''int'') 0x1000))
   \<and> fst (lookup_symbol_aux ex_ext (\<lambda>lang. basic_lookup_symbol_nonlocal ex_ext) ex_cat ''y'' None
            (Some ex_F) VAR_DOMAIN language_c None)
       = Inr (Some (ex_sym ''y'' LOC_LOCAL (Type_Other ''int'') 0))
   \<and> (\<forall>s'. fst (lookup_symbol_aux ex_ext (\<lambda>lang. basic_lookup_symbol_nonlocal ex_ext) ex_cat ''y''
                  None (Some ex_H) VAR_DOMAIN language_c None) \<noteq> Inr (Some s'))"
proof -
  have x: "first_some (\<lambda>b. lookup_block_symbol ex_ext b ''x'' None VAR_DOMAIN) (local_blocks (Some ex_F))
           = Some (ex_sym ''x'' LOC_LOCAL (Type_Other ''char'') 0)"
    by code_simp
  have gx: "fst (lookup_symbol_aux ex_ext (\<lambda>lang. basic_lookup_symbol_nonlocal ex_ext) ex_cat ''x'' None
            (Some ex_static) VAR_DOMAIN language_c None)
       = Inr (Some (ex_sym ''x'' LOC_STATIC (Type_Other ''int'') 0x1000))"
    by code_simp
  have y: "first_some (\<lambda>b. lookup_block_symbol ex_ext b ''y'' None VAR_DOMAIN) (local_blocks (Some ex_F))
           = Some (ex_sym ''y'' LOC_LOCAL (Type_Other ''int'') 0)"
    by code_simp
  have ab: "\<forall>b \<in> set (chain_of (Some ex_H)) \<union> set (file_level_blocks ex_ext ex_cat).
              name_absent ex_ext ''y'' b"
    by code_simp
  have so: "\<forall>i. solib_global_lookup ex_ext i ''y'' None VAR_DOMAIN = None"
    by (simp add: ex_ext_def)
  show ?thesis
    using lookup_symbol_scoping
        [of ex_ext "''x''" None "Some ex_F" VAR_DOMAIN "ex_sym ''x'' LOC_LOCAL (Type_Other ''char'') 0"
          "\<lambda>lang. basic_lookup_symbol_nonlocal ex_ext" ex_cat language_c None]
      lookup_symbol_scoping
        [of ex_ext "''y''" None "Some ex_F" VAR_DOMAIN "ex_sym ''y'' LOC_LOCAL (Type_Other ''int'') 0"
          "\<lambda>lang. basic_lookup_symbol_nonlocal ex_ext" ex_cat language_c None]
      lookup_symbol_scoping
        [of ex_ext "''y''" None "Some ex_H" VAR_DOMAIN undefined
          "\<lambda>lang. basic_lookup_symbol_nonlocal ex_ext" ex_cat language_c None]
      x gx y ab so
    by simp
qed

text \<open>
  Claim C10. When \<open>lookup_symbol_aux\<close> is given a non-null \<open>is_a_field_of_this\<close>, the flag
  holds 0 or 1 afterwards, whatever it held before and also when the lookup ends in an
  error; it holds 1 only when the local pass found nothing and the name is a field of the
  struct or union that \<open>this\<close>, found in the enclosing function's block, is or points to,
  and then the result is null.
\<close>

theorem lookup_symbol_aux_is_a_field_of_this:
  assumes "lookup_symbol_aux E nonlocal cat name l block d lang (Some v) = (r, flag, cat')"
  shows "(flag = Some 0 \<or> flag = Some 1)
    \<and> (flag = Some 1 \<longrightarrow>
         r = Inr None
         \<and> lookup_symbol_aux_local E name l block d = None
         \<and> (\<exists>name_of_this b this_sym.
               la_name_of_this E lang = Some name_of_this
               \<and> function_block_loop block = Some b
               \<and> lookup_block_symbol E b name_of_this None VAR_DOMAIN = Some this_sym
               \<and> TYPE_CODE (receiver_type E this_sym) \<in> {TYPE_CODE_STRUCT, TYPE_CODE_UNION}
               \<and> check_field E (receiver_type E this_sym) name))"
  using assms
  unfolding lookup_symbol_aux_def field_of_this_check_def Let_def
  by (auto split: option.splits sum.splits bool.splits if_splits prod.splits)

theorem lookup_symbol_aux_is_a_field_of_this_witness:
  "lookup_symbol_aux ex_ext (\<lambda>lang. basic_lookup_symbol_nonlocal ex_ext) ex_cat ''m'' None (Some ex_F)
     VAR_DOMAIN language_cplus (Some 7) = (Inr None, Some 1, ex_cat)
   \<and> lookup_symbol_aux_local ex_ext ''m'' None (Some ex_F) VAR_DOMAIN = None
   \<and> (\<exists>name_of_this b this_sym.
         la_name_of_this ex_ext language_cplus = Some name_of_this
         \<and> function_block_loop (Some ex_F) = Some b
         \<and> lookup_block_symbol ex_ext b name_of_this None VAR_DOMAIN = Some this_sym
         \<and> TYPE_CODE (receiver_type ex_ext this_sym) \<in> {TYPE_CODE_STRUCT, TYPE_CODE_UNION}
         \<and> check_field ex_ext (receiver_type ex_ext this_sym) ''m'')
   \<and> lookup_symbol_aux ex_ext (\<lambda>lang. basic_lookup_symbol_nonlocal ex_ext) ex_cat ''x'' None (Some ex_F)
       VAR_DOMAIN language_cplus (Some 7)
     = (Inr (Some (ex_sym ''x'' LOC_LOCAL (Type_Other ''char'') 0)), Some 0, ex_cat)"
proof -
  have m: "lookup_symbol_aux ex_ext (\<lambda>lang. basic_lookup_symbol_nonlocal ex_ext) ex_cat ''m'' None
             (Some ex_F) VAR_DOMAIN language_cplus (Some 7) = (Inr None, Some 1, ex_cat)"
    by code_simp
  have x: "lookup_symbol_aux ex_ext (\<lambda>lang. basic_lookup_symbol_nonlocal ex_ext) ex_cat ''x'' None
             (Some ex_F) VAR_DOMAIN language_cplus (Some 7)
           = (Inr (Some (ex_sym ''x'' LOC_LOCAL (Type_Other ''char'') 0)), Some 0, ex_cat)"
    by code_simp
  show ?thesis
    using lookup_symbol_aux_is_a_field_of_this [OF m] m x by simp
qed

section \<open>Properties of the lookup through partial symtabs\<close>

lemma psymtabs_loop_skip:
  assumes "\<forall>k \<in> set pre. readin (psymtab_at cat k)
             \<or> lookup_partial_symbol E (psymtab_at cat k) name l (bi = GLOBAL_BLOCK) d = Inr None"
  shows "psymtabs_loop E cat bi name l d (pre @ rest) = psymtabs_loop E cat bi name l d rest"
  using assms by (induction pre) auto

lemma transparent_psymtabs_loop_skip:
  assumes "\<forall>k \<in> set pre. readin (psymtab_at cat k)
             \<or> lookup_partial_symbol E (psymtab_at cat k) name None (bi = GLOBAL_BLOCK)
                 STRUCT_DOMAIN = Inr None"
  shows "transparent_psymtabs_loop E cat bi name (pre @ rest)
         = transparent_psymtabs_loop E cat bi name rest"
  using assms by (induction pre) auto

text \<open>
  Claim C6, amended. When the first partial symtab that is not read in and reports the
  name is expanded and the block asked for does not hold the symbol, the other block is
  scanned once. \<open>lookup_symbol_aux_psymtabs\<close> returns the symbol found there, and raises the
  error "found in psymtab but not in symtab" when it is in neither block. The loops of
  \<open>basic_lookup_transparent_type\<close> raise the same error, return the type of the symbol
  found there when that type is not opaque, and go on to the partial symtabs that follow
  when it is opaque.
\<close>

theorem psymtab_disagreement:
  assumes "ALL_PSYMTABS cat = pre @ ij # post"
      and "\<forall>k \<in> set pre. readin (psymtab_at cat k)
             \<or> lookup_partial_symbol E (psymtab_at cat k) name l (bi = GLOBAL_BLOCK) d = Inr None"
      and "\<not> readin (psymtab_at cat ij)"
      and "lookup_partial_symbol E (psymtab_at cat ij) name l (bi = GLOBAL_BLOCK) d = Inr (Some p)"
      and "PSYMTAB_TO_SYMTAB E cat (fst ij) (snd ij) = (s, cat')"
      and "lookup_block_symbol E (BLOCKVECTOR_BLOCK (BLOCKVECTOR s) bi) name l d = None"
  shows "lookup_symbol_aux_psymtabs E cat bi name l d =
           (case lookup_block_symbol E (BLOCKVECTOR_BLOCK (BLOCKVECTOR s) (other_block bi)) name l d of
              Some found \<Rightarrow> (Inr (Some found), cat')
            | None \<Rightarrow> (Inl (Psymtab_Not_In_Symtab bi name (pst_filename (psymtab_at cat ij))), cat'))
         \<and> (l = None \<and> d = STRUCT_DOMAIN \<longrightarrow>
              transparent_psymtabs_loop E cat bi name (ALL_PSYMTABS cat) =
                (case lookup_block_symbol E (BLOCKVECTOR_BLOCK (BLOCKVECTOR s) (other_block bi))
                        name None STRUCT_DOMAIN of
                   Some found \<Rightarrow>
                     if \<not> TYPE_IS_OPAQUE E (sym_type found) then (Inr (Some (sym_type found)), cat')
                     else transparent_psymtabs_loop E cat' bi name post
                 | None \<Rightarrow>
                     (Inl (Psymtab_Not_In_Symtab bi name (pst_filename (psymtab_at cat ij))), cat')))"
proof (intro conjI impI)
  show "lookup_symbol_aux_psymtabs E cat bi name l d =
           (case lookup_block_symbol E (BLOCKVECTOR_BLOCK (BLOCKVECTOR s) (other_block bi)) name l d of
              Some found \<Rightarrow> (Inr (Some found), cat')
            | None \<Rightarrow> (Inl (Psymtab_Not_In_Symtab bi name (pst_filename (psymtab_at cat ij))), cat'))"
    unfolding lookup_symbol_aux_psymtabs_def assms(1) psymtabs_loop_skip[OF assms(2)]
    using assms(3-6)
    by (simp add: psymtab_found_def split: option.splits)
next
  assume a: "l = None \<and> d = STRUCT_DOMAIN"
  have sk: "\<forall>k \<in> set pre. readin (psymtab_at cat k)
             \<or> lookup_partial_symbol E (psymtab_at cat k) name None (bi = GLOBAL_BLOCK)
                 STRUCT_DOMAIN = Inr None"
    using assms(2) a by simp
  show "transparent_psymtabs_loop E cat bi name (ALL_PSYMTABS cat) =
                (case lookup_block_symbol E (BLOCKVECTOR_BLOCK (BLOCKVECTOR s) (other_block bi))
                        name None STRUCT_DOMAIN of
                   Some found \<Rightarrow>
                     if \<not> TYPE_IS_OPAQUE E (sym_type found) then (Inr (Some (sym_type found)), cat')
                     else transparent_psymtabs_loop E cat' bi name post
                 | None \<Rightarrow>
                     (Inl (Psymtab_Not_In_Symtab bi name (pst_filename (psymtab_at cat ij))), cat'))"
    unfolding assms(1) transparent_psymtabs_loop_skip[OF sk]
    using assms(3-6) a
    by (simp split: option.splits)
qed

theorem psymtab_disagreement_witness:
  "lookup_symbol_aux_psymtabs ex_swap_ext ex_pcat GLOBAL_BLOCK ''g'' None VAR_DOMAIN
     = (Inr (Some (ex_sym ''g'' LOC_STATIC (Type_Other ''int'') 0x2000)),
        snd (PSYMTAB_TO_SYMTAB ex_swap_ext ex_pcat 0 0))
   \<and> lookup_symbol_aux_psymtabs ex_drop_ext ex_pcat GLOBAL_BLOCK ''g'' None VAR_DOMAIN
     = (Inl (Psymtab_Not_In_Symtab GLOBAL_BLOCK ''g'' ''b.c''),
        snd (PSYMTAB_TO_SYMTAB ex_drop_ext ex_pcat 0 0))
   \<and> transparent_psymtabs_loop ex_swap_ext ex_pcat GLOBAL_BLOCK ''U'' (ALL_PSYMTABS ex_pcat)
     = (Inr (Some (Type_Struct ''U'' [''a''])), snd (PSYMTAB_TO_SYMTAB ex_swap_ext ex_pcat 0 0))
   \<and> transparent_psymtabs_loop ex_swap_ext ex_pcat GLOBAL_BLOCK ''T'' (ALL_PSYMTABS ex_pcat)
     = (Inr None, snd (PSYMTAB_TO_SYMTAB ex_swap_ext ex_pcat 0 0))"
proof -
  have all: "ALL_PSYMTABS ex_pcat = [] @ (0, 0) # []" by code_simp
  have pre: "\<forall>k \<in> set []. readin (psymtab_at ex_pcat k)
               \<or> lookup_partial_symbol E (psymtab_at ex_pcat k) n l (GLOBAL_BLOCK = GLOBAL_BLOCK) d
                  = Inr None" for E n l d
    by simp
  have unread: "\<not> readin (psymtab_at ex_pcat (0, 0))" by code_simp
  have pg: "lookup_partial_symbol ex_swap_ext (psymtab_at ex_pcat (0, 0)) ''g'' None
              (GLOBAL_BLOCK = GLOBAL_BLOCK) VAR_DOMAIN
            = Inr (Some (ex_sym ''g'' LOC_STATIC (Type_Other ''int'') 0x2000))"
    by code_simp
  have pd: "lookup_partial_symbol ex_drop_ext (psymtab_at ex_pcat (0, 0)) ''g'' None
              (GLOBAL_BLOCK = GLOBAL_BLOCK) VAR_DOMAIN
            = Inr (Some (ex_sym ''g'' LOC_STATIC (Type_Other ''int'') 0x2000))"
    by code_simp
  have pu: "lookup_partial_symbol ex_swap_ext (psymtab_at ex_pcat (0, 0)) ''U'' None
              (GLOBAL_BLOCK = GLOBAL_BLOCK) STRUCT_DOMAIN
            = Inr (Some (ex_struct_sym ''U'' (Type_Struct ''U'' [''a''])))"
    by code_simp
  have pt: "lookup_partial_symbol ex_swap_ext (psymtab_at ex_pcat (0, 0)) ''T'' None
              (GLOBAL_BLOCK = GLOBAL_BLOCK) STRUCT_DOMAIN
            = Inr (Some (ex_struct_sym ''T'' (Type_Struct ''T'' [])))"
    by code_simp
  have ex: "PSYMTAB_TO_SYMTAB E ex_pcat (fst (0, 0)) (snd (0, 0))
            = (fst (PSYMTAB_TO_SYMTAB E ex_pcat 0 0), snd (PSYMTAB_TO_SYMTAB E ex_pcat 0 0))" for E
    by simp
  have ng: "lookup_block_symbol ex_swap_ext
              (BLOCKVECTOR_BLOCK (BLOCKVECTOR (fst (PSYMTAB_TO_SYMTAB ex_swap_ext ex_pcat 0 0)))
                 GLOBAL_BLOCK) ''g'' None VAR_DOMAIN = None"
    by code_simp
  have nd: "lookup_block_symbol ex_drop_ext
              (BLOCKVECTOR_BLOCK (BLOCKVECTOR (fst (PSYMTAB_TO_SYMTAB ex_drop_ext ex_pcat 0 0)))
                 GLOBAL_BLOCK) ''g'' None VAR_DOMAIN = None"
    by code_simp
  have nu: "lookup_block_symbol ex_swap_ext
              (BLOCKVECTOR_BLOCK (BLOCKVECTOR (fst (PSYMTAB_TO_SYMTAB ex_swap_ext ex_pcat 0 0)))
                 GLOBAL_BLOCK) ''U'' None STRUCT_DOMAIN = None"
    by code_simp
  have nt: "lookup_block_symbol ex_swap_ext
              (BLOCKVECTOR_BLOCK (BLOCKVECTOR (fst (PSYMTAB_TO_SYMTAB ex_swap_ext ex_pcat 0 0)))
                 GLOBAL_BLOCK) ''T'' None STRUCT_DOMAIN = None"
    by code_simp
  have og: "lookup_block_symbol ex_swap_ext
              (BLOCKVECTOR_BLOCK (BLOCKVECTOR (fst (PSYMTAB_TO_SYMTAB ex_swap_ext ex_pcat 0 0)))
                 (other_block GLOBAL_BLOCK)) ''g'' None VAR_DOMAIN
            = Some (ex_sym ''g'' LOC_STATIC (Type_Other ''int'') 0x2000)"
    by code_simp
  have od: "lookup_block_symbol ex_drop_ext
              (BLOCKVECTOR_BLOCK (BLOCKVECTOR (fst (PSYMTAB_TO_SYMTAB ex_drop_ext ex_pcat 0 0)))
                 (other_block GLOBAL_BLOCK)) ''g'' None VAR_DOMAIN = None"
    by code_simp
  have ou: "lookup_block_symbol ex_swap_ext
              (BLOCKVECTOR_BLOCK (BLOCKVECTOR (fst (PSYMTAB_TO_SYMTAB ex_swap_ext ex_pcat 0 0)))
                 (other_block GLOBAL_BLOCK)) ''U'' None STRUCT_DOMAIN
            = Some (ex_struct_sym ''U'' (Type_Struct ''U'' [''a'']))"
    by code_simp
  have ot: "lookup_block_symbol ex_swap_ext
              (BLOCKVECTOR_BLOCK (BLOCKVECTOR (fst (PSYMTAB_TO_SYMTAB ex_swap_ext ex_pcat 0 0)))
                 (other_block GLOBAL_BLOCK)) ''T'' None STRUCT_DOMAIN
            = Some (ex_struct_sym ''T'' (Type_Struct ''T'' []))"
    by code_simp
  have opq: "\<not> TYPE_IS_OPAQUE ex_swap_ext (sym_type (ex_struct_sym ''U'' (Type_Struct ''U'' [''a''])))"
    "TYPE_IS_OPAQUE ex_swap_ext (sym_type (ex_struct_sym ''T'' (Type_Struct ''T'' [])))"
    "sym_type (ex_struct_sym ''U'' (Type_Struct ''U'' [''a''])) = Type_Struct ''U'' [''a'']"
    by code_simp+
  have fn: "pst_filename (psymtab_at ex_pcat (0, 0)) = ''b.c''" by code_simp
  show ?thesis
    using psymtab_disagreement [OF all pre unread pg ex ng]
      psymtab_disagreement [OF all pre unread pd ex nd]
      psymtab_disagreement [OF all pre unread pu ex nu]
      psymtab_disagreement [OF all pre unread pt ex nt]
      og od ou ot opq fn
    by simp
qed

text \<open>
  The claim as stated fails for \<open>basic_lookup_transparent_type\<close>: the index lists the struct
  \<open>T\<close> as global, the table holds it in the static block only, with an opaque type, and the
  lookup ends with no type and no error.
\<close>

theorem transparent_type_not_found_counterexample:
  "lookup_partial_symbol ex_swap_ext ex_pst ''T'' None True STRUCT_DOMAIN
     = Inr (Some (ex_struct_sym ''T'' (Type_Struct ''T'' [])))
   \<and> lookup_block_symbol ex_swap_ext (bv_global (BLOCKVECTOR (ex_swap_read_symtab ex_pst)))
        ''T'' None STRUCT_DOMAIN = None
   \<and> lookup_block_symbol ex_swap_ext (bv_static (BLOCKVECTOR (ex_swap_read_symtab ex_pst)))
        ''T'' None STRUCT_DOMAIN = Some (ex_struct_sym ''T'' (Type_Struct ''T'' []))
   \<and> fst (basic_lookup_transparent_type ex_swap_ext ex_pcat ''T'') = Inr None"
  by code_simp

section \<open>Properties of the demangled-names table\<close>

text \<open>
  Claim C7, amended. For a symbol of unknown language whose name is not yet in the table,
  \<open>symbol_set_names\<close> tries the Objective-C demangler and then the C++ demangler without
  the Java option; the first that succeeds fixes the language and, when its result is not
  empty, the display name; when both fail the symbol keeps the raw linkage name, has no
  display name, and its language is left at \<open>language_auto\<close>. The C++ demangler with the
  Java option is not consulted: whatever it would answer, the result is the same.
\<close>

theorem symbol_set_names_unknown_language:
  assumes "sym_language g = language_unknown"
      and "(case hash of None \<Rightarrow> None | Some h \<Rightarrow> h n) = None"
  shows "fst (symbol_set_names E hash g n) =
           (case objc_demangle E n of
              Some d \<Rightarrow> g\<lparr>sym_name := n, sym_language := language_objc,
                            sym_demangled := (if d \<noteq> [] then Some d else None)\<rparr>
            | None \<Rightarrow>
                (case cplus_demangle E n False of
                   Some d \<Rightarrow> g\<lparr>sym_name := n, sym_language := language_cplus,
                                 sym_demangled := (if d \<noteq> [] then Some d else None)\<rparr>
                 | None \<Rightarrow> g\<lparr>sym_name := n, sym_language := language_auto,
                               sym_demangled := None\<rparr>))
         \<and> fst (symbol_set_names
                  (E\<lparr>cplus_demangle := (\<lambda>m j. if j then java m else cplus_demangle E m False)\<rparr>)
                  hash g n)
           = fst (symbol_set_names E hash g n)"
  using assms
  by (cases hash)
     (auto simp: symbol_set_names_def symbol_find_demangled_name_def Let_def
       split: option.splits)

theorem symbol_set_names_unknown_language_witness:
  "fst (symbol_set_names ex_ext None ex_unknown_sym ''_Z1fv'')
     = ex_unknown_sym\<lparr>sym_name := ''_Z1fv'', sym_language := language_cplus,
                       sym_demangled := Some ''f()''\<rparr>
   \<and> fst (symbol_set_names ex_ext None ex_unknown_sym ''main'')
     = ex_unknown_sym\<lparr>sym_name := ''main'', sym_language := language_auto,
                       sym_demangled := None\<rparr>"
proof -
  have u: "sym_language ex_unknown_sym = language_unknown" by (simp add: ex_unknown_sym_def)
  have m: "(case None :: (string \<rightharpoonup> string) option of None \<Rightarrow> None | Some h \<Rightarrow> h n) = None" for n
    by simp
  have d: "objc_demangle ex_ext n = None" "cplus_demangle ex_ext ''_Z1fv'' False = Some ''f()''"
    "cplus_demangle ex_ext ''main'' False = None" for n
    by (simp_all add: ex_ext_def)
  show ?thesis
    using symbol_set_names_unknown_language [OF u m, of ex_ext "''_Z1fv''"]
      symbol_set_names_unknown_language [OF u m, of ex_ext "''main''"] d
    by simp
qed

text \<open>
  The claim as stated fails: for this symbol of unknown language the Objective-C and the
  C++ demanglers fail and the C++ demangler with the Java option would succeed, yet the
  symbol is left without a display name and its language at \<open>language_auto\<close>.
\<close>

theorem java_demangling_not_tried_counterexample:
  "sym_language ex_unknown_sym = language_unknown
   \<and> objc_demangle ex_java_ext ''_ZN3Foo3barEv'' = None
   \<and> cplus_demangle ex_java_ext ''_ZN3Foo3barEv'' False = None
   \<and> cplus_demangle ex_java_ext ''_ZN3Foo3barEv'' True = Some ''Foo.bar()''
   \<and> fst (symbol_set_names ex_java_ext None ex_unknown_sym ''_ZN3Foo3barEv'')
     = ex_unknown_sym\<lparr>sym_name := ''_ZN3Foo3barEv'', sym_language := language_auto,
                       sym_demangled := None\<rparr>"
  by (simp add: symbol_set_names_def symbol_find_demangled_name_def ex_java_ext_def ex_ext_def
      ex_unknown_sym_def Let_def)

section \<open>Properties of the line search\<close>


















section \<open>Properties of the expansion of partial symtabs\<close>

lemma PSYMTAB_TO_SYMTAB_expanded:
  "pst_symtab (psymtab_at cat (i, j)) = Some s \<Longrightarrow> PSYMTAB_TO_SYMTAB E cat i j = (s, cat)"
  by (simp add: PSYMTAB_TO_SYMTAB_def psymtab_at_def Let_def)

lemma PSYMTAB_TO_SYMTAB_length:
  "length (snd (PSYMTAB_TO_SYMTAB E cat i j)) = length cat"
  by (simp add: PSYMTAB_TO_SYMTAB_def Let_def split: option.splits)

lemma PSYMTAB_TO_SYMTAB_psymtabs_length:
  "length (psymtabs (snd (PSYMTAB_TO_SYMTAB E cat i j) ! i')) = length (psymtabs (cat ! i'))"
  by (cases "i < length cat"; cases "i' = i")
     (auto simp: PSYMTAB_TO_SYMTAB_def Let_def list_update_beyond split: option.splits)

lemma PSYMTAB_TO_SYMTAB_valid:
  "valid_psymtab (snd (PSYMTAB_TO_SYMTAB E cat i j)) k = valid_psymtab cat k"
  by (simp add: valid_psymtab_def PSYMTAB_TO_SYMTAB_length PSYMTAB_TO_SYMTAB_psymtabs_length)

lemma PSYMTAB_TO_SYMTAB_at_other:
  "k \<noteq> (i, j) \<Longrightarrow> psymtab_at (snd (PSYMTAB_TO_SYMTAB E cat i j)) k = psymtab_at cat k"
  by (cases "i < length cat"; cases "fst k = i"; cases k)
     (auto simp: PSYMTAB_TO_SYMTAB_def psymtab_at_def Let_def list_update_beyond
       split: option.splits)

lemma PSYMTAB_TO_SYMTAB_at_self:
  assumes "valid_psymtab cat (i, j)"
  shows "psymtab_at (snd (PSYMTAB_TO_SYMTAB E cat i j)) (i, j) =
           (case pst_symtab (psymtab_at cat (i, j)) of
              Some s \<Rightarrow> psymtab_at cat (i, j)
            | None \<Rightarrow> (psymtab_at cat (i, j))
                        \<lparr>readin := True, pst_symtab := Some (read_symtab E (psymtab_at cat (i, j)))\<rparr>)"
  using assms
  by (auto simp: PSYMTAB_TO_SYMTAB_def psymtab_at_def valid_psymtab_def Let_def split: option.splits)

lemma PSYMTAB_TO_SYMTAB_result:
  "fst (PSYMTAB_TO_SYMTAB E cat i j) =
     (case pst_symtab (psymtab_at cat (i, j)) of
        Some s \<Rightarrow> s | None \<Rightarrow> read_symtab E (psymtab_at cat (i, j)))"
  by (auto simp: PSYMTAB_TO_SYMTAB_def psymtab_at_def Let_def split: option.splits)

lemma PSYMTAB_TO_SYMTAB_filename:
  "pst_filename (psymtab_at (snd (PSYMTAB_TO_SYMTAB E cat i j)) k) = pst_filename (psymtab_at cat k)"
proof (cases "k = (i, j)")
  case False
  then show ?thesis by (simp add: PSYMTAB_TO_SYMTAB_at_other)
next
  case True
  show ?thesis
  proof (cases "valid_psymtab cat (i, j)")
    case v: True
    show ?thesis unfolding True PSYMTAB_TO_SYMTAB_at_self[OF v] by (simp split: option.splits)
  next
    case nv: False
    then show ?thesis unfolding True
      by (cases "i < length cat")
         (auto simp: PSYMTAB_TO_SYMTAB_def psymtab_at_def valid_psymtab_def Let_def
           list_update_beyond split: option.splits)
  qed
qed

lemma PSYMTAB_TO_SYMTAB_keeps_expanded:
  "expanded cat k \<Longrightarrow> expanded (snd (PSYMTAB_TO_SYMTAB E cat i j)) k"
proof (cases "k = (i, j)")
  case False
  assume "expanded cat k"
  then show ?thesis using False by (simp add: expanded_def PSYMTAB_TO_SYMTAB_at_other)
next
  case True
  assume "expanded cat k"
  then obtain s where "pst_symtab (psymtab_at cat (i, j)) = Some s"
    unfolding True expanded_def by blast
  then show ?thesis unfolding True
    by (simp add: PSYMTAB_TO_SYMTAB_expanded expanded_def)
qed

lemma PSYMTAB_TO_SYMTAB_makes_expanded:
  "valid_psymtab cat (i, j) \<Longrightarrow> expanded (snd (PSYMTAB_TO_SYMTAB E cat i j)) (i, j)"
  unfolding expanded_def
  by (simp add: PSYMTAB_TO_SYMTAB_at_self split: option.splits)

lemma ALL_PSYMTABS_valid: "k \<in> set (ALL_PSYMTABS cat) \<Longrightarrow> valid_psymtab cat k"
  by (auto simp: ALL_PSYMTABS_def ALL_OBJFILE_PSYMTABS_def valid_psymtab_def)

lemma expand_file_psymtabs_done:
  "\<forall>k \<in> set L. pst_filename (psymtab_at cat k) = f \<longrightarrow> expanded cat k
   \<Longrightarrow> expand_file_psymtabs E f cat L = cat"
proof (induction L)
  case Nil
  then show ?case by simp
next
  case (Cons k L)
  then show ?case
    by (cases k) (auto simp: PSYMTAB_TO_SYMTAB_expanded expanded_def)
qed

lemma expand_file_psymtabs_keeps:
  "expanded cat k \<Longrightarrow> expanded (expand_file_psymtabs E f cat L) k"
  by (induction L arbitrary: cat) (auto simp: PSYMTAB_TO_SYMTAB_keeps_expanded)

lemma expand_file_psymtabs_filename:
  "pst_filename (psymtab_at (expand_file_psymtabs E f cat L) k) = pst_filename (psymtab_at cat k)"
  by (induction L arbitrary: cat) (auto simp: PSYMTAB_TO_SYMTAB_filename)

lemma expand_file_psymtabs_valid:
  "valid_psymtab (expand_file_psymtabs E f cat L) k = valid_psymtab cat k"
  by (induction L arbitrary: cat) (auto simp: PSYMTAB_TO_SYMTAB_valid)

lemma expand_file_psymtabs_all:
  "\<forall>k \<in> set L. valid_psymtab cat k \<Longrightarrow>
   \<forall>k \<in> set L. pst_filename (psymtab_at cat k) = f \<longrightarrow> expanded (expand_file_psymtabs E f cat L) k"
proof (induction L arbitrary: cat)
  case Nil
  then show ?case by simp
next
  case (Cons k L)
  obtain i j where k: "k = (i, j)" by (cases k)
  show ?case
  proof (cases "pst_filename (psymtab_at cat k) = f")
    case False
    then show ?thesis using Cons by auto
  next
    case True
    define cat1 where "cat1 = snd (PSYMTAB_TO_SYMTAB E cat i j)"
    have eq: "expand_file_psymtabs E f cat (k # L) = expand_file_psymtabs E f cat1 L"
      using True k by (simp add: cat1_def)
    have v1: "\<forall>k \<in> set L. valid_psymtab cat1 k"
      using Cons.prems by (simp add: cat1_def PSYMTAB_TO_SYMTAB_valid)
    have e1: "expanded cat1 k"
      using Cons.prems k by (simp add: cat1_def PSYMTAB_TO_SYMTAB_makes_expanded)
    have fn: "pst_filename (psymtab_at cat1 k') = pst_filename (psymtab_at cat k')" for k'
      by (simp add: cat1_def PSYMTAB_TO_SYMTAB_filename)
    show ?thesis unfolding eq
      using Cons.IH[OF v1] e1 fn expand_file_psymtabs_keeps[of cat1 k E f L]
      by auto
  qed
qed

lemma ALL_PSYMTABS_expand:
  "ALL_PSYMTABS (snd (PSYMTAB_TO_SYMTAB E cat i j)) = ALL_PSYMTABS cat"
  by (simp add: ALL_PSYMTABS_def ALL_OBJFILE_PSYMTABS_def PSYMTAB_TO_SYMTAB_length
      PSYMTAB_TO_SYMTAB_psymtabs_length cong: map_cong)

text \<open>
  Claim C4. Expanding a partial symtab of the catalog a second time returns the same Full
  Table and leaves the catalog as the first expansion left it; expanding one that already
  has its Full Table returns that table and leaves the catalog unchanged, so nothing is
  parsed twice. The paths that expand see the expanded state: the loop of
  \<open>find_line_symtab\<close> that expands the partial symtabs of a file name changes nothing when
  it is run again, and the loop of \<open>lookup_symbol_aux_psymtabs\<close> passes over a partial
  symtab that is read in.
\<close>

theorem expansion_idempotent:
  assumes "valid_psymtab cat (i, j)" and "PSYMTAB_TO_SYMTAB E cat i j = (s, cat')"
  shows "PSYMTAB_TO_SYMTAB E cat' i j = (s, cat')
       \<and> pst_symtab (psymtab_at cat' (i, j)) = Some s
       \<and> (expanded cat (i, j) \<longrightarrow> cat' = cat \<and> pst_symtab (psymtab_at cat (i, j)) = Some s)
       \<and> expand_file_psymtabs E f (expand_file_psymtabs E f cat (ALL_PSYMTABS cat)) (ALL_PSYMTABS cat)
           = expand_file_psymtabs E f cat (ALL_PSYMTABS cat)
       \<and> (readin (psymtab_at cat' (i, j)) \<longrightarrow>
            psymtabs_loop E cat' bi n l d ((i, j) # rest) = psymtabs_loop E cat' bi n l d rest)"
proof (intro conjI impI)
  have c': "cat' = snd (PSYMTAB_TO_SYMTAB E cat i j)" and s: "s = fst (PSYMTAB_TO_SYMTAB E cat i j)"
    using assms(2) by simp_all
  show ps: "pst_symtab (psymtab_at cat' (i, j)) = Some s"
    unfolding c' s PSYMTAB_TO_SYMTAB_at_self[OF assms(1)] PSYMTAB_TO_SYMTAB_result
    by (simp split: option.splits)
  then show "PSYMTAB_TO_SYMTAB E cat' i j = (s, cat')"
    by (rule PSYMTAB_TO_SYMTAB_expanded)
next
  assume "expanded cat (i, j)"
  then obtain t where t: "pst_symtab (psymtab_at cat (i, j)) = Some t"
    unfolding expanded_def by blast
  from PSYMTAB_TO_SYMTAB_expanded[OF t, of E] assms(2)
  show "cat' = cat" and "pst_symtab (psymtab_at cat (i, j)) = Some s"
    using t by simp_all
next
  define cat1 where "cat1 = expand_file_psymtabs E f cat (ALL_PSYMTABS cat)"
  have "\<forall>k \<in> set (ALL_PSYMTABS cat). pst_filename (psymtab_at cat1 k) = f \<longrightarrow> expanded cat1 k"
    unfolding cat1_def expand_file_psymtabs_filename
    by (rule expand_file_psymtabs_all) (simp add: ALL_PSYMTABS_valid)
  then show "expand_file_psymtabs E f (expand_file_psymtabs E f cat (ALL_PSYMTABS cat)) (ALL_PSYMTABS cat)
           = expand_file_psymtabs E f cat (ALL_PSYMTABS cat)"
    unfolding cat1_def[symmetric] by (rule expand_file_psymtabs_done)
next
  assume "readin (psymtab_at cat' (i, j))"
  then show "psymtabs_loop E cat' bi n l d ((i, j) # rest) = psymtabs_loop E cat' bi n l d rest"
    by simp
qed

theorem expansion_idempotent_witness:
  "valid_psymtab ex_pcat (0, 0)
   \<and> \<not> expanded ex_pcat (0, 0)
   \<and> PSYMTAB_TO_SYMTAB ex_ext (snd (PSYMTAB_TO_SYMTAB ex_ext ex_pcat 0 0)) 0 0
     = PSYMTAB_TO_SYMTAB ex_ext ex_pcat 0 0
   \<and> symtabs (snd (PSYMTAB_TO_SYMTAB ex_ext ex_pcat 0 0) ! 0) = [ex_read_symtab ex_pst]
   \<and> readin (psymtab_at (snd (PSYMTAB_TO_SYMTAB ex_ext ex_pcat 0 0)) (0, 0))
   \<and> psymtabs_loop ex_ext (snd (PSYMTAB_TO_SYMTAB ex_ext ex_pcat 0 0)) GLOBAL_BLOCK ''g'' None
       VAR_DOMAIN [(0, 0)]
     = (Inr None, snd (PSYMTAB_TO_SYMTAB ex_ext ex_pcat 0 0))"
proof -
  have v: "valid_psymtab ex_pcat (0, 0)" by code_simp
  have e: "PSYMTAB_TO_SYMTAB ex_ext ex_pcat 0 0
           = (fst (PSYMTAB_TO_SYMTAB ex_ext ex_pcat 0 0), snd (PSYMTAB_TO_SYMTAB ex_ext ex_pcat 0 0))"
    by simp
  have r: "\<not> expanded ex_pcat (0, 0)"
    "symtabs (snd (PSYMTAB_TO_SYMTAB ex_ext ex_pcat 0 0) ! 0) = [ex_read_symtab ex_pst]"
    "readin (psymtab_at (snd (PSYMTAB_TO_SYMTAB ex_ext ex_pcat 0 0)) (0, 0))"
    by code_simp+
  show ?thesis
    using expansion_idempotent [OF v e, of "''b.c''" GLOBAL_BLOCK "''g''" None VAR_DOMAIN "[]"] v r
    by simp
qed

section \<open>Properties of the search for a partial symtab by address\<close>

lemma word_gt_pred_iff:
  fixes a x :: "'a::len word"
  assumes "x \<noteq> 0"
  shows "(x - 1 < a) = (x \<le> a)"
proof -
  have "unat (x - 1) = unat x - 1" using assms by (rule unat_minus_one)
  moreover have "unat x \<noteq> 0" using assms by (simp add: unat_eq_0)
  ultimately show ?thesis by (auto simp: word_less_nat_alt word_le_nat_alt)
qed

lemma psymbol_inv_step:
  assumes "psymbol_inv pst pc seen st"
  shows "psymbol_inv pst pc (seen @ [p])
           (if sym_domain p = VAR_DOMAIN \<and> sym_class p = LOC_BLOCK \<and> pc \<ge> sym_address p
               \<and> (sym_address p > snd st
                   \<or> (textlow pst = 0 \<and> snd st = 0 \<and> sym_address p = 0))
            then (Some p, sym_address p) else st)"
proof (cases "fst st")
  case None
  show ?thesis
  proof (cases "textlow pst = 0")
    case True
    then show ?thesis using assms None
      by (auto simp: psymbol_inv_def psymbol_fn_def word_neq_0_conv)
  next
    case False
    then show ?thesis using assms None word_gt_pred_iff[OF False]
      by (auto simp: psymbol_inv_def psymbol_fn_def)
  qed
next
  case (Some b)
  then show ?thesis using assms
    by (auto simp: psymbol_inv_def psymbol_fn_def)
qed

lemma psymbol_loop_inv:
  assumes "psymbol_inv pst pc seen st"
  shows "\<exists>st'. psymbol_loop E cat pst pc None ps st = Inr st' \<and> psymbol_inv pst pc (seen @ ps) st'"
  using assms
proof (induction ps arbitrary: seen st)
  case Nil
  then show ?case by simp
next
  case (Cons p ps)
  define c where "c = (sym_domain p = VAR_DOMAIN \<and> sym_class p = LOC_BLOCK \<and> pc \<ge> sym_address p
               \<and> (sym_address p > snd st
                   \<or> (textlow pst = 0 \<and> snd st = 0 \<and> sym_address p = 0)))"
  define st1 where "st1 = (if c then (Some p, sym_address p) else st)"
  have inv1: "psymbol_inv pst pc (seen @ [p]) st1"
    unfolding st1_def c_def using Cons.prems by (rule psymbol_inv_step)
  have "psymbol_loop E cat pst pc None (p # ps) st =
          (if c then psymbol_loop E cat pst pc None ps (Some p, sym_address p)
           else psymbol_loop E cat pst pc None ps st)"
    unfolding c_def by (simp; blast)
  then have eq: "psymbol_loop E cat pst pc None (p # ps) st = psymbol_loop E cat pst pc None ps st1"
    by (cases c) (simp_all add: st1_def)
  from Cons.IH[OF inv1] show ?case unfolding eq by simp
qed

lemma find_pc_sect_psymbol_in_closest:
  "\<exists>r. find_pc_sect_psymbol_in E cat pst pc None = Inr r
     \<and> (case r of
          None \<Rightarrow> \<forall>q \<in> set (function_psymbols pst).
                     \<not> (textlow pst \<le> sym_address q \<and> sym_address q \<le> pc)
        | Some p \<Rightarrow> p \<in> set (function_psymbols pst)
                    \<and> textlow pst \<le> sym_address p \<and> sym_address p \<le> pc
                    \<and> (\<forall>q \<in> set (function_psymbols pst).
                          sym_address q \<le> pc \<longrightarrow> sym_address q \<le> sym_address p))"
proof -
  define b0 where "b0 = (if textlow pst \<noteq> 0 then textlow pst - 1 else 0)"
  have i0: "psymbol_inv pst pc [] (None, b0)" by (simp add: psymbol_inv_def b0_def)
  from psymbol_loop_inv[OF i0, of E cat "pst_globals pst"]
  obtain st1 where s1: "psymbol_loop E cat pst pc None (pst_globals pst) (None, b0) = Inr st1"
    and i1: "psymbol_inv pst pc (pst_globals pst) st1" by auto
  from psymbol_loop_inv[OF i1, of E cat "pst_statics pst"]
  obtain st2 where s2: "psymbol_loop E cat pst pc None (pst_statics pst) st1 = Inr st2"
    and i2: "psymbol_inv pst pc (pst_globals pst @ pst_statics pst) st2" by auto
  have r: "find_pc_sect_psymbol_in E cat pst pc None = Inr (fst st2)"
    using s1 s2 by (simp add: find_pc_sect_psymbol_in_def b0_def split_beta)
  show ?thesis
    unfolding r using i2
    by (cases "fst st2") (auto simp: psymbol_inv_def function_psymbols_def psymbol_fn_def)
qed

lemma this_addr_ge_textlow:
  "textlow (psymtab_at cat pst) \<le> this_addr E cat pc pst"
  using find_pc_sect_psymbol_in_closest[of E cat "psymtab_at cat pst" pc]
  by (auto simp: this_addr_def split: option.splits)

text \<open>The loop of the closer search.\<close>

lemma closer_loop_step:
  "closer_loop E cat pc None m i (t # ts) bp ba =
     (if contains_pc cat pc (i, t) then
        (if psymbol_at_msymbol E cat pc m (i, t) then Inr t
         else if this_addr E cat pc (i, t) > ba
              then closer_loop E cat pc None m i ts t (this_addr E cat pc (i, t))
              else closer_loop E cat pc None m i ts bp ba)
      else closer_loop E cat pc None m i ts bp ba)"
  using find_pc_sect_psymbol_in_closest[of E cat "psymtab_at cat (i, t)" pc]
  by (auto simp: contains_pc_def psymbol_at_msymbol_def this_addr_def Let_def
      split: option.splits)

lemma closer_loop_first_match:
  assumes "\<forall>t \<in> set pre. \<not> (contains_pc cat pc (i, t) \<and> psymbol_at_msymbol E cat pc m (i, t))"
      and "contains_pc cat pc (i, k)" and "psymbol_at_msymbol E cat pc m (i, k)"
  shows "closer_loop E cat pc None m i (pre @ k # post) bp ba = Inr k"
  using assms(1)
proof (induction pre arbitrary: bp ba)
  case Nil
  then show ?case using assms(2,3) by (simp add: closer_loop_step del: closer_loop.simps)
next
  case (Cons t pre)
  then show ?case
    by (simp add: closer_loop_step del: closer_loop.simps)
qed

lemma closer_loop_best:
  assumes "\<forall>t \<in> set ts. \<not> (contains_pc cat pc (i, t) \<and> psymbol_at_msymbol E cat pc m (i, t))"
  shows "\<exists>k. closer_loop E cat pc None m i ts bp ba = Inr k
     \<and> ((k = bp \<and> (\<forall>t \<in> set ts. contains_pc cat pc (i, t) \<longrightarrow> this_addr E cat pc (i, t) \<le> ba))
        \<or> (\<exists>pre post. ts = pre @ k # post
              \<and> contains_pc cat pc (i, k) \<and> ba < this_addr E cat pc (i, k)
              \<and> (\<forall>t \<in> set ts. contains_pc cat pc (i, t)
                    \<longrightarrow> this_addr E cat pc (i, t) \<le> this_addr E cat pc (i, k))
              \<and> (\<forall>t \<in> set pre. contains_pc cat pc (i, t)
                    \<longrightarrow> this_addr E cat pc (i, t) < this_addr E cat pc (i, k))))"
  using assms
proof (induction ts arbitrary: bp ba)
  case Nil
  then show ?case by simp
next
  case (Cons t ts)
  have rest: "\<forall>t \<in> set ts. \<not> (contains_pc cat pc (i, t) \<and> psymbol_at_msymbol E cat pc m (i, t))"
    using Cons.prems by simp
  show ?case
  proof (cases "contains_pc cat pc (i, t) \<and> this_addr E cat pc (i, t) > ba")
    case True
    have eq: "closer_loop E cat pc None m i (t # ts) bp ba
              = closer_loop E cat pc None m i ts t (this_addr E cat pc (i, t))"
      using True Cons.prems by (simp add: closer_loop_step del: closer_loop.simps)
    from Cons.IH[OF rest, of t "this_addr E cat pc (i, t)"]
    obtain k where k: "closer_loop E cat pc None m i ts t (this_addr E cat pc (i, t)) = Inr k"
      and d: "(k = t \<and> (\<forall>u \<in> set ts. contains_pc cat pc (i, u)
                 \<longrightarrow> this_addr E cat pc (i, u) \<le> this_addr E cat pc (i, t)))
        \<or> (\<exists>pre post. ts = pre @ k # post
              \<and> contains_pc cat pc (i, k) \<and> this_addr E cat pc (i, t) < this_addr E cat pc (i, k)
              \<and> (\<forall>u \<in> set ts. contains_pc cat pc (i, u)
                    \<longrightarrow> this_addr E cat pc (i, u) \<le> this_addr E cat pc (i, k))
              \<and> (\<forall>u \<in> set pre. contains_pc cat pc (i, u)
                    \<longrightarrow> this_addr E cat pc (i, u) < this_addr E cat pc (i, k)))"
      by blast
    from d show ?thesis
    proof
      assume a: "k = t \<and> (\<forall>u \<in> set ts. contains_pc cat pc (i, u)
                 \<longrightarrow> this_addr E cat pc (i, u) \<le> this_addr E cat pc (i, t))"
      have "t # ts = [] @ k # ts" using a by simp
      then show ?thesis unfolding eq using k a True
        by (intro exI[of _ k] conjI disjI2 exI[of _ "[]"] exI[of _ ts]) auto
    next
      assume "\<exists>pre post. ts = pre @ k # post
              \<and> contains_pc cat pc (i, k) \<and> this_addr E cat pc (i, t) < this_addr E cat pc (i, k)
              \<and> (\<forall>u \<in> set ts. contains_pc cat pc (i, u)
                    \<longrightarrow> this_addr E cat pc (i, u) \<le> this_addr E cat pc (i, k))
              \<and> (\<forall>u \<in> set pre. contains_pc cat pc (i, u)
                    \<longrightarrow> this_addr E cat pc (i, u) < this_addr E cat pc (i, k))"
      then obtain pre post where pp: "ts = pre @ k # post"
        and c: "contains_pc cat pc (i, k)" and lt: "this_addr E cat pc (i, t) < this_addr E cat pc (i, k)"
        and mx: "\<forall>u \<in> set ts. contains_pc cat pc (i, u)
                    \<longrightarrow> this_addr E cat pc (i, u) \<le> this_addr E cat pc (i, k)"
        and fs: "\<forall>u \<in> set pre. contains_pc cat pc (i, u)
                    \<longrightarrow> this_addr E cat pc (i, u) < this_addr E cat pc (i, k)"
        by blast
      have sp: "t # ts = (t # pre) @ k # post" using pp by simp
      have balt: "ba < this_addr E cat pc (i, k)" using True lt by auto
      show ?thesis unfolding eq using k c lt mx fs sp balt
        by (intro exI[of _ k] conjI disjI2 exI[of _ "t # pre"] exI[of _ post]) auto
    qed
  next
    case False
    have eq: "closer_loop E cat pc None m i (t # ts) bp ba
              = closer_loop E cat pc None m i ts bp ba"
      using False Cons.prems by (auto simp add: closer_loop_step simp del: closer_loop.simps)
    from Cons.IH[OF rest, of bp ba]
    obtain k where k: "closer_loop E cat pc None m i ts bp ba = Inr k"
      and d: "(k = bp \<and> (\<forall>u \<in> set ts. contains_pc cat pc (i, u) \<longrightarrow> this_addr E cat pc (i, u) \<le> ba))
        \<or> (\<exists>pre post. ts = pre @ k # post
              \<and> contains_pc cat pc (i, k) \<and> ba < this_addr E cat pc (i, k)
              \<and> (\<forall>u \<in> set ts. contains_pc cat pc (i, u)
                    \<longrightarrow> this_addr E cat pc (i, u) \<le> this_addr E cat pc (i, k))
              \<and> (\<forall>u \<in> set pre. contains_pc cat pc (i, u)
                    \<longrightarrow> this_addr E cat pc (i, u) < this_addr E cat pc (i, k)))"
      by blast
    have tle: "contains_pc cat pc (i, t) \<Longrightarrow> this_addr E cat pc (i, t) \<le> ba"
      using False by auto
    from d show ?thesis
    proof
      assume a: "k = bp \<and> (\<forall>u \<in> set ts. contains_pc cat pc (i, u) \<longrightarrow> this_addr E cat pc (i, u) \<le> ba)"
      then show ?thesis unfolding eq using k tle by (intro exI[of _ k]) auto
    next
      assume "\<exists>pre post. ts = pre @ k # post
              \<and> contains_pc cat pc (i, k) \<and> ba < this_addr E cat pc (i, k)
              \<and> (\<forall>u \<in> set ts. contains_pc cat pc (i, u)
                    \<longrightarrow> this_addr E cat pc (i, u) \<le> this_addr E cat pc (i, k))
              \<and> (\<forall>u \<in> set pre. contains_pc cat pc (i, u)
                    \<longrightarrow> this_addr E cat pc (i, u) < this_addr E cat pc (i, k))"
      then obtain pre post where pp: "ts = pre @ k # post"
        and c: "contains_pc cat pc (i, k)" and lt: "ba < this_addr E cat pc (i, k)"
        and mx: "\<forall>u \<in> set ts. contains_pc cat pc (i, u)
                    \<longrightarrow> this_addr E cat pc (i, u) \<le> this_addr E cat pc (i, k)"
        and fs: "\<forall>u \<in> set pre. contains_pc cat pc (i, u)
                    \<longrightarrow> this_addr E cat pc (i, u) < this_addr E cat pc (i, k)"
        by blast
      have sp: "t # ts = (t # pre) @ k # post" using pp by simp
      have tlt: "contains_pc cat pc (i, t) \<Longrightarrow> this_addr E cat pc (i, t) < this_addr E cat pc (i, k)"
        using tle lt by auto
      show ?thesis unfolding eq using k c lt mx fs sp tlt
        by (intro exI[of _ k] conjI disjI2 exI[of _ "t # pre"] exI[of _ post]) auto
    qed
  qed
qed

lemma upt_split_prefix:
  "[j..<n] = pre @ k # post \<Longrightarrow> pre = [j..<k] \<and> j \<le> k \<and> k < n"
proof (induction pre arbitrary: j)
  case Nil
  then show ?case by (simp add: upt_eq_Cons_conv)
next
  case (Cons a pre)
  from Cons.prems have jn: "j < n" and a: "a = j" and rest: "[Suc j..<n] = pre @ k # post"
    by (auto simp: upt_eq_Cons_conv)
  from Cons.IH[OF rest] have "pre = [Suc j..<k]" "Suc j \<le> k" "k < n" by simp_all
  then show ?case using a by (simp add: upt_conv_Cons)
qed

lemma addrmap_loop_none:
  "\<forall>i \<in> set idxs. psymtabs_addrmap (cat ! i) = None
   \<Longrightarrow> addrmap_loop E cat pc section msymbol idxs = Inr None"
  by (induction idxs) auto

lemma range_loop_skip:
  "\<forall>k \<in> set pre. \<not> contains_pc cat pc k
   \<Longrightarrow> range_loop E cat pc section msymbol (pre @ rest) = range_loop E cat pc section msymbol rest"
  by (induction pre) (auto simp: contains_pc_def)

lemma find_pc_sect_psymtab_not_data:
  assumes "\<forall>obj \<in> set cat. psymtabs_addrmap obj = None"
      and "lookup_minimal_symbol_by_pc_section E pc None = msymbol"
      and "\<not> msymbol_is_data msymbol"
      and "ALL_PSYMTABS cat = pre @ (i, j) # post"
      and "\<forall>k \<in> set pre. \<not> contains_pc cat pc k"
      and "contains_pc cat pc (i, j)"
  shows "(\<not> OBJF_REORDERED (cat ! i) \<or> msymbol = None \<longrightarrow>
           find_pc_sect_psymtab E cat pc None = Inr (Some (i, j)))
       \<and> (OBJF_REORDERED (cat ! i) \<and> msymbol = Some m \<longrightarrow>
           (\<exists>k. find_pc_sect_psymtab E cat pc None = Inr (Some (i, k))
              \<and> j \<le> k \<and> k < length (psymtabs (cat ! i)) \<and> contains_pc cat pc (i, k)
              \<and> ((\<exists>t. j \<le> t \<and> t < length (psymtabs (cat ! i)) \<and> contains_pc cat pc (i, t)
                        \<and> psymbol_at_msymbol E cat pc m (i, t)) \<longrightarrow>
                   psymbol_at_msymbol E cat pc m (i, k)
                   \<and> (\<forall>t. j \<le> t \<and> t < k \<longrightarrow>
                         \<not> (contains_pc cat pc (i, t) \<and> psymbol_at_msymbol E cat pc m (i, t))))
              \<and> (\<not> (\<exists>t. j \<le> t \<and> t < length (psymtabs (cat ! i)) \<and> contains_pc cat pc (i, t)
                        \<and> psymbol_at_msymbol E cat pc m (i, t)) \<longrightarrow>
                   (\<forall>t. j \<le> t \<and> t < length (psymtabs (cat ! i)) \<and> contains_pc cat pc (i, t) \<longrightarrow>
                        this_addr E cat pc (i, t) \<le> this_addr E cat pc (i, k))
                   \<and> (\<forall>t. j \<le> t \<and> t < k \<and> contains_pc cat pc (i, t) \<longrightarrow>
                        this_addr E cat pc (i, t) < this_addr E cat pc (i, k)))))
       \<and> (\<forall>pst. \<exists>r. find_pc_sect_psymbol_in E cat pst pc None = Inr r
             \<and> (case r of
                  None \<Rightarrow> \<forall>q \<in> set (function_psymbols pst).
                             \<not> (textlow pst \<le> sym_address q \<and> sym_address q \<le> pc)
                | Some p \<Rightarrow> p \<in> set (function_psymbols pst)
                            \<and> textlow pst \<le> sym_address p \<and> sym_address p \<le> pc
                            \<and> (\<forall>q \<in> set (function_psymbols pst).
                                  sym_address q \<le> pc \<longrightarrow> sym_address q \<le> sym_address p)))"
proof -
  define n where "n = length (psymtabs (cat ! i))"
  have am: "addrmap_loop E cat pc None msymbol [0..<length cat] = Inr None"
    by (rule addrmap_loop_none) (use assms(1) in auto)
  have top: "find_pc_sect_psymtab E cat pc None =
               (case find_pc_sect_psymtab_closer E cat pc None (i, j) msymbol of
                  Inl e \<Rightarrow> Inl e | Inr best_pst \<Rightarrow> Inr (Some (i, best_pst)))"
    using assms(2,3,6) am
    by (simp add: find_pc_sect_psymtab_def assms(4) range_loop_skip[OF assms(5)] contains_pc_def
        split: sum.splits)
  have "(i, j) \<in> set (ALL_PSYMTABS cat)" using assms(4) by simp
  then have jn: "j < n"
    by (auto simp: ALL_PSYMTABS_def ALL_OBJFILE_PSYMTABS_def n_def)
  have part1: "find_pc_sect_psymtab E cat pc None = Inr (Some (i, j))"
    if "\<not> OBJF_REORDERED (cat ! i) \<or> msymbol = None"
    using that unfolding top by (auto simp: find_pc_sect_psymtab_closer_def)
  have part2: "\<exists>k. find_pc_sect_psymtab E cat pc None = Inr (Some (i, k))
              \<and> j \<le> k \<and> k < n \<and> contains_pc cat pc (i, k)
              \<and> ((\<exists>t. j \<le> t \<and> t < n \<and> contains_pc cat pc (i, t)
                        \<and> psymbol_at_msymbol E cat pc m (i, t)) \<longrightarrow>
                   psymbol_at_msymbol E cat pc m (i, k)
                   \<and> (\<forall>t. j \<le> t \<and> t < k \<longrightarrow>
                         \<not> (contains_pc cat pc (i, t) \<and> psymbol_at_msymbol E cat pc m (i, t))))
              \<and> (\<not> (\<exists>t. j \<le> t \<and> t < n \<and> contains_pc cat pc (i, t)
                        \<and> psymbol_at_msymbol E cat pc m (i, t)) \<longrightarrow>
                   (\<forall>t. j \<le> t \<and> t < n \<and> contains_pc cat pc (i, t) \<longrightarrow>
                        this_addr E cat pc (i, t) \<le> this_addr E cat pc (i, k))
                   \<and> (\<forall>t. j \<le> t \<and> t < k \<and> contains_pc cat pc (i, t) \<longrightarrow>
                        this_addr E cat pc (i, t) < this_addr E cat pc (i, k)))"
    if r: "OBJF_REORDERED (cat ! i) \<and> msymbol = Some m"
  proof -
    define ba where "ba = textlow (psymtab_at cat (i, j))"
    have cl: "find_pc_sect_psymtab_closer E cat pc None (i, j) msymbol
              = closer_loop E cat pc None m i [j..<n] j ba"
      using r by (simp add: find_pc_sect_psymtab_closer_def n_def ba_def)
    show ?thesis
    proof (cases "\<exists>t \<in> set [j..<n]. contains_pc cat pc (i, t) \<and> psymbol_at_msymbol E cat pc m (i, t)")
      case True
      then obtain pre' k post' where sp: "[j..<n] = pre' @ k # post'"
        and k: "contains_pc cat pc (i, k) \<and> psymbol_at_msymbol E cat pc m (i, k)"
        and fst: "\<forall>t \<in> set pre'. \<not> (contains_pc cat pc (i, t) \<and> psymbol_at_msymbol E cat pc m (i, t))"
        using split_list_first_prop[of "[j..<n]"
                "\<lambda>t. contains_pc cat pc (i, t) \<and> psymbol_at_msymbol E cat pc m (i, t)"]
        by blast
      from upt_split_prefix[OF sp] have pre': "pre' = [j..<k]" and jk: "j \<le> k" and kn: "k < n"
        by simp_all
      have res: "closer_loop E cat pc None m i [j..<n] j ba = Inr k"
        unfolding sp using fst k by (intro closer_loop_first_match) auto
      have f: "find_pc_sect_psymtab E cat pc None = Inr (Some (i, k))"
        unfolding top cl res by simp
      have ex: "\<exists>t. j \<le> t \<and> t < n \<and> contains_pc cat pc (i, t) \<and> psymbol_at_msymbol E cat pc m (i, t)"
        using k jk kn by blast
      have first: "\<forall>t. j \<le> t \<and> t < k \<longrightarrow>
                     \<not> (contains_pc cat pc (i, t) \<and> psymbol_at_msymbol E cat pc m (i, t))"
        using fst pre' by auto
      show ?thesis
        using f jk kn k ex first by (intro exI[of _ k]) blast
    next
      case False
      then have none: "\<forall>t \<in> set [j..<n]. \<not> (contains_pc cat pc (i, t) \<and> psymbol_at_msymbol E cat pc m (i, t))"
        by blast
      have nex: "\<not> (\<exists>t. j \<le> t \<and> t < n \<and> contains_pc cat pc (i, t) \<and> psymbol_at_msymbol E cat pc m (i, t))"
        using False by auto
      from closer_loop_best[OF none, of j ba]
      obtain k where res: "closer_loop E cat pc None m i [j..<n] j ba = Inr k"
        and d: "(k = j \<and> (\<forall>t \<in> set [j..<n]. contains_pc cat pc (i, t) \<longrightarrow> this_addr E cat pc (i, t) \<le> ba))
          \<or> (\<exists>pre' post'. [j..<n] = pre' @ k # post'
              \<and> contains_pc cat pc (i, k) \<and> ba < this_addr E cat pc (i, k)
              \<and> (\<forall>t \<in> set [j..<n]. contains_pc cat pc (i, t)
                    \<longrightarrow> this_addr E cat pc (i, t) \<le> this_addr E cat pc (i, k))
              \<and> (\<forall>t \<in> set pre'. contains_pc cat pc (i, t)
                    \<longrightarrow> this_addr E cat pc (i, t) < this_addr E cat pc (i, k)))"
        by blast
      have f: "find_pc_sect_psymtab E cat pc None = Inr (Some (i, k))"
        unfolding top cl res by simp
      from d show ?thesis
      proof
        assume a: "k = j \<and> (\<forall>t \<in> set [j..<n]. contains_pc cat pc (i, t) \<longrightarrow> this_addr E cat pc (i, t) \<le> ba)"
        have "ba \<le> this_addr E cat pc (i, j)" unfolding ba_def by (rule this_addr_ge_textlow)
        then have mx: "\<forall>t. j \<le> t \<and> t < n \<and> contains_pc cat pc (i, t) \<longrightarrow>
                        this_addr E cat pc (i, t) \<le> this_addr E cat pc (i, k)"
          using a by fastforce
        show ?thesis
          using f a jn assms(6) nex mx by (intro exI[of _ k]) auto
      next
        assume "\<exists>pre' post'. [j..<n] = pre' @ k # post'
              \<and> contains_pc cat pc (i, k) \<and> ba < this_addr E cat pc (i, k)
              \<and> (\<forall>t \<in> set [j..<n]. contains_pc cat pc (i, t)
                    \<longrightarrow> this_addr E cat pc (i, t) \<le> this_addr E cat pc (i, k))
              \<and> (\<forall>t \<in> set pre'. contains_pc cat pc (i, t)
                    \<longrightarrow> this_addr E cat pc (i, t) < this_addr E cat pc (i, k))"
        then obtain pre' post' where sp: "[j..<n] = pre' @ k # post'"
          and c: "contains_pc cat pc (i, k)"
          and mx: "\<forall>t \<in> set [j..<n]. contains_pc cat pc (i, t)
                    \<longrightarrow> this_addr E cat pc (i, t) \<le> this_addr E cat pc (i, k)"
          and fs: "\<forall>t \<in> set pre'. contains_pc cat pc (i, t)
                    \<longrightarrow> this_addr E cat pc (i, t) < this_addr E cat pc (i, k)"
          by blast
        from upt_split_prefix[OF sp] have pre': "pre' = [j..<k]" and jk: "j \<le> k" and kn: "k < n"
          by simp_all
        have mx': "\<forall>t. j \<le> t \<and> t < n \<and> contains_pc cat pc (i, t) \<longrightarrow>
                        this_addr E cat pc (i, t) \<le> this_addr E cat pc (i, k)"
          using mx by auto
        have fs': "\<forall>t. j \<le> t \<and> t < k \<and> contains_pc cat pc (i, t) \<longrightarrow>
                        this_addr E cat pc (i, t) < this_addr E cat pc (i, k)"
          using fs pre' by auto
        show ?thesis
          using f jk kn c nex mx' fs' by (intro exI[of _ k]) blast
      qed
    qed
  qed
  show ?thesis
    using part1 part2 find_pc_sect_psymbol_in_closest[of E cat _ pc]
    unfolding n_def by blast
qed

text \<open>
  Claim C5, amended. With no addrmap entry for the address and no section given,
  \<open>find_pc_sect_psymtab\<close> returns no partial symtab for an address that the minimal symbols
  know as data. For any other address it takes the first partial symtab whose range holds
  the address. It returns that one when its objfile is not
  flagged \<open>OBJF_REORDERED\<close> or no minimal symbol is known for the address. Otherwise it
  compares the partial symtabs of that objfile from that one on whose ranges hold the
  address: it returns the first whose partial symbol found for the address lies at the
  address of the minimal symbol, and when there is none, the first for which the address of
  that partial symbol (\<open>textlow\<close> when none is found) is greatest. The partial symbol found
  for an address is a function of the partial symtab at or above \<open>textlow\<close> and at or below
  the address, and no function of the partial symtab at or below the address lies above it.
\<close>

theorem find_pc_sect_psymtab_overlap:
  assumes "\<forall>obj \<in> set cat. psymtabs_addrmap obj = None"
      and "lookup_minimal_symbol_by_pc_section E pc None = msymbol"
      and "ALL_PSYMTABS cat = pre @ (i, j) # post"
      and "\<forall>k \<in> set pre. \<not> contains_pc cat pc k"
      and "contains_pc cat pc (i, j)"
  shows "(msymbol_is_data msymbol \<longrightarrow> find_pc_sect_psymtab E cat pc None = Inr None)
       \<and> (\<not> msymbol_is_data msymbol \<and> (\<not> OBJF_REORDERED (cat ! i) \<or> msymbol = None) \<longrightarrow>
           find_pc_sect_psymtab E cat pc None = Inr (Some (i, j)))
       \<and> (\<not> msymbol_is_data msymbol \<and> OBJF_REORDERED (cat ! i) \<and> msymbol = Some m \<longrightarrow>
           (\<exists>k. find_pc_sect_psymtab E cat pc None = Inr (Some (i, k))
              \<and> j \<le> k \<and> k < length (psymtabs (cat ! i)) \<and> contains_pc cat pc (i, k)
              \<and> ((\<exists>t. j \<le> t \<and> t < length (psymtabs (cat ! i)) \<and> contains_pc cat pc (i, t)
                        \<and> psymbol_at_msymbol E cat pc m (i, t)) \<longrightarrow>
                   psymbol_at_msymbol E cat pc m (i, k)
                   \<and> (\<forall>t. j \<le> t \<and> t < k \<longrightarrow>
                         \<not> (contains_pc cat pc (i, t) \<and> psymbol_at_msymbol E cat pc m (i, t))))
              \<and> (\<not> (\<exists>t. j \<le> t \<and> t < length (psymtabs (cat ! i)) \<and> contains_pc cat pc (i, t)
                        \<and> psymbol_at_msymbol E cat pc m (i, t)) \<longrightarrow>
                   (\<forall>t. j \<le> t \<and> t < length (psymtabs (cat ! i)) \<and> contains_pc cat pc (i, t) \<longrightarrow>
                        this_addr E cat pc (i, t) \<le> this_addr E cat pc (i, k))
                   \<and> (\<forall>t. j \<le> t \<and> t < k \<and> contains_pc cat pc (i, t) \<longrightarrow>
                        this_addr E cat pc (i, t) < this_addr E cat pc (i, k)))))
       \<and> (\<forall>pst. \<exists>r. find_pc_sect_psymbol_in E cat pst pc None = Inr r
             \<and> (case r of
                  None \<Rightarrow> \<forall>q \<in> set (function_psymbols pst).
                             \<not> (textlow pst \<le> sym_address q \<and> sym_address q \<le> pc)
                | Some p \<Rightarrow> p \<in> set (function_psymbols pst)
                            \<and> textlow pst \<le> sym_address p \<and> sym_address p \<le> pc
                            \<and> (\<forall>q \<in> set (function_psymbols pst).
                                  sym_address q \<le> pc \<longrightarrow> sym_address q \<le> sym_address p)))"
proof (intro conjI)
  show "msymbol_is_data msymbol \<longrightarrow> find_pc_sect_psymtab E cat pc None = Inr None"
    using assms(2) by (simp add: find_pc_sect_psymtab_def)
next
  show "\<not> msymbol_is_data msymbol \<and> (\<not> OBJF_REORDERED (cat ! i) \<or> msymbol = None) \<longrightarrow>
           find_pc_sect_psymtab E cat pc None = Inr (Some (i, j))"
  proof
    assume h: "\<not> msymbol_is_data msymbol \<and> (\<not> OBJF_REORDERED (cat ! i) \<or> msymbol = None)"
    then have nd: "\<not> msymbol_is_data msymbol" by simp
    from find_pc_sect_psymtab_not_data [OF assms(1,2) nd assms(3,4,5), THEN conjunct1] h
    show "find_pc_sect_psymtab E cat pc None = Inr (Some (i, j))" by blast
  qed
next
  show "\<not> msymbol_is_data msymbol \<and> OBJF_REORDERED (cat ! i) \<and> msymbol = Some m \<longrightarrow>
           (\<exists>k. find_pc_sect_psymtab E cat pc None = Inr (Some (i, k))
              \<and> j \<le> k \<and> k < length (psymtabs (cat ! i)) \<and> contains_pc cat pc (i, k)
              \<and> ((\<exists>t. j \<le> t \<and> t < length (psymtabs (cat ! i)) \<and> contains_pc cat pc (i, t)
                        \<and> psymbol_at_msymbol E cat pc m (i, t)) \<longrightarrow>
                   psymbol_at_msymbol E cat pc m (i, k)
                   \<and> (\<forall>t. j \<le> t \<and> t < k \<longrightarrow>
                         \<not> (contains_pc cat pc (i, t) \<and> psymbol_at_msymbol E cat pc m (i, t))))
              \<and> (\<not> (\<exists>t. j \<le> t \<and> t < length (psymtabs (cat ! i)) \<and> contains_pc cat pc (i, t)
                        \<and> psymbol_at_msymbol E cat pc m (i, t)) \<longrightarrow>
                   (\<forall>t. j \<le> t \<and> t < length (psymtabs (cat ! i)) \<and> contains_pc cat pc (i, t) \<longrightarrow>
                        this_addr E cat pc (i, t) \<le> this_addr E cat pc (i, k))
                   \<and> (\<forall>t. j \<le> t \<and> t < k \<and> contains_pc cat pc (i, t) \<longrightarrow>
                        this_addr E cat pc (i, t) < this_addr E cat pc (i, k))))"
  proof
    assume h: "\<not> msymbol_is_data msymbol \<and> OBJF_REORDERED (cat ! i) \<and> msymbol = Some m"
    then have nd: "\<not> msymbol_is_data msymbol" and rm: "OBJF_REORDERED (cat ! i) \<and> msymbol = Some m"
      by blast+
    from find_pc_sect_psymtab_not_data [OF assms(1,2) nd assms(3,4,5), THEN conjunct2,
        THEN conjunct1, of m, rule_format, OF rm]
    show "\<exists>k. find_pc_sect_psymtab E cat pc None = Inr (Some (i, k))
              \<and> j \<le> k \<and> k < length (psymtabs (cat ! i)) \<and> contains_pc cat pc (i, k)
              \<and> ((\<exists>t. j \<le> t \<and> t < length (psymtabs (cat ! i)) \<and> contains_pc cat pc (i, t)
                        \<and> psymbol_at_msymbol E cat pc m (i, t)) \<longrightarrow>
                   psymbol_at_msymbol E cat pc m (i, k)
                   \<and> (\<forall>t. j \<le> t \<and> t < k \<longrightarrow>
                         \<not> (contains_pc cat pc (i, t) \<and> psymbol_at_msymbol E cat pc m (i, t))))
              \<and> (\<not> (\<exists>t. j \<le> t \<and> t < length (psymtabs (cat ! i)) \<and> contains_pc cat pc (i, t)
                        \<and> psymbol_at_msymbol E cat pc m (i, t)) \<longrightarrow>
                   (\<forall>t. j \<le> t \<and> t < length (psymtabs (cat ! i)) \<and> contains_pc cat pc (i, t) \<longrightarrow>
                        this_addr E cat pc (i, t) \<le> this_addr E cat pc (i, k))
                   \<and> (\<forall>t. j \<le> t \<and> t < k \<and> contains_pc cat pc (i, t) \<longrightarrow>
                        this_addr E cat pc (i, t) < this_addr E cat pc (i, k)))" .
  qed
next
  show "\<forall>pst. \<exists>r. find_pc_sect_psymbol_in E cat pst pc None = Inr r
             \<and> (case r of
                  None \<Rightarrow> \<forall>q \<in> set (function_psymbols pst).
                             \<not> (textlow pst \<le> sym_address q \<and> sym_address q \<le> pc)
                | Some p \<Rightarrow> p \<in> set (function_psymbols pst)
                            \<and> textlow pst \<le> sym_address p \<and> sym_address p \<le> pc
                            \<and> (\<forall>q \<in> set (function_psymbols pst).
                                  sym_address q \<le> pc \<longrightarrow> sym_address q \<le> sym_address p))"
    using find_pc_sect_psymbol_in_closest [of E cat _ pc] by blast
qed

theorem find_pc_sect_psymtab_overlap_witness:
  "find_pc_sect_psymtab ex_msym_ext (ex_overlap_cat True) 70 None = Inr (Some (0, 1))
   \<and> contains_pc (ex_overlap_cat True) 70 (0, 0) \<and> contains_pc (ex_overlap_cat True) 70 (0, 1)
   \<and> this_addr ex_msym_ext (ex_overlap_cat True) 70 (0, 0) = 10
   \<and> this_addr ex_msym_ext (ex_overlap_cat True) 70 (0, 1) = 60
   \<and> psymbol_at_msymbol ex_msym_ext (ex_overlap_cat True) 70 (ex_msymbol ''f60'' 60 mst_text) (0, 1)
   \<and> find_pc_sect_psymtab ex_ext (ex_overlap_cat True) 70 None = Inr (Some (0, 0))
   \<and> find_pc_sect_psymtab ex_data_ext (ex_overlap_cat True) 70 None = Inr None"
proof -
  have a: "\<forall>obj \<in> set (ex_overlap_cat True). psymtabs_addrmap obj = None" by code_simp
  have m: "lookup_minimal_symbol_by_pc_section ex_msym_ext 70 None
           = Some (ex_msymbol ''f60'' 60 mst_text)"
    "lookup_minimal_symbol_by_pc_section ex_ext 70 None = None"
    "lookup_minimal_symbol_by_pc_section ex_data_ext 70 None
           = Some (ex_msymbol ''d'' 0x20 mst_data)"
    by code_simp+
  have nd: "\<not> msymbol_is_data (Some (ex_msymbol ''f60'' 60 mst_text))" "\<not> msymbol_is_data None"
    "msymbol_is_data (Some (ex_msymbol ''d'' 0x20 mst_data))"
    by code_simp+
  have l: "ALL_PSYMTABS (ex_overlap_cat True) = [] @ (0, 0) # [(0, 1)]" by code_simp
  have p: "\<forall>k \<in> set []. \<not> contains_pc (ex_overlap_cat True) 70 k" by simp
  have c: "contains_pc (ex_overlap_cat True) 70 (0, 0)" by code_simp
  have r: "OBJF_REORDERED (ex_overlap_cat True ! 0)" by code_simp
  have e: "find_pc_sect_psymtab ex_msym_ext (ex_overlap_cat True) 70 None = Inr (Some (0, 1))"
    "contains_pc (ex_overlap_cat True) 70 (0, 1)"
    "this_addr ex_msym_ext (ex_overlap_cat True) 70 (0, 0) = 10"
    "this_addr ex_msym_ext (ex_overlap_cat True) 70 (0, 1) = 60"
    "psymbol_at_msymbol ex_msym_ext (ex_overlap_cat True) 70 (ex_msymbol ''f60'' 60 mst_text) (0, 1)"
    by code_simp+
  from find_pc_sect_psymtab_overlap [OF a m(2) l p c, THEN conjunct2, THEN conjunct1] nd(2)
  have n: "find_pc_sect_psymtab ex_ext (ex_overlap_cat True) 70 None = Inr (Some (0, 0))"
    by simp
  from find_pc_sect_psymtab_overlap [OF a m(3) l p c, THEN conjunct1] nd(3)
  have d: "find_pc_sect_psymtab ex_data_ext (ex_overlap_cat True) 70 None = Inr None"
    by simp
  from find_pc_sect_psymtab_overlap [OF a m(1) l p c, THEN conjunct2, THEN conjunct2,
      THEN conjunct1, of "ex_msymbol ''f60'' 60 mst_text"] r nd(1)
  have "\<exists>k. find_pc_sect_psymtab ex_msym_ext (ex_overlap_cat True) 70 None = Inr (Some (0, k))"
    by blast
  with e c n d show ?thesis by simp
qed

text \<open>
  The claim as stated fails where the objfile is not flagged \<open>OBJF_REORDERED\<close>: of the two
  partial symtabs with the ranges [0, 100) and [50, 150) and functions at 10 and 60, the
  query for the address 70 returns the first, whose function lies at 10.
\<close>

theorem first_unit_wins_counterexample:
  "contains_pc (ex_overlap_cat False) 70 (0, 0) \<and> contains_pc (ex_overlap_cat False) 70 (0, 1)
   \<and> this_addr ex_msym_ext (ex_overlap_cat False) 70 (0, 0) = 10
   \<and> this_addr ex_msym_ext (ex_overlap_cat False) 70 (0, 1) = 60
   \<and> find_pc_sect_psymtab ex_msym_ext (ex_overlap_cat False) 70 None = Inr (Some (0, 0))"
  by code_simp

section \<open>Properties of the search for a line by address\<close>



















section \<open>Properties of the search for symbols\<close>

lemma concat_map_update_mono:
  assumes "i < length cat \<Longrightarrow> set (f (cat ! i)) \<subseteq> set (f x)"
  shows "set (concat (map f cat)) \<subseteq> set (concat (map f (cat[i := x])))"
proof
  fix y assume "y \<in> set (concat (map f cat))"
  then obtain a where a: "a \<in> set cat" "y \<in> set (f a)" by auto
  then obtain k where k: "k < length cat" "y \<in> set (f (cat ! k))"
    by (metis in_set_conv_nth)
  show "y \<in> set (concat (map f (cat[i := x])))"
  proof (cases "k = i")
    case True
    with k assms have "y \<in> set (f x)" by auto
    moreover from k True have "x \<in> set (cat[i := x])" by (simp add: set_update_memI)
    ultimately show ?thesis by auto
  next
    case False
    with k have "cat[i := x] ! k = cat ! k" "k < length (cat[i := x])" by simp_all
    with k have "cat ! k \<in> set (cat[i := x])" by (metis nth_mem)
    with k show ?thesis by auto
  qed
qed

lemma PSYMTAB_TO_SYMTAB_symtabs:
  "set (ALL_SYMTABS cat) \<subseteq> set (ALL_SYMTABS (snd (PSYMTAB_TO_SYMTAB E cat i j)))"
proof (cases "pst_symtab (psymtabs (cat ! i) ! j)")
  case None
  have "set (concat (map symtabs cat)) \<subseteq> set (concat (map symtabs (cat[i := x])))"
    if "symtabs x = t # symtabs (cat ! i)" for x t
    by (rule concat_map_update_mono) (use that in auto)
  with None show ?thesis
    by (simp add: PSYMTAB_TO_SYMTAB_def Let_def ALL_SYMTABS_def)
next
  case (Some s)
  then show ?thesis by (simp add: PSYMTAB_TO_SYMTAB_def Let_def)
qed

lemma search_psymtabs_loop_symtabs:
  "set (ALL_SYMTABS cat) \<subseteq> set (ALL_SYMTABS (search_psymtabs_loop E re kind files cat ks))"
proof (induction ks arbitrary: cat)
  case Nil
  show ?case by simp
next
  case (Cons ij rest)
  from Cons [of cat] Cons [of "snd (PSYMTAB_TO_SYMTAB E cat (fst ij) (snd ij))"]
    PSYMTAB_TO_SYMTAB_symtabs [of cat E "fst ij" "snd ij"]
  show ?case by (auto simp: Let_def)
qed

lemma find_pc_symtab_symtabs:
  "set (ALL_SYMTABS cat) \<subseteq> set (ALL_SYMTABS (snd (find_pc_symtab E cat pc)))"
proof -
  have p: "PSYMTAB_TO_SYMTAB E cat a b = (s, c) \<Longrightarrow> set (ALL_SYMTABS cat) \<subseteq> set (ALL_SYMTABS c)"
    for a b s c
    using PSYMTAB_TO_SYMTAB_symtabs [of cat E a b] by simp
  show ?thesis
    unfolding find_pc_symtab_def find_pc_sect_symtab_def
    by (auto split: sum.splits option.splits prod.splits dest: p)
qed

lemma search_msymbols_prepass_symtabs:
  "search_msymbols_prepass E nonlocal re FUNCTIONS_DOMAIN ms found_misc cat = (r, cat')
   \<Longrightarrow> set (ALL_SYMTABS cat) \<subseteq> set (ALL_SYMTABS cat')"
proof (induction ms arbitrary: found_misc cat)
  case Nil
  then show ?case by simp
next
  case (Cons m rest)
  show ?case
  proof (cases "msym_type m \<in> set (ourtypes FUNCTIONS_DOMAIN)
                \<and> search_name_ok E re (msym_natural_name m)")
    case False
    with Cons.prems have "search_msymbols_prepass E nonlocal re FUNCTIONS_DOMAIN rest found_misc cat = (r, cat')"
      by auto
    then show ?thesis by (rule Cons.IH)
  next
    case True
    obtain q cat1 where f: "find_pc_symtab E cat (msym_address m) = (q, cat1)"
      by (cases "find_pc_symtab E cat (msym_address m)")
    from find_pc_symtab_symtabs [of cat E "msym_address m"] f
    have m1: "set (ALL_SYMTABS cat) \<subseteq> set (ALL_SYMTABS cat1)" by simp
    show ?thesis
    proof (cases q)
      case (Inl e)
      with Cons.prems True f have "cat' = cat1" by simp
      with m1 show ?thesis by simp
    next
      case (Inr o1)
      show ?thesis
      proof (cases o1)
        case None
        with Cons.prems True f Inr
        have "search_msymbols_prepass E nonlocal re FUNCTIONS_DOMAIN rest True cat1 = (r, cat')"
          by simp
        from Cons.IH [OF this] m1 show ?thesis by blast
      next
        case (Some s)
        with Cons.prems True f Inr
        have "search_msymbols_prepass E nonlocal re FUNCTIONS_DOMAIN rest found_misc cat1 = (r, cat')"
          by simp
        from Cons.IH [OF this] m1 show ?thesis by blast
      qed
    qed
  qed
qed

lemma set_qsort_insert: "set (qsort_insert compar x ys) = insert x (set ys)"
  by (induction ys) auto

lemma set_qsort: "set (qsort compar xs) = set xs"
  unfolding qsort_def by (induction xs) (simp_all add: set_qsort_insert)

lemma search_block_symbols:
  "ss_symbol ` set (search_block E re kind files s i)
   = Some ` {found \<in> set (BLOCK_DICT (BLOCKVECTOR_BLOCK (BLOCKVECTOR s) i)).
               file_matches E (Some (sym_file found)) files
               \<and> search_name_ok E re (symbol_natural_name E found)
               \<and> symbol_kind_ok kind (sym_class found)}"
  unfolding search_block_def sort_search_symbols_def set_qsort
  by (auto simp: image_iff)

lemma search_symtabs_symbols:
  "ss_symbol ` set (search_symtabs E re kind files cat)
   = Some ` {found. \<exists>s \<in> set (ALL_PRIMARY_SYMTABS cat). \<exists>i.
               found \<in> set (BLOCK_DICT (BLOCKVECTOR_BLOCK (BLOCKVECTOR s) i))
               \<and> file_matches E (Some (sym_file found)) files
               \<and> search_name_ok E re (symbol_natural_name E found)
               \<and> symbol_kind_ok kind (sym_class found)}"
proof -
  have "ss_symbol ` set (search_symtabs E re kind files cat)
        = (\<Union>s \<in> set (ALL_PRIMARY_SYMTABS cat).
             ss_symbol ` set (search_block E re kind files s GLOBAL_BLOCK)
             \<union> ss_symbol ` set (search_block E re kind files s STATIC_BLOCK))"
    unfolding search_symtabs_def by (auto simp: image_Un image_UN)
  also have "\<dots> = Some ` {found. \<exists>s \<in> set (ALL_PRIMARY_SYMTABS cat). \<exists>i.
               found \<in> set (BLOCK_DICT (BLOCKVECTOR_BLOCK (BLOCKVECTOR s) i))
               \<and> file_matches E (Some (sym_file found)) files
               \<and> search_name_ok E re (symbol_natural_name E found)
               \<and> symbol_kind_ok kind (sym_class found)}"
    unfolding search_block_symbols
    apply (rule set_eqI)
    apply (rule iffI)
     apply (auto simp: image_iff)[1]
    apply clarsimp
    subgoal for found s i
      by (cases i) (auto simp: image_iff)
    done
  finally show ?thesis .
qed

lemma search_msymbols_pass_symbols:
  "search_msymbols_pass E nonlocal re kind i ms cat = (Inr found, cat')
   \<Longrightarrow> r \<in> set found \<Longrightarrow> ss_symbol r = None"
proof (induction ms arbitrary: cat found)
  case Nil
  then show ?case by simp
next
  case (Cons m rest)
  from Cons.prems Cons.IH show ?case
    by (auto split: if_splits prod.splits sum.splits bool.splits)
qed

lemma search_symbols_functions:
  assumes res: "search_symbols E nonlocal cat regexp FUNCTIONS_DOMAIN files = (Inr results, cat')"
      and re: "search_regexp E regexp = Inr re"
  shows "\<exists>cat2. set (ALL_SYMTABS cat) \<subseteq> set (ALL_SYMTABS cat2)
               \<and> set (search_symtabs E re FUNCTIONS_DOMAIN files cat2) \<subseteq> set results"
proof -
  define cat1 where "cat1 = search_psymtabs_loop E re FUNCTIONS_DOMAIN files cat (ALL_PSYMTABS cat)"
  define pre where "pre = (if files = []
                    then search_msymbols_prepass E nonlocal re FUNCTIONS_DOMAIN (ALL_MSYMBOLS cat1) False cat1
                    else (Inr False, cat1))"
  obtain q cat2 where q: "pre = (q, cat2)" by (cases pre)
  have m1: "set (ALL_SYMTABS cat) \<subseteq> set (ALL_SYMTABS cat1)"
    unfolding cat1_def by (rule search_psymtabs_loop_symtabs)
  have m2: "set (ALL_SYMTABS cat1) \<subseteq> set (ALL_SYMTABS cat2)"
  proof (cases "files = []")
    case True
    with q have "search_msymbols_prepass E nonlocal re FUNCTIONS_DOMAIN (ALL_MSYMBOLS cat1) False cat1
                 = (q, cat2)"
      by (simp add: pre_def)
    then show ?thesis by (rule search_msymbols_prepass_symtabs)
  next
    case False
    with q show ?thesis by (simp add: pre_def)
  qed
  have unf: "search_symbols E nonlocal cat regexp FUNCTIONS_DOMAIN files =
     (case pre of
        (Inl e, cat2) \<Rightarrow> (Inl e, cat2)
      | (Inr found_misc, cat2) \<Rightarrow>
          (let sr = search_symtabs E re FUNCTIONS_DOMAIN files cat2;
               i = (if ALL_PRIMARY_SYMTABS cat2 = [] then 0 else 2)
           in
           if found_misc \<or> FUNCTIONS_DOMAIN \<noteq> FUNCTIONS_DOMAIN then
             (case search_msymbols_pass E nonlocal re FUNCTIONS_DOMAIN i (ALL_MSYMBOLS cat2) cat2 of
                (Inl e, cat3) \<Rightarrow> (Inl e, cat3)
              | (Inr found, cat3) \<Rightarrow> (Inr (sr @ found), cat3))
           else (Inr sr, cat2)))"
    unfolding search_symbols_def pre_def cat1_def by (simp add: re Let_def)
  from res have "set (search_symtabs E re FUNCTIONS_DOMAIN files cat2) \<subseteq> set results"
    unfolding unf q by (auto simp: Let_def split: sum.splits prod.splits if_splits)
  with m1 m2 show ?thesis by blast
qed

lemma search_symbols_variables:
  assumes res: "search_symbols E nonlocal cat regexp VARIABLES_DOMAIN files = (Inr results, cat')"
      and r: "r \<in> set results"
  shows "ss_symbol r = None
         \<or> (\<exists>found. ss_symbol r = Some found \<and> symbol_kind_ok VARIABLES_DOMAIN (sym_class found))"
proof -
  obtain re where re: "search_regexp E regexp = Inr re"
    using res by (cases "search_regexp E regexp") (simp_all add: search_symbols_def)
  define cat1 where "cat1 = search_psymtabs_loop E re VARIABLES_DOMAIN files cat (ALL_PSYMTABS cat)"
  define pre where "pre = (if files = []
                    then search_msymbols_prepass E nonlocal re VARIABLES_DOMAIN (ALL_MSYMBOLS cat1) False cat1
                    else (Inr False, cat1))"
  obtain q cat2 where q: "pre = (q, cat2)" by (cases pre)
  define i :: nat where "i = (if ALL_PRIMARY_SYMTABS cat2 = [] then 0 else 2)"
  have unf: "search_symbols E nonlocal cat regexp VARIABLES_DOMAIN files =
     (case pre of
        (Inl e, cat2) \<Rightarrow> (Inl e, cat2)
      | (Inr found_misc, cat2) \<Rightarrow>
          (let sr = search_symtabs E re VARIABLES_DOMAIN files cat2;
               i = (if ALL_PRIMARY_SYMTABS cat2 = [] then 0 else 2)
           in
           if found_misc \<or> VARIABLES_DOMAIN \<noteq> FUNCTIONS_DOMAIN then
             (case search_msymbols_pass E nonlocal re VARIABLES_DOMAIN i (ALL_MSYMBOLS cat2) cat2 of
                (Inl e, cat3) \<Rightarrow> (Inl e, cat3)
              | (Inr found, cat3) \<Rightarrow> (Inr (sr @ found), cat3))
           else (Inr sr, cat2)))"
    unfolding search_symbols_def pre_def cat1_def by (simp add: re Let_def)
  from res obtain found where f:
    "search_msymbols_pass E nonlocal re VARIABLES_DOMAIN i (ALL_MSYMBOLS cat2) cat2 = (Inr found, cat')"
    "results = search_symtabs E re VARIABLES_DOMAIN files cat2 @ found"
    unfolding unf q i_def by (auto simp: Let_def split: sum.splits prod.splits)
  from r f(2) consider "r \<in> set (search_symtabs E re VARIABLES_DOMAIN files cat2)" | "r \<in> set found"
    by auto
  then show ?thesis
  proof cases
    case 1
    then have "ss_symbol r \<in> ss_symbol ` set (search_symtabs E re VARIABLES_DOMAIN files cat2)"
      by simp
    then show ?thesis unfolding search_symtabs_symbols by auto
  next
    case 2
    with f(1) show ?thesis by (simp add: search_msymbols_pass_symbols)
  qed
qed

text \<open>
  Claim C9, amended. A symbol of class \<open>LOC_BLOCK\<close> that is in the global or the
  static block of a primary symtab is among the results of every search of
  \<open>FUNCTIONS_DOMAIN\<close> that ends without an error, whose files admit the file of the symbol
  and whose regular expression, as it was compiled, is absent or matches the natural name
  of the symbol; and it is not among the results of any search of \<open>VARIABLES_DOMAIN\<close>,
  whatever the regular expression and the files.
\<close>

theorem search_symbols_domain_filtering:
  assumes "sym_class found = LOC_BLOCK"
  shows "(s \<in> set (ALL_PRIMARY_SYMTABS cat)
          \<and> found \<in> set (BLOCK_DICT (BLOCKVECTOR_BLOCK (BLOCKVECTOR s) i))
          \<and> file_matches E (Some (sym_file found)) files
          \<and> search_regexp E regexp = Inr re
          \<and> search_name_ok E re (symbol_natural_name E found)
          \<and> search_symbols E nonlocal cat regexp FUNCTIONS_DOMAIN files = (Inr results, cat')
          \<longrightarrow> Some found \<in> ss_symbol ` set results)
       \<and> (search_symbols E nonlocal cat regexp VARIABLES_DOMAIN files = (Inr results, cat')
          \<longrightarrow> Some found \<notin> ss_symbol ` set results)"
proof (intro conjI impI)
  assume a: "s \<in> set (ALL_PRIMARY_SYMTABS cat)
          \<and> found \<in> set (BLOCK_DICT (BLOCKVECTOR_BLOCK (BLOCKVECTOR s) i))
          \<and> file_matches E (Some (sym_file found)) files
          \<and> search_regexp E regexp = Inr re
          \<and> search_name_ok E re (symbol_natural_name E found)
          \<and> search_symbols E nonlocal cat regexp FUNCTIONS_DOMAIN files = (Inr results, cat')"
  with search_symbols_functions [of E nonlocal cat regexp files results cat' re]
  obtain cat2 where c: "set (ALL_SYMTABS cat) \<subseteq> set (ALL_SYMTABS cat2)"
    "set (search_symtabs E re FUNCTIONS_DOMAIN files cat2) \<subseteq> set results"
    by blast
  from a c(1) have "s \<in> set (ALL_PRIMARY_SYMTABS cat2)"
    by (auto simp: ALL_PRIMARY_SYMTABS_def)
  with a assms have "found \<in> {found. \<exists>s \<in> set (ALL_PRIMARY_SYMTABS cat2). \<exists>i.
               found \<in> set (BLOCK_DICT (BLOCKVECTOR_BLOCK (BLOCKVECTOR s) i))
               \<and> file_matches E (Some (sym_file found)) files
               \<and> search_name_ok E re (symbol_natural_name E found)
               \<and> symbol_kind_ok FUNCTIONS_DOMAIN (sym_class found)}"
    by (auto simp: symbol_kind_ok_def)
  then have "Some found \<in> ss_symbol ` set (search_symtabs E re FUNCTIONS_DOMAIN files cat2)"
    unfolding search_symtabs_symbols by (rule imageI)
  with c(2) show "Some found \<in> ss_symbol ` set results" by auto
next
  assume v: "search_symbols E nonlocal cat regexp VARIABLES_DOMAIN files = (Inr results, cat')"
  show "Some found \<notin> ss_symbol ` set results"
  proof
    assume "Some found \<in> ss_symbol ` set results"
    then obtain r where r: "r \<in> set results" "ss_symbol r = Some found" by auto
    from search_symbols_variables [OF v r(1)] r(2) assms show False
      by (simp add: symbol_kind_ok_def)
  qed
qed

theorem search_symbols_domain_filtering_witness:
  "sym_class ex_fn = LOC_BLOCK
   \<and> ex_symtab \<in> set (ALL_PRIMARY_SYMTABS ex_search_cat)
   \<and> ex_fn \<in> set (BLOCK_DICT (BLOCKVECTOR_BLOCK (BLOCKVECTOR ex_symtab) GLOBAL_BLOCK))
   \<and> search_regexp ex_ext (Some ''f'') = Inr (Some ''f'')
   \<and> search_symbols ex_ext ex_nonlocal ex_search_cat (Some ''f'') FUNCTIONS_DOMAIN []
     = (Inr [\<lparr>ss_block = 0, ss_symtab = Some ''a.c'', ss_symbol = Some ex_fn, ss_msymbol = None\<rparr>],
        ex_search_cat)
   \<and> Some ex_fn \<in> ss_symbol ` set [\<lparr>ss_block = 0, ss_symtab = Some ''a.c'', ss_symbol = Some ex_fn,
                                     ss_msymbol = None\<rparr>]
   \<and> map (map_option sym_name \<circ> ss_symbol)
       (projr (fst (search_symbols ex_ext ex_nonlocal ex_search_cat None VARIABLES_DOMAIN [])))
     = [Some ''g'', Some ''x'', Some ''st'']
   \<and> Some ex_fn \<notin> ss_symbol `
         set (projr (fst (search_symbols ex_ext ex_nonlocal ex_search_cat None VARIABLES_DOMAIN [])))"
proof -
  have c: "sym_class ex_fn = LOC_BLOCK" by code_simp
  have e: "ex_symtab \<in> set (ALL_PRIMARY_SYMTABS ex_search_cat)"
    "ex_fn \<in> set (BLOCK_DICT (BLOCKVECTOR_BLOCK (BLOCKVECTOR ex_symtab) GLOBAL_BLOCK))"
    "file_matches ex_ext (Some (sym_file ex_fn)) []"
    "search_regexp ex_ext (Some ''f'') = Inr (Some ''f'')"
    "search_name_ok ex_ext (Some ''f'') (symbol_natural_name ex_ext ex_fn)"
    "search_symbols ex_ext ex_nonlocal ex_search_cat (Some ''f'') FUNCTIONS_DOMAIN []
     = (Inr [\<lparr>ss_block = 0, ss_symtab = Some ''a.c'', ss_symbol = Some ex_fn, ss_msymbol = None\<rparr>],
        ex_search_cat)"
    "map (map_option sym_name \<circ> ss_symbol)
       (projr (fst (search_symbols ex_ext ex_nonlocal ex_search_cat None VARIABLES_DOMAIN [])))
     = [Some ''g'', Some ''x'', Some ''st'']"
    by code_simp+
  have v: "search_symbols ex_ext ex_nonlocal ex_search_cat None VARIABLES_DOMAIN []
           = (Inr (projr (fst (search_symbols ex_ext ex_nonlocal ex_search_cat None VARIABLES_DOMAIN []))),
              snd (search_symbols ex_ext ex_nonlocal ex_search_cat None VARIABLES_DOMAIN []))"
    by code_simp
  from search_symbols_domain_filtering [OF c, of ex_symtab ex_search_cat GLOBAL_BLOCK ex_ext "[]"
      "Some ''f''" "Some ''f''" ex_nonlocal
      "[\<lparr>ss_block = 0, ss_symtab = Some ''a.c'', ss_symbol = Some ex_fn, ss_msymbol = None\<rparr>]"
      ex_search_cat]
    search_symbols_domain_filtering [OF c, of _ ex_search_cat _ ex_ext "[]" None _ ex_nonlocal
      "projr (fst (search_symbols ex_ext ex_nonlocal ex_search_cat None VARIABLES_DOMAIN []))"
      "snd (search_symbols ex_ext ex_nonlocal ex_search_cat None VARIABLES_DOMAIN [])"]
    c e v
  show ?thesis by simp
qed

text \<open>
  The claim as stated fails for a search that names files: \<open>f\<close> is a function of \<open>a.c\<close>, in
  the global block of its primary symtab, and the regular expression matches its name, but
  the search of \<open>FUNCTIONS_DOMAIN\<close> in the file \<open>b.c\<close> does not give it.
\<close>

theorem file_filter_excludes_function_counterexample:
  "sym_class ex_fn = LOC_BLOCK
   \<and> ex_symtab \<in> set (ALL_PRIMARY_SYMTABS ex_search_cat)
   \<and> ex_fn \<in> set (BLOCK_DICT (BLOCKVECTOR_BLOCK (BLOCKVECTOR ex_symtab) GLOBAL_BLOCK))
   \<and> search_regexp ex_ext (Some ''f'') = Inr (Some ''f'')
   \<and> re_exec ex_ext ''f'' (symbol_natural_name ex_ext ex_fn)
   \<and> search_symbols ex_ext ex_nonlocal ex_search_cat (Some ''f'') FUNCTIONS_DOMAIN [''b.c'']
     = (Inr [], ex_search_cat)"
  by code_simp

end
